(* ===== verification/Prelude.thy ===== *)
theory Prelude
  imports Main "HOL-Library.Word"
begin

text \<open>
  Shared vocabulary of the development: the error values of the Go code, the result type, the
  time type, the SQL-style list operations the database model is written with, and the generic
  lemmas on lists the components use.

  A Go function that returns \<open>(T, error)\<close> is modelled with the result type \<open>err + 'a\<close>: \<open>Inl\<close>
  is a non-nil error, \<open>Inr\<close> a nil error with its value. An error built with
  \<open>fmt.Errorf("...: %w", err)\<close> is \<open>Wrap\<close> with the constant part of the format string; the values
  formatted into the message are left out, since no code branches on them. \<open>PgError code constraint\<close>
  is the driver's \<open>*pgconn.PgError\<close>, whose code and constraint name the store inspects,
  and \<open>APIError path status body\<close> the bridge clients' error for a non-2xx response.
\<close>

datatype err =
    Err string
  | PgError string string
  | APIError string int string
  | Wrap string err

type_synonym 'a res = "err + 'a"

text \<open>Times are integers in microseconds, the resolution of PostgreSQL's TIMESTAMPTZ.\<close>

type_synonym time = int

text \<open>\<open>errors.Is\<close>: a sentinel is found anywhere along the chain of wrapped errors.\<close>

fun err_is :: "err \<Rightarrow> err \<Rightarrow> bool" where
  "err_is (Err s) t = (Err s = t)"
| "err_is (PgError c n) t = (PgError c n = t)"
| "err_is (APIError p c b) t = (APIError p c b = t)"
| "err_is (Wrap s e) t = (Wrap s e = t \<or> err_is e t)"

text \<open>\<open>errors.As(err, &pgErr)\<close>: the first PostgreSQL error along the chain.\<close>

fun as_pg_error :: "err \<Rightarrow> (string \<times> string) option" where
  "as_pg_error (Err s) = None"
| "as_pg_error (PgError c n) = Some (c, n)"
| "as_pg_error (APIError p c b) = None"
| "as_pg_error (Wrap s e) = as_pg_error e"

text \<open>\<open>errors.As(err, &apiErr)\<close>.\<close>

fun as_api_error :: "err \<Rightarrow> (string \<times> int \<times> string) option" where
  "as_api_error (Err s) = None"
| "as_api_error (PgError c n) = None"
| "as_api_error (APIError p c b) = Some (p, c, b)"
| "as_api_error (Wrap s e) = as_api_error e"

text \<open>\<open>if err != nil { return ..., fmt.Errorf("...: %w", err) }\<close>.\<close>

definition wrap_err :: "string \<Rightarrow> 'a res \<Rightarrow> 'a res" where
  "wrap_err s r = (case r of Inl e \<Rightarrow> Inl (Wrap s e) | Inr a \<Rightarrow> Inr a)"

lemma wrap_err_simps [simp]:
  "wrap_err s (Inl e) = Inl (Wrap s e)" "wrap_err s (Inr a) = Inr a"
  by (simp_all add: wrap_err_def)

lemma wrap_err_eq_Inr [simp]: "wrap_err s r = Inr a \<longleftrightarrow> r = Inr a"
  by (cases r) simp_all

named_theorems sql_simps \<open>rewrite rules for the SQL-style list operations\<close>

section \<open>SQL-style operations on tables\<close>

text \<open>
  A table is a list of rows. \<open>sql_update\<close> is \<open>UPDATE ... SET ... WHERE\<close>, \<open>sql_select\<close> is
  \<open>SELECT ... WHERE\<close>, \<open>sql_row\<close> the first row of a result (\<open>QueryRowContext\<close>, \<open>None\<close> standing for
  \<open>sql.ErrNoRows\<close>).
\<close>

definition sql_update :: "('r \<Rightarrow> bool) \<Rightarrow> ('r \<Rightarrow> 'r) \<Rightarrow> 'r list \<Rightarrow> 'r list" where
  "sql_update c u t = map (\<lambda>r. if c r then u r else r) t"

definition sql_select :: "('r \<Rightarrow> bool) \<Rightarrow> 'r list \<Rightarrow> 'r list" where
  "sql_select c t = filter c t"

definition sql_row :: "'r list \<Rightarrow> 'r option" where
  "sql_row t = (case t of [] \<Rightarrow> None | r # _ \<Rightarrow> Some r)"

lemma sql_row_simps [simp, sql_simps]:
  "sql_row [] = None" "sql_row (r # rs) = Some r"
  by (simp_all add: sql_row_def)

lemma sql_row_None_iff [simp]: "sql_row t = None \<longleftrightarrow> t = []"
  by (cases t) simp_all

lemma sql_row_Some_in: "sql_row t = Some r \<Longrightarrow> r \<in> set t"
  by (cases t) auto

lemma sql_row_select_Some:
  "sql_row (sql_select c t) = Some r \<Longrightarrow> r \<in> set t \<and> c r"
  by (auto simp: sql_select_def dest: sql_row_Some_in)

lemma sql_row_select_None:
  "sql_row (sql_select c t) = None \<longleftrightarrow> (\<forall>r \<in> set t. \<not> c r)"
  by (auto simp: sql_select_def filter_empty_conv)

lemma sql_update_length [simp]: "length (sql_update c u t) = length t"
  by (simp add: sql_update_def)

lemma sql_update_Nil [simp]: "sql_update c u [] = []"
  by (simp add: sql_update_def)

lemma sql_update_map:
  "(\<And>r. r \<in> set t \<Longrightarrow> c r \<Longrightarrow> f (u r) = f r) \<Longrightarrow> map f (sql_update c u t) = map f t"
  by (auto simp: sql_update_def)

lemma in_sql_update:
  "r \<in> set (sql_update c u t) \<longleftrightarrow> (\<exists>q \<in> set t. r = (if c q then u q else q))"
  by (auto simp: sql_update_def)

lemma in_sql_updateE:
  assumes "r \<in> set (sql_update c u t)"
  obtains q where "q \<in> set t" "c q" "r = u q" | "r \<in> set t" "\<not> c r"
  using assms by (auto simp: in_sql_update split: if_splits)

lemma sql_update_none: "(\<And>r. r \<in> set t \<Longrightarrow> \<not> c r) \<Longrightarrow> sql_update c u t = t"
  by (induction t) (auto simp: sql_update_def)

lemma sql_update_filter_map:
  "(\<And>r. r \<in> set t \<Longrightarrow> P (if c r then u r else r) = P r) \<Longrightarrow>
   filter P (sql_update c u t) = sql_update c u (filter P t)"
  by (induction t) (auto simp: sql_update_def)

section \<open>Rows identified by a key\<close>

text \<open>
  In a table whose key column is distinct, the row with a given key is unique; the update of
  that row replaces it and leaves the others.
\<close>

lemma distinct_map_eqD:
  "distinct (map f t) \<Longrightarrow> r \<in> set t \<Longrightarrow> q \<in> set t \<Longrightarrow> f r = f q \<Longrightarrow> r = q"
  by (auto simp: distinct_map inj_on_def)

lemma sql_row_key:
  assumes "distinct (map f t)" "r \<in> set t"
  shows "sql_row (sql_select (\<lambda>q. f q = f r) t) = Some r"
proof (cases "sql_row (sql_select (\<lambda>q. f q = f r) t)")
  case None
  then show ?thesis using assms(2) by (auto simp: sql_row_select_None simp del: sql_row_None_iff)
next
  case (Some q)
  from sql_row_select_Some [OF this] have "q \<in> set t" "f q = f r" by auto
  with assms have "q = r" by (metis distinct_map_eqD)
  with Some show ?thesis by simp
qed

lemma in_sql_update_key:
  assumes "r \<in> set t" "c r"
  shows "u r \<in> set (sql_update c u t)"
  using assms by (force simp: in_sql_update)

lemma in_sql_update_other:
  assumes "r \<in> set t" "\<not> c r"
  shows "r \<in> set (sql_update c u t)"
  using assms by (force simp: in_sql_update)

section \<open>Growing tables\<close>

text \<open>
  \<open>grows le xs ys\<close>: every row of \<open>xs\<close> is still at its place in \<open>ys\<close>, changed at most along \<open>le\<close>;
  new rows are added at the end.
\<close>

definition grows :: "('r \<Rightarrow> 'r \<Rightarrow> bool) \<Rightarrow> 'r list \<Rightarrow> 'r list \<Rightarrow> bool" where
  "grows le xs ys \<longleftrightarrow> list_all2 le xs (take (length xs) ys)"

lemma grows_refl: "(\<And>x. le x x) \<Longrightarrow> grows le xs xs"
  by (simp add: grows_def list.rel_refl)

lemma grows_trans:
  assumes le: "\<And>x y z. le x y \<Longrightarrow> le y z \<Longrightarrow> le x z" and "grows le xs ys" "grows le ys zs"
  shows "grows le xs zs"
proof -
  from assms(2) have 1: "length xs \<le> length ys" "\<And>k. k < length xs \<Longrightarrow> le (xs ! k) (ys ! k)"
    by (auto simp: grows_def list_all2_conv_all_nth)
  from assms(3) have 2: "length ys \<le> length zs" "\<And>k. k < length ys \<Longrightarrow> le (ys ! k) (zs ! k)"
    by (auto simp: grows_def list_all2_conv_all_nth)
  show ?thesis using 1 2 le by (auto simp: grows_def list_all2_conv_all_nth) (meson le less_le_trans)
qed

lemma grows_append: "(\<And>x. le x x) \<Longrightarrow> grows le xs (xs @ ys)"
  by (simp add: grows_def list.rel_refl)

lemma grows_sql_update:
  assumes "\<And>x. le x x" "\<And>x. x \<in> set xs \<Longrightarrow> c x \<Longrightarrow> le x (u x)"
  shows "grows le xs (sql_update c u xs)"
  using assms by (auto simp: grows_def sql_update_def list_all2_conv_all_nth)

lemma grows_in:
  assumes "grows le xs ys" "x \<in> set xs"
  shows "\<exists>y \<in> set ys. le x y"
proof -
  from assms(2) obtain k where k: "k < length xs" "x = xs ! k" by (auto simp: in_set_conv_nth)
  with assms(1) have "length xs \<le> length ys" "le x (ys ! k)"
    by (auto simp: grows_def list_all2_conv_all_nth)
  with k show ?thesis by (meson nth_mem order_less_le_trans)
qed

lemma grows_eq_subset: "grows (=) xs ys \<Longrightarrow> set xs \<subseteq> set ys"
  by (auto dest: grows_in)

lemma grows_length: "grows le xs ys \<Longrightarrow> length xs \<le> length ys"
  by (auto simp: grows_def dest: list_all2_lengthD)

end
