(* ===== verification/Payment_Model.thy ===== *)
theory Payment_Model
  imports Prelude
begin

text \<open>
  Package \<open>payment\<close> (\<open>internal/payment/payment.go\<close>) and \<open>events\<close>: the domain types. Field names carry
  a prefix (\<open>p_\<close> payment, \<open>h_\<close> hop, \<open>q_\<close> persisted quote, \<open>x_\<close> execution, \<open>f_\<close> list filter, \<open>ev_\<close> event).
  A nil pointer is \<open>None\<close>. A \<open>float64\<close> is its bit pattern, since the Go code only copies fees and
  route metrics. An \<open>int64\<close> that is only stored and compared is an \<open>int\<close>.
\<close>

type_synonym float64 = "64 word"
type_synonym bytes = string

datatype Status = ROUTED | PROCESSING | SUBMITTED | COMPLETED | FAILED

text \<open>\<open>string(status)\<close>, the text in the \<open>status\<close> column and in the JSON responses.\<close>

fun status_text :: "Status \<Rightarrow> string" where
  "status_text ROUTED = ''ROUTED''"
| "status_text PROCESSING = ''PROCESSING''"
| "status_text SUBMITTED = ''SUBMITTED''"
| "status_text COMPLETED = ''COMPLETED''"
| "status_text FAILED = ''FAILED''"

fun terminal :: "Status \<Rightarrow> bool" where
  "terminal COMPLETED = True"
| "terminal FAILED = True"
| "terminal _ = False"

type_synonym ExecutionMode = string

abbreviation ExecutionModeSimulated :: ExecutionMode where
  "ExecutionModeSimulated \<equiv> ''simulated''"

abbreviation ExecutionModeTestnet :: ExecutionMode where
  "ExecutionModeTestnet \<equiv> ''testnet''"

datatype ExternalStatus = ExtPending | ExtFilled | ExtExpired | ExtRefunded | ExtReverted | ExtFillFailed

fun external_status_text :: "ExternalStatus \<Rightarrow> string" where
  "external_status_text ExtPending = ''pending''"
| "external_status_text ExtFilled = ''filled''"
| "external_status_text ExtExpired = ''expired''"
| "external_status_text ExtRefunded = ''refunded''"
| "external_status_text ExtReverted = ''reverted''"
| "external_status_text ExtFillFailed = ''fill_failed''"

text \<open>
  JSON documents (\<open>json.RawMessage\<close>, \<open>JSONB\<close>). A number is kept as its literal.
\<close>

datatype json =
    JNull
  | JBool bool
  | JNum string
  | JStr string
  | JArr "json list"
  | JObj "(string \<times> json) list"

record Hop =
  h_HopIndex :: int
  h_FromChain :: string
  h_ToChain :: string
  h_BridgeName :: string
  h_Fee :: float64
  h_LatencyMs :: float64
  h_Liquidity :: float64
  h_Reliability :: float64

record Quote =
  q_ID :: string
  q_PaymentID :: string
  q_Provider :: string
  q_OriginChainID :: int
  q_DestinationChainID :: int
  q_Asset :: string
  q_InputAmount :: string
  q_OutputAmount :: string
  q_FeeAmount :: string
  q_EstimatedFillTimeSec :: int
  q_QuotedAt :: time
  q_ExpiresAt :: time
  q_RawProviderPayload :: json
  q_Selected :: bool
  q_CreatedAt :: time

record Payment =
  p_ID :: string
  p_IdempotencyKey :: string
  p_SourceChain :: string
  p_DestinationChain :: string
  p_Asset :: string
  p_Amount :: string
  p_Status :: Status
  p_TotalFee :: float64
  p_Hops :: "Hop list"
  p_ExecutionMode :: ExecutionMode
  p_BridgeProvider :: "string option"
  p_FailureReason :: "string option"
  p_Quotes :: "Quote list"
  p_CreatedAt :: time
  p_UpdatedAt :: time
  p_CompletedAt :: "time option"

record Execution =
  x_ID :: string
  x_PaymentID :: string
  x_BridgeProvider :: string
  x_OriginChainID :: int
  x_DestinationChainID :: int
  x_WalletAddress :: string
  x_Nonce :: int
  x_SignedTxHash :: "string option"
  x_RawSignedTx :: "bytes option"
  x_BroadcastAt :: "time option"
  x_ProviderReferenceID :: "string option"
  x_ExternalStatus :: ExternalStatus
  x_RawExternalStatus :: "string option"
  x_ConfirmedAt :: "time option"
  x_CreatedAt :: time
  x_UpdatedAt :: time

record ListFilter =
  f_Limit :: int
  f_Cursor :: string
  f_Status :: "string option"
  f_Provider :: "string option"
  f_SourceChain :: "string option"
  f_DestinationChain :: "string option"
  f_ExecutionMode :: "string option"

record NetworkUsageEntry =
  n_SourceChain :: string
  n_DestinationChain :: string
  n_Count :: nat

record DashboardStats =
  d_TotalPayments :: nat
  d_CompletedPayments :: nat
  d_ProcessingPayments :: nat
  d_FailedPayments :: nat
  d_ProviderUsage :: "string \<rightharpoonup> nat"
  d_AverageRoutingCost :: float64
  d_NetworkUsage :: "NetworkUsageEntry list"

record TimeseriesPoint =
  t_Bucket :: time
  t_Value :: float64
  t_Count :: nat

datatype CreateResult = Created | Replayed | Conflict

text \<open>Package \<open>events\<close>; the trace carrier is left out with the rest of the tracing.\<close>

abbreviation RoutedPaymentEventType :: string where
  "RoutedPaymentEventType \<equiv> ''PAYMENT_ROUTED''"

record RoutedPayment =
  ev_PaymentID :: string
  ev_EventType :: string
  ev_OccurredAt :: time

text \<open>
  The order in which a payment may move through its states. \<open>advances s t\<close> is one transition;
  \<open>status_le\<close> is its reflexive-transitive closure.
\<close>

fun advances :: "Status \<Rightarrow> Status \<Rightarrow> bool" where
  "advances ROUTED PROCESSING = True"
| "advances PROCESSING SUBMITTED = True"
| "advances PROCESSING COMPLETED = True"
| "advances PROCESSING FAILED = True"
| "advances SUBMITTED COMPLETED = True"
| "advances SUBMITTED FAILED = True"
| "advances _ _ = False"

fun status_le :: "Status \<Rightarrow> Status \<Rightarrow> bool" where
  "status_le ROUTED t = True"
| "status_le PROCESSING t = (t \<noteq> ROUTED)"
| "status_le SUBMITTED t = (t \<noteq> ROUTED \<and> t \<noteq> PROCESSING)"
| "status_le COMPLETED t = (t = COMPLETED)"
| "status_le FAILED t = (t = FAILED)"

lemma status_le_refl [simp]: "status_le s s"
  by (cases s) simp_all

lemma status_le_trans: "status_le s t \<Longrightarrow> status_le t u \<Longrightarrow> status_le s u"
  by (cases s; cases t; cases u) simp_all

lemma status_le_rtranclp: "status_le s t = advances\<^sup>*\<^sup>* s t"
proof
  assume "status_le s t"
  have 1: "advances\<^sup>*\<^sup>* ROUTED t" if "advances PROCESSING t" for t
    using that by (rule converse_rtranclp_into_rtranclp [of advances, OF _ r_into_rtranclp, rotated]) simp
  from \<open>status_le s t\<close> show "advances\<^sup>*\<^sup>* s t"
    by (cases s; cases t) (auto intro: 1)
next
  assume "advances\<^sup>*\<^sup>* s t"
  then show "status_le s t"
  proof (induction rule: rtranclp_induct)
    case (step t u)
    then show ?case by (cases s; cases t; cases u) simp_all
  qed simp
qed

lemma terminal_status_le: "terminal s \<Longrightarrow> status_le s t \<longleftrightarrow> t = s"
  by (cases s) auto

end
