(* ===== verification/Bridge_Quote.thy ===== *)
theory Bridge_Quote
  imports Payment_Model
begin

text \<open>
  Package \<open>quote\<close> (\<open>internal/bridge/quote\<close>): the normalized quote, the transaction envelope, the
  status vocabulary, the provider interfaces and the route registry. An interface value is a
  record of its methods; a method that talks to a remote service takes the answers of the
  environment (type variable \<open>'e\<close>) as its first argument. A nil \<open>*big.Int\<close> is \<open>None\<close>.
\<close>

type_synonym address = "160 word"
type_synonym hash32 = "256 word"

record Request =
  rq_SourceChainID :: int
  rq_DestinationChainID :: int
  rq_Asset :: string
  rq_AmountBaseUnits :: int

record BQuote =
  b_ProviderName :: string
  b_SourceChainID :: int
  b_DestinationChainID :: int
  b_Asset :: string
  b_InputAmountBaseUnits :: "int option"
  b_OutputAmountBaseUnits :: "int option"
  b_FeeBaseUnits :: "int option"
  b_EstimatedFillTimeSec :: int
  b_Available :: bool
  b_QuotedAt :: time
  b_ExpiresAt :: time
  b_RawProviderPayload :: "json option"

record TxEnvelope =
  te_To :: address
  te_Value :: "int option"
  te_Data :: bytes
  te_ChainID :: int

datatype ExternalState = StatePending | StateFilled | StateRefunded | StateReverted | StateFillFailed

record StatusRequest =
  sr_ProviderReferenceID :: string
  sr_OriginTxHash :: string

record StatusResult =
  sr_State :: ExternalState
  sr_RawStatus :: string
  sr_DestinationTxHash :: "string option"

record 'e Provider =
  pv_Name :: string
  pv_GetQuote :: "'e \<Rightarrow> Request \<Rightarrow> BQuote res"

record 'e Signer = "'e Provider" +
  sg_BuildTransaction :: "BQuote \<Rightarrow> TxEnvelope res"

record 'e StatusChecker = "'e Provider" +
  sc_CheckStatus :: "'e \<Rightarrow> StatusRequest \<Rightarrow> StatusResult res"

section \<open>The contract of a provider\<close>

text \<open>
  What the server and the executor rely on when they call a bridge through these interfaces: a quote
  answers the route that was asked for under the provider's own name; an available quote takes
  exactly the requested amount and carries a fee, the difference to its output; and a transaction
  built from such a quote is for the source chain.
\<close>

locale bridge_provider =
  fixes name :: string
    and getQuote :: "'e \<Rightarrow> Request \<Rightarrow> BQuote res"
    and build :: "BQuote \<Rightarrow> TxEnvelope res"
  assumes route: "getQuote i rq = Inr q \<Longrightarrow>
      b_ProviderName q = name \<and> b_SourceChainID q = rq_SourceChainID rq \<and>
      b_DestinationChainID q = rq_DestinationChainID rq \<and> b_Asset q = rq_Asset rq"
    and amounts: "getQuote i rq = Inr q \<Longrightarrow> b_Available q \<Longrightarrow>
      b_InputAmountBaseUnits q = Some (rq_AmountBaseUnits rq) \<and>
      (\<exists>out. b_OutputAmountBaseUnits q = Some out \<and> b_FeeBaseUnits q = Some (rq_AmountBaseUnits rq - out))"
    and chain: "getQuote i rq = Inr q \<Longrightarrow> b_Available q \<Longrightarrow> build q = Inr t \<Longrightarrow> te_ChainID t = rq_SourceChainID rq"

section \<open>The route registry\<close>

record RouteKey =
  rk_SourceChainID :: int
  rk_DestinationChainID :: int
  rk_Asset :: string

type_synonym 'e Registry = "RouteKey \<Rightarrow> 'e Provider list"

definition NewRegistry :: "'e Registry" where
  "NewRegistry = (\<lambda>_. [])"

definition Register :: "'e Registry \<Rightarrow> RouteKey \<Rightarrow> 'e Provider \<Rightarrow> 'e Registry" where
  "Register r key p = r(key := r key @ [p])"

definition ProvidersFor :: "'e Registry \<Rightarrow> RouteKey \<Rightarrow> 'e Provider list" where
  "ProvidersFor r key = r key"

lemma ProvidersFor_Register:
  "ProvidersFor (Register r k p) k' = (if k' = k then ProvidersFor r k @ [p] else ProvidersFor r k')"
  by (simp add: ProvidersFor_def Register_def)

text \<open>
  A registry built at startup by a list of registrations answers a route with exactly the
  providers registered for it, in registration order; an unregistered route has none.
\<close>

lemma ProvidersFor_foldl:
  "ProvidersFor (foldl (\<lambda>r (k, p). Register r k p) r0 regs) key =
     ProvidersFor r0 key @ map snd (filter (\<lambda>(k, p). k = key) regs)"
  by (induction regs arbitrary: r0) (auto simp: ProvidersFor_Register)

end
