(* ===== verification/Evm.thy ===== *)
theory Evm
  imports Bridge_Quote
begin

text \<open>
  Package \<open>evm\<close> (\<open>internal/evm\<close>) over go-ethereum, which is not part of the repository: the record
  \<open>Geth\<close> holds the library functions the code calls, as parameters. A transaction is the
  \<open>types.LegacyTx\<close> the executor fills in; a signed transaction is that content with the chain
  identifier it was signed for and an opaque signature.
\<close>

record LegacyTx =
  lt_Nonce :: "64 word"
  lt_To :: address
  lt_Value :: int
  lt_Gas :: "64 word"
  lt_GasPrice :: int
  lt_Data :: bytes

record SignedTx =
  st_Tx :: LegacyTx
  st_ChainID :: int
  st_Signature :: string

text \<open>The arguments of \<open>depositV3\<close>, in the order of the embedded ABI fragment.\<close>

record deposit_v3 =
  dv_depositor :: address
  dv_recipient :: address
  dv_inputToken :: address
  dv_outputToken :: address
  dv_inputAmount :: "int option"
  dv_outputAmount :: "int option"
  dv_destinationChainId :: int
  dv_exclusiveRelayer :: address
  dv_quoteTimestamp :: "32 word"
  dv_fillDeadline :: "32 word"
  dv_exclusivityDeadline :: "32 word"
  dv_message :: bytes

record Geth =
  g_SignTx :: "LegacyTx \<Rightarrow> int \<Rightarrow> string \<Rightarrow> SignedTx res"
  g_MarshalBinary :: "SignedTx \<Rightarrow> bytes res"
  g_UnmarshalBinary :: "bytes \<Rightarrow> SignedTx res"
  g_Hash :: "SignedTx \<Rightarrow> hash32"
  g_HashHex :: "hash32 \<Rightarrow> string"
  g_HexToHash :: "string \<Rightarrow> hash32"
  g_AddressHex :: "address \<Rightarrow> string"
  g_HexToAddress :: "string \<Rightarrow> address"
  g_HexToECDSA :: "string \<Rightarrow> string res"
  g_PubkeyToAddress :: "string \<Rightarrow> address"
  g_PackDepositV3 :: "deposit_v3 \<Rightarrow> bytes res"

text \<open>What the code relies on: signing keeps the content, and the wire encoding and the hash text decode.\<close>

definition geth_ok :: "Geth \<Rightarrow> bool" where
  "geth_ok g \<longleftrightarrow>
    (\<forall>tx cid key stx. g_SignTx g tx cid key = Inr stx \<longrightarrow> st_Tx stx = tx \<and> st_ChainID stx = cid) \<and>
    (\<forall>stx raw. g_MarshalBinary g stx = Inr raw \<longrightarrow> g_UnmarshalBinary g raw = Inr stx) \<and>
    (\<forall>h. g_HexToHash g (g_HashHex g h) = h)"

record Wallet =
  wl_PrivateKey :: string
  wl_Address :: address

definition TrimPrefix :: "string \<Rightarrow> string \<Rightarrow> string" where
  "TrimPrefix s p = (if take (length p) s = p then drop (length p) s else s)"

definition LoadWallet :: "Geth \<Rightarrow> string \<Rightarrow> Wallet res" where
  "LoadWallet g hexKey =
    (case g_HexToECDSA g (TrimPrefix hexKey ''0x'') of
       Inl e \<Rightarrow> Inl (Wrap ''parse private key'' e)
     | Inr key \<Rightarrow> Inr \<lparr>wl_PrivateKey = key, wl_Address = g_PubkeyToAddress g key\<rparr>)"

definition SignTx :: "Geth \<Rightarrow> Wallet \<Rightarrow> LegacyTx \<Rightarrow> int \<Rightarrow> SignedTx res" where
  "SignTx g w tx chainID = wrap_err ''sign tx'' (g_SignTx g tx chainID (wl_PrivateKey w))"

text \<open>
  \<open>evm.Dial\<close>: \<open>dial\<close> and \<open>chain_id\<close> are the answers of the endpoint. The errors carry no part of the
  underlying error, which may hold a credential.
\<close>

definition Dial :: "'c res \<Rightarrow> int res \<Rightarrow> int \<Rightarrow> 'c res" where
  "Dial dial chain_id expectedChainID =
    (case dial of
       Inl _ \<Rightarrow> Inl (Err ''dial rpc: connection failed (see network diagnostics separately, url omitted for credential safety)'')
     | Inr client \<Rightarrow>
        (case chain_id of
           Inl _ \<Rightarrow> Inl (Err ''query chain id: request failed (url omitted for credential safety)'')
         | Inr gotChainID \<Rightarrow>
             if gotChainID \<noteq> expectedChainID then Inl (Err ''chain id mismatch -- refusing to proceed'')
             else Inr client))"

lemma SignTx_content:
  assumes "geth_ok g" "SignTx g w tx cid = Inr stx"
  shows "st_Tx stx = tx" "st_ChainID stx = cid"
  using assms by (auto simp: SignTx_def geth_ok_def)

text \<open>A client is only ever returned for an endpoint that reports the expected chain.\<close>

lemma Dial_Inr: "Dial dial chain_id expected = Inr c \<longleftrightarrow> dial = Inr c \<and> chain_id = Inr expected"
  by (auto simp: Dial_def split: sum.splits)

text \<open>No text of the underlying errors reaches the caller: they can be replaced without effect.\<close>

lemma Dial_no_leak: "Dial (Inl e) cid x = Dial (Inl e') cid x" "Dial (Inr c) (Inl e) x = Dial (Inr c) (Inl e') x"
  by (simp_all add: Dial_def)

end
