(* ===== verification/Go_Lib.thy ===== *)
theory Go_Lib
  imports Prelude
begin

text \<open>
  The parts of Go's standard library that the money and cursor code rests on: byte search,
  splitting, trimming and repetition of strings (package \<open>strings\<close>), and the decimal printing and
  parsing of \<open>math/big\<close> integers. A Go string is a list of bytes, here a \<open>string\<close>.
\<close>

section \<open>Strings\<close>

text \<open>\<open>strings.IndexByte\<close>: the first position of a byte; \<open>None\<close> stands for \<open>-1\<close>.\<close>

fun IndexByte :: "string \<Rightarrow> char \<Rightarrow> nat option" where
  "IndexByte [] c = None"
| "IndexByte (x # xs) c = (if x = c then Some 0 else map_option Suc (IndexByte xs c))"

text \<open>\<open>strings.Repeat\<close> of a one-byte string.\<close>

definition Repeat :: "char \<Rightarrow> nat \<Rightarrow> string" where
  "Repeat c n = replicate n c"

text \<open>\<open>strings.TrimRight\<close> with a one-byte cutset.\<close>

definition TrimRight :: "string \<Rightarrow> char \<Rightarrow> string" where
  "TrimRight s c = rev (dropWhile (\<lambda>x. x = c) (rev s))"

text \<open>\<open>strings.SplitN(s, sep, 2)\<close> with a one-byte separator: one part when it does not occur.\<close>

definition SplitN2 :: "string \<Rightarrow> char \<Rightarrow> string list" where
  "SplitN2 s c = (case IndexByte s c of None \<Rightarrow> [s] | Some i \<Rightarrow> [take i s, drop (Suc i) s])"

lemma IndexByte_None_iff: "IndexByte s c = None \<longleftrightarrow> c \<notin> set s"
  by (induction s) auto

lemma IndexByte_append:
  "c \<notin> set xs \<Longrightarrow> IndexByte (xs @ c # ys) c = Some (length xs)"
  by (induction xs) auto

lemma IndexByte_SomeD:
  "IndexByte s c = Some i \<Longrightarrow> s = take i s @ c # drop (Suc i) s \<and> c \<notin> set (take i s)"
proof (induction s arbitrary: i)
  case Nil
  then show ?case by simp
next
  case (Cons x xs)
  show ?case
  proof (cases "x = c")
    case True
    with Cons.prems show ?thesis by simp
  next
    case False
    with Cons.prems obtain j where "IndexByte xs c = Some j" "i = Suc j" by auto
    with Cons.IH False show ?thesis by auto
  qed
qed

lemma SplitN2_append: "c \<notin> set xs \<Longrightarrow> SplitN2 (xs @ c # ys) c = [xs, ys]"
  by (simp add: SplitN2_def IndexByte_append)

lemma SplitN2_length2: "length (SplitN2 s c) = 2 \<longleftrightarrow> c \<in> set s"
  by (auto simp: SplitN2_def IndexByte_None_iff split: option.splits
           dest: IndexByte_SomeD) (metis IndexByte_None_iff option.distinct(1))

lemma TrimRight_append_replicate:
  "\<exists>n. s = TrimRight s c @ replicate n c"
proof -
  have "rev s = takeWhile (\<lambda>x. x = c) (rev s) @ dropWhile (\<lambda>x. x = c) (rev s)" by simp
  moreover have "takeWhile (\<lambda>x. x = c) (rev s) = replicate (length (takeWhile (\<lambda>x. x = c) (rev s))) c"
    by (metis (mono_tags, lifting) replicate_length_same set_takeWhileD)
  ultimately have "s = rev (dropWhile (\<lambda>x. x = c) (rev s)) @ replicate (length (takeWhile (\<lambda>x. x = c) (rev s))) c"
    by (metis rev_append rev_replicate rev_rev_ident)
  then show ?thesis unfolding TrimRight_def by blast
qed

lemma set_TrimRight: "set (TrimRight s c) \<subseteq> set s"
  unfolding TrimRight_def by (auto dest: set_dropWhileD)

section \<open>Decimal digits\<close>

definition digit_char :: "nat \<Rightarrow> char" where
  "digit_char d = char_of (48 + d)"

definition is_digit :: "char \<Rightarrow> bool" where
  "is_digit c = (48 \<le> (of_char c :: nat) \<and> (of_char c :: nat) \<le> 57)"

definition digit_val :: "char \<Rightarrow> nat" where
  "digit_val c = of_char c - 48"

definition nat_of_digits :: "string \<Rightarrow> nat" where
  "nat_of_digits s = foldl (\<lambda>a c. 10 * a + digit_val c) 0 s"

fun digits_of :: "nat \<Rightarrow> string" where
  "digits_of n = (if n < 10 then [digit_char n] else digits_of (n div 10) @ [digit_char (n mod 10)])"

declare digits_of.simps [simp del]

text \<open>\<open>(*big.Int).String\<close> in base 10.\<close>

definition Int_String :: "int \<Rightarrow> string" where
  "Int_String n = (if n < 0 then CHR ''-'' # digits_of (nat (- n)) else digits_of (nat n))"

text \<open>
  \<open>(*big.Int).SetString(s, 10)\<close>: an optional sign, then one or more digits, nothing else;
  \<open>None\<close> is \<open>ok = false\<close>.
\<close>

definition parse_digits :: "string \<Rightarrow> nat option" where
  "parse_digits s = (if s \<noteq> [] \<and> list_all is_digit s then Some (nat_of_digits s) else None)"

definition SetString10 :: "string \<Rightarrow> int option" where
  "SetString10 s = (case s of
      [] \<Rightarrow> None
    | c # cs \<Rightarrow>
        if c = CHR ''-'' then map_option (\<lambda>n. - int n) (parse_digits cs)
        else if c = CHR ''+'' then map_option int (parse_digits cs)
        else map_option int (parse_digits s))"

lemma of_char_digit_char: "d < 10 \<Longrightarrow> (of_char (digit_char d) :: nat) = 48 + d"
  by (simp add: digit_char_def)

lemma digit_val_digit_char [simp]: "d < 10 \<Longrightarrow> digit_val (digit_char d) = d"
  by (simp add: digit_val_def of_char_digit_char)

lemma is_digit_digit_char [simp]: "d < 10 \<Longrightarrow> is_digit (digit_char d)"
  by (simp add: is_digit_def of_char_digit_char)

lemma digit_val_less: "is_digit c \<Longrightarrow> digit_val c < 10"
  by (auto simp: is_digit_def digit_val_def)

lemma is_digit_simps [simp]:
  "is_digit (CHR ''0'')" "\<not> is_digit (CHR ''.'')" "\<not> is_digit (CHR ''-'')" "\<not> is_digit (CHR ''+'')"
  "\<not> is_digit (CHR '','')"
  by (simp_all add: is_digit_def)

lemma digit_val_0 [simp]: "digit_val (CHR ''0'') = 0"
  by (simp add: digit_val_def)

lemma nat_of_digits_Nil [simp]: "nat_of_digits [] = 0"
  by (simp add: nat_of_digits_def)

lemma nat_of_digits_snoc [simp]: "nat_of_digits (s @ [c]) = 10 * nat_of_digits s + digit_val c"
  by (simp add: nat_of_digits_def)

lemma nat_of_digits_append:
  "nat_of_digits (s @ t) = nat_of_digits s * 10 ^ length t + nat_of_digits t"
  by (induction t rule: rev_induct) (simp_all add: algebra_simps flip: append_assoc)

lemma nat_of_digits_zeros [simp]: "nat_of_digits (replicate n (CHR ''0'')) = 0"
proof (induction n)
  case (Suc n)
  have "nat_of_digits (replicate n (CHR ''0'') @ [CHR ''0'']) = 0" using Suc by simp
  then show ?case by (simp add: replicate_append_same)
qed simp

lemma nat_of_digits_Cons:
  "nat_of_digits (c # t) = digit_val c * 10 ^ length t + nat_of_digits t"
  using nat_of_digits_append [of "[c]" t] by (simp add: nat_of_digits_def)

lemma nat_of_digits_less:
  "list_all is_digit s \<Longrightarrow> nat_of_digits s < 10 ^ length s"
proof (induction s rule: rev_induct)
  case (snoc c s)
  then have "nat_of_digits s < 10 ^ length s" "digit_val c < 10" by (auto simp: digit_val_less)
  then have "nat_of_digits s + 1 \<le> 10 ^ length s" "digit_val c \<le> 9" by auto
  then have "10 * nat_of_digits s + digit_val c < 10 * 10 ^ length s" by linarith
  then show ?case by simp
qed simp

lemma nat_of_digits_of [simp]: "nat_of_digits (digits_of n) = n"
proof (induction n rule: digits_of.induct)
  case (1 n)
  show ?case
  proof (cases "n < 10")
    case True
    then show ?thesis by (subst digits_of.simps) (simp add: nat_of_digits_def)
  next
    case False
    with "1.IH" show ?thesis by (subst digits_of.simps) simp
  qed
qed

lemma digits_of_nonempty [simp]: "digits_of n \<noteq> []"
  by (subst digits_of.simps) simp

lemma digits_of_digits [simp]: "list_all is_digit (digits_of n)"
proof (induction n rule: digits_of.induct)
  case (1 n)
  then show ?case by (subst digits_of.simps) simp
qed

lemma parse_digits_of [simp]: "parse_digits (digits_of n) = Some n"
  by (simp add: parse_digits_def)

lemma parse_digits_SomeD:
  "parse_digits s = Some n \<Longrightarrow> s \<noteq> [] \<and> list_all is_digit s \<and> n = nat_of_digits s"
  by (auto simp: parse_digits_def split: if_splits)

lemma SetString10_digits:
  "s \<noteq> [] \<Longrightarrow> list_all is_digit s \<Longrightarrow> SetString10 s = Some (int (nat_of_digits s))"
  by (cases s) (auto simp: SetString10_def parse_digits_def)

lemma SetString10_minus:
  "s \<noteq> [] \<Longrightarrow> list_all is_digit s \<Longrightarrow> SetString10 (CHR ''-'' # s) = Some (- int (nat_of_digits s))"
  by (auto simp: SetString10_def parse_digits_def)

lemma SetString10_Int_String [simp]: "SetString10 (Int_String n) = Some n"
  by (cases "n < 0") (auto simp: Int_String_def SetString10_digits SetString10_minus)

end
