(* ===== verification/Money.thy ===== *)
theory Money
  imports Go_Lib Complex_Main
begin

text \<open>
  Package \<open>money\<close> (\<open>internal/money/convert.go\<close>): exact conversion between a decimal amount string
  and the token's integer base units. The results show that the conversion is exact, that an
  amount with too many fractional digits is refused rather than truncated, and that converting
  base units to a decimal string and back is the identity on every integer.
\<close>

definition DecimalToBaseUnits :: "string \<Rightarrow> 8 word \<Rightarrow> int res" where
  "DecimalToBaseUnits amount decimals =
    (let (intPart, fracPart) =
           (case IndexByte amount (CHR ''.'') of
              Some idx \<Rightarrow> (take idx amount, drop (idx + 1) amount)
            | None \<Rightarrow> (amount, []))
     in if length fracPart > unat decimals
        then Inl (Err ''amount exceeds the token precision -- refusing to truncate'')
        else let padded = fracPart @ Repeat (CHR ''0'') (unat decimals - length fracPart);
                 digits = intPart @ padded
             in case SetString10 digits of
                  None \<Rightarrow> Inl (Err ''amount could not be parsed as an integer after base-unit conversion'')
                | Some result \<Rightarrow> Inr result)"

text \<open>The loop \<open>for len(s) <= int(decimals) { s = "0" + s }\<close>.\<close>

function pad_zeros :: "nat \<Rightarrow> string \<Rightarrow> string" where
  "pad_zeros d s = (if length s \<le> d then pad_zeros d (CHR ''0'' # s) else s)"
  by pat_completeness auto
termination
  by (relation "measure (\<lambda>(d, s). Suc d - length s)") auto

declare pad_zeros.simps [simp del]

definition BaseUnitsToDecimal :: "int \<Rightarrow> 8 word \<Rightarrow> string" where
  "BaseUnitsToDecimal amount decimals =
    (let neg = amount < 0;
         s = pad_zeros (unat decimals) (Int_String \<bar>amount\<bar>);
         splitAt = length s - unat decimals;
         intPart = take splitAt s;
         fracPart = TrimRight (drop splitAt s) (CHR ''0'');
         result = (if fracPart \<noteq> [] then intPart @ CHR ''.'' # fracPart else intPart)
     in if neg \<and> result \<noteq> ''0'' then CHR ''-'' # result else result)"


section \<open>Reading a decimal string\<close>

text \<open>
  The value a decimal string denotes, as a rational: the reference the conversion is compared
  with. \<open>valid_amount\<close> is the form the API accepts (digits, optionally a point and digits).
\<close>

definition int_part :: "string \<Rightarrow> string" where
  "int_part s = (case IndexByte s (CHR ''.'') of Some i \<Rightarrow> take i s | None \<Rightarrow> s)"

definition frac_part :: "string \<Rightarrow> string" where
  "frac_part s = (case IndexByte s (CHR ''.'') of Some i \<Rightarrow> drop (i + 1) s | None \<Rightarrow> [])"

definition valid_amount :: "string \<Rightarrow> bool" where
  "valid_amount s \<longleftrightarrow> int_part s \<noteq> [] \<and> list_all is_digit (int_part s) \<and> list_all is_digit (frac_part s)"

definition decimal_value :: "string \<Rightarrow> rat" where
  "decimal_value s = of_nat (nat_of_digits (int_part s)) +
     of_nat (nat_of_digits (frac_part s)) / 10 ^ length (frac_part s)"

lemma DecimalToBaseUnits_parts:
  "DecimalToBaseUnits s d =
    (if length (frac_part s) > unat d
     then Inl (Err ''amount exceeds the token precision -- refusing to truncate'')
     else case SetString10 (int_part s @ frac_part s @ Repeat (CHR ''0'') (unat d - length (frac_part s))) of
            None \<Rightarrow> Inl (Err ''amount could not be parsed as an integer after base-unit conversion'')
          | Some n \<Rightarrow> Inr n)"
  by (cases "IndexByte s (CHR ''.'')")
     (simp_all add: DecimalToBaseUnits_def int_part_def frac_part_def Let_def)

lemma parts_append:
  assumes "CHR ''.'' \<notin> set ip"
  shows "int_part (ip @ CHR ''.'' # fp) = ip" "frac_part (ip @ CHR ''.'' # fp) = fp"
  using assms by (simp_all add: int_part_def frac_part_def IndexByte_append)

lemma parts_no_point:
  assumes "CHR ''.'' \<notin> set ip"
  shows "int_part ip = ip" "frac_part ip = []"
proof -
  from assms have "IndexByte ip (CHR ''.'') = None" by (simp add: IndexByte_None_iff)
  then show "int_part ip = ip" "frac_part ip = []" by (simp_all add: int_part_def frac_part_def)
qed

lemma DecimalToBaseUnits_valid:
  assumes "valid_amount s" "length (frac_part s) \<le> unat d"
  shows "DecimalToBaseUnits s d =
    Inr (int (nat_of_digits (int_part s) * 10 ^ unat d +
              nat_of_digits (frac_part s) * 10 ^ (unat d - length (frac_part s))))"
proof -
  let ?k = "unat d - length (frac_part s)"
  let ?ds = "int_part s @ frac_part s @ Repeat (CHR ''0'') ?k"
  from assms have "?ds \<noteq> []" "list_all is_digit ?ds"
    by (auto simp: valid_amount_def Repeat_def list_all_iff)
  then have "SetString10 ?ds = Some (int (nat_of_digits ?ds))" by (rule SetString10_digits)
  moreover have "nat_of_digits ?ds =
      nat_of_digits (int_part s) * 10 ^ (length (frac_part s) + ?k) + nat_of_digits (frac_part s) * 10 ^ ?k"
    by (simp add: nat_of_digits_append Repeat_def)
  moreover have "length (frac_part s) + ?k = unat d" using assms(2) by simp
  ultimately show ?thesis using assms(2) by (simp add: DecimalToBaseUnits_parts)
qed

section \<open>Printing base units\<close>

lemma pad_zeros_eq: "pad_zeros d s = replicate (Suc d - length s) (CHR ''0'') @ s"
proof (induction d s rule: pad_zeros.induct)
  case (1 d s)
  show ?case
  proof (cases "length s \<le> d")
    case True
    then have "Suc d - length s = Suc (Suc d - length (CHR ''0'' # s))" by simp
    moreover have "pad_zeros d s = pad_zeros d (CHR ''0'' # s)"
      using True by (simp add: pad_zeros.simps [of d s])
    ultimately show ?thesis using "1.IH" [OF True]
      by (simp add: replicate_app_Cons_same)
  next
    case False
    then show ?thesis by (simp add: pad_zeros.simps [of d s])
  qed
qed

lemma pad_zeros_digits: "list_all is_digit s \<Longrightarrow> list_all is_digit (pad_zeros d s)"
  by (auto simp: pad_zeros_eq list_all_iff)

lemma nat_of_digits_pad_zeros: "nat_of_digits (pad_zeros d s) = nat_of_digits s"
  by (simp add: pad_zeros_eq nat_of_digits_append)

lemma length_pad_zeros: "length (pad_zeros d s) = max (length s) (Suc d)"
  by (simp add: pad_zeros_eq)

text \<open>The unsigned part of the result, and how it reads back.\<close>

definition decimal_body :: "nat \<Rightarrow> 8 word \<Rightarrow> string" where
  "decimal_body n d =
    (let s = pad_zeros (unat d) (digits_of n);
         k = length s - unat d;
         f = TrimRight (drop k s) (CHR ''0'')
     in if f \<noteq> [] then take k s @ CHR ''.'' # f else take k s)"

lemma BaseUnitsToDecimal_body:
  "BaseUnitsToDecimal n d =
    (if n < 0 \<and> decimal_body (nat \<bar>n\<bar>) d \<noteq> ''0''
     then CHR ''-'' # decimal_body (nat \<bar>n\<bar>) d else decimal_body (nat \<bar>n\<bar>) d)"
proof -
  have "Int_String \<bar>n\<bar> = digits_of (nat \<bar>n\<bar>)" by (simp add: Int_String_def)
  then show ?thesis by (simp only: BaseUnitsToDecimal_def decimal_body_def Let_def)
qed

lemma decimal_body_reads_back:
  fixes d :: "8 word"
  obtains ip fp where
    "int_part (decimal_body n d) = ip" "frac_part (decimal_body n d) = fp"
    "ip \<noteq> []" "list_all is_digit ip" "list_all is_digit fp" "length fp \<le> unat d"
    "nat_of_digits (ip @ fp @ Repeat (CHR ''0'') (unat d - length fp)) = n"
    "hd (decimal_body n d) \<in> set ip" "int_part (CHR ''-'' # decimal_body n d) = CHR ''-'' # ip"
    "frac_part (CHR ''-'' # decimal_body n d) = fp"
proof -
  define s where "s = pad_zeros (unat d) (digits_of n)"
  define k where "k = length s - unat d"
  define ip where "ip = take k s"
  define fp where "fp = TrimRight (drop k s) (CHR ''0'')"
  have len: "length s > unat d" by (simp add: s_def length_pad_zeros)
  have dig: "list_all is_digit s" by (simp add: s_def pad_zeros_digits)
  have ip: "ip \<noteq> []" using len by (auto simp: ip_def k_def)
  have ipd: "list_all is_digit ip" using dig by (auto simp: ip_def list_all_iff dest: in_set_takeD)
  have fpd: "list_all is_digit fp" using dig set_TrimRight [of "drop k s" "CHR ''0''"]
    by (auto simp: fp_def list_all_iff dest: in_set_dropD)
  obtain m where m: "drop k s = fp @ replicate m (CHR ''0'')"
    using TrimRight_append_replicate unfolding fp_def by blast
  have "length (drop k s) = unat d" using len by (simp add: k_def)
  with m have mlen: "length fp + m = unat d" by (metis length_append length_replicate)
  have pt: "CHR ''.'' \<notin> set ip" using ipd by (auto simp: list_all_iff)
  have pt': "CHR ''.'' \<notin> set (CHR ''-'' # ip)" using pt by auto
  have body: "decimal_body n d = (if fp \<noteq> [] then ip @ CHR ''.'' # fp else ip)"
    by (simp add: decimal_body_def Let_def s_def k_def ip_def fp_def)
  have "int_part (decimal_body n d) = ip" "frac_part (decimal_body n d) = fp"
    using pt by (auto simp: body parts_append parts_no_point)
  moreover have "int_part (CHR ''-'' # decimal_body n d) = CHR ''-'' # ip"
      "frac_part (CHR ''-'' # decimal_body n d) = fp"
    using parts_append [OF pt', of fp] parts_no_point [OF pt'] by (auto simp: body)
  moreover have "nat_of_digits (ip @ fp @ Repeat (CHR ''0'') (unat d - length fp)) = n"
  proof -
    have "ip @ fp @ Repeat (CHR ''0'') (unat d - length fp) = s"
      using m mlen by (simp add: Repeat_def ip_def flip: m) (metis add_diff_cancel_left' append_take_drop_id m)
    then show ?thesis by (simp add: s_def nat_of_digits_pad_zeros)
  qed
  moreover have "hd (decimal_body n d) \<in> set ip" using ip by (simp add: body)
  moreover have "length fp \<le> unat d" using mlen by simp
  ultimately show ?thesis using that ip ipd fpd by blast
qed

section \<open>Properties\<close>

lemma DecimalToBaseUnits_value:
  assumes "valid_amount s" "length (frac_part s) \<le> unat d"
  shows "\<exists>n. DecimalToBaseUnits s d = Inr n \<and> of_int n = decimal_value s * 10 ^ unat d"
proof -
  let ?i = "nat_of_digits (int_part s)" and ?f = "nat_of_digits (frac_part s)"
  let ?l = "length (frac_part s)"
  have "(10::rat) ^ unat d = 10 ^ ?l * 10 ^ (unat d - ?l)" using assms(2) by (simp flip: power_add)
  then have "decimal_value s * 10 ^ unat d = of_nat ?i * 10 ^ unat d + of_nat ?f * 10 ^ (unat d - ?l)"
    by (simp add: decimal_value_def field_simps)
  then show ?thesis by (simp add: DecimalToBaseUnits_valid [OF assms])
qed

text \<open>
  C31. The conversion of a valid amount to base units is exact: the result is the amount times
  \<open>10 ^ decimals\<close> as a rational number, with no rounding, and it is refused exactly when the amount
  has more fractional digits than the token.
\<close>

theorem decimal_to_base_units_exact:
  assumes "valid_amount s"
  shows "if unat d < length (frac_part s)
    then DecimalToBaseUnits s d = Inl (Err ''amount exceeds the token precision -- refusing to truncate'')
    else \<exists>n. DecimalToBaseUnits s d = Inr n \<and> of_int n = decimal_value s * 10 ^ unat d"
  using DecimalToBaseUnits_value [OF assms, of d] by (simp add: DecimalToBaseUnits_parts)

theorem decimal_to_base_units_exact_witness:
  "\<exists>n. DecimalToBaseUnits ''1.05'' 6 = Inr n \<and> of_int n = decimal_value ''1.05'' * 10 ^ 6"
proof -
  have "valid_amount ''1.05''" "length (frac_part ''1.05'') = 2" by (code_simp, code_simp)
  then show ?thesis using decimal_to_base_units_exact [of "''1.05''" 6] by simp
qed

text \<open>
  C32. Printing base units as a decimal string and converting the string back is the identity, for
  every integer, negative ones included, and every number of decimals.
\<close>

theorem base_units_round_trip: "DecimalToBaseUnits (BaseUnitsToDecimal n d) d = Inr n"
proof -
  define m where "m = nat \<bar>n\<bar>"
  let ?b = "decimal_body m d"
  obtain ip fp where b: "int_part ?b = ip" "frac_part ?b = fp"
      "ip \<noteq> []" "list_all is_digit ip" "list_all is_digit fp" "length fp \<le> unat d"
      "nat_of_digits (ip @ fp @ Repeat (CHR ''0'') (unat d - length fp)) = m"
      "int_part (CHR ''-'' # ?b) = CHR ''-'' # ip" "frac_part (CHR ''-'' # ?b) = fp"
    by (rule decimal_body_reads_back [of m d])
  let ?ds = "ip @ fp @ Repeat (CHR ''0'') (unat d - length fp)"
  have ds: "?ds \<noteq> []" "list_all is_digit ?ds" using b by (auto simp: Repeat_def list_all_iff)
  have pos: "DecimalToBaseUnits ?b d = Inr (int m)"
    using b SetString10_digits [OF ds] by (simp add: DecimalToBaseUnits_parts)
  have neg: "DecimalToBaseUnits (CHR ''-'' # ?b) d = Inr (- int m)"
    using b SetString10_minus [OF ds] by (simp add: DecimalToBaseUnits_parts)
  have zero: "?b = ''0'' \<Longrightarrow> m = 0"
    using pos by (auto simp: DecimalToBaseUnits_parts parts_no_point SetString10_digits Repeat_def
        nat_of_digits_append list_all_iff nat_of_digits_Cons)
  have "BaseUnitsToDecimal n d = (if n < 0 \<and> ?b \<noteq> ''0'' then CHR ''-'' # ?b else ?b)"
    by (simp only: BaseUnitsToDecimal_body m_def)
  moreover have "n < 0 \<Longrightarrow> - int m = n" "\<not> n < 0 \<Longrightarrow> int m = n" by (simp_all add: m_def)
  ultimately show ?thesis using pos neg zero by (cases "n < 0") (auto split: if_splits)
qed

end
