(* ===== verification/Pg_Types.thy ===== *)
theory Pg_Types
  imports Money
begin

text \<open>
  The text forms of the two PostgreSQL column types whose conversion the Go code depends on.
  \<^item> \<open>UUID\<close>: input accepts any letter case, optional hyphens after every group of four digits and
    optional braces, output is the canonical lower-case form. Anything else is SQLSTATE 22P02.
  \<^item> \<open>NUMERIC(38, s)\<close>: a column value is the integer it holds in units of \<open>10^-s\<close>. Input is a plain
    decimal (the only form the callers pass: the API admits digits and one point, and the quotes
    are printed by \<open>big.Int\<close>), rounded half away from zero at \<open>s\<close> fractional digits; output prints
    exactly \<open>s\<close> fractional digits.
\<close>

unbundle bit_operations_syntax

section \<open>UUID\<close>

definition hex_char :: "nat \<Rightarrow> char" where
  "hex_char d = (if d < 10 then char_of (48 + d) else char_of (87 + d))"

definition is_hex :: "char \<Rightarrow> bool" where
  "is_hex c = (let n = of_char c :: nat in
     48 \<le> n \<and> n \<le> 57 \<or> 65 \<le> n \<and> n \<le> 70 \<or> 97 \<le> n \<and> n \<le> 102)"

definition lower_hex :: "char \<Rightarrow> char" where
  "lower_hex c = (let n = of_char c :: nat in if 65 \<le> n \<and> n \<le> 70 then char_of (n + 32) else c)"

definition hyphenate :: "string \<Rightarrow> string" where
  "hyphenate h = take 8 h @ CHR ''-'' # take 4 (drop 8 h) @ CHR ''-'' # take 4 (drop 12 h) @
     CHR ''-'' # take 4 (drop 16 h) @ CHR ''-'' # drop 20 h"

definition uuid_text :: "128 word \<Rightarrow> string" where
  "uuid_text u = hyphenate (map (\<lambda>k. hex_char (unat (drop_bit (4 * k) u AND 15))) (rev [0..<32]))"

text \<open>The loop over the 16 bytes; \<open>n\<close> bytes are left after the current one.\<close>

primrec uuid_bytes :: "nat \<Rightarrow> string \<Rightarrow> string option" where
  "uuid_bytes 0 s = (if s = [] then Some [] else None)"
| "uuid_bytes (Suc n) s =
    (case s of
       a # b # rest \<Rightarrow>
         if is_hex a \<and> is_hex b
         then map_option (\<lambda>t. lower_hex a # lower_hex b # t)
                (uuid_bytes n (if rest \<noteq> [] \<and> hd rest = CHR ''-'' \<and> even n \<and> n > 0 then tl rest else rest))
         else None
     | _ \<Rightarrow> None)"

definition uuid_in :: "string \<Rightarrow> string option" where
  "uuid_in s = map_option hyphenate
    (if s \<noteq> [] \<and> hd s = CHR ''{''
     then if tl s \<noteq> [] \<and> last s = CHR ''}'' then uuid_bytes 16 (butlast (tl s)) else None
     else uuid_bytes 16 s)"

lemma is_hex_hex_char: "d < 16 \<Longrightarrow> is_hex (hex_char d)"
  by (auto simp: is_hex_def hex_char_def Let_def)

lemma lower_hex_hex_char: "d < 16 \<Longrightarrow> lower_hex (hex_char d) = hex_char d"
  by (auto simp: lower_hex_def hex_char_def Let_def)

lemma hyphen_not_hex [simp]: "\<not> is_hex (CHR ''-'')" "\<not> is_hex (CHR ''{'')"
  by (simp_all add: is_hex_def)

lemma uuid_bytes_step:
  assumes "is_hex a" "is_hex b" "lower_hex a = a" "lower_hex b = b"
  shows "uuid_bytes (Suc n) (a # b # rest) =
    map_option (\<lambda>t. a # b # t)
      (uuid_bytes n (if rest \<noteq> [] \<and> hd rest = CHR ''-'' \<and> even n \<and> n > 0 then tl rest else rest))"
  using assms by simp

lemma length_8_split:
  assumes "length h = 32"
  obtains g1 g2 g3 g4 g5 where "h = g1 @ g2 @ g3 @ g4 @ g5" "length g1 = 8" "length g2 = 4"
    "length g3 = 4" "length g4 = 4" "length g5 = 12"
proof
  have "drop 20 h = drop 4 (drop 16 h)" "drop 16 h = drop 4 (drop 12 h)" "drop 12 h = drop 4 (drop 8 h)"
    by simp_all
  then show "h = take 8 h @ take 4 (drop 8 h) @ take 4 (drop 12 h) @ take 4 (drop 16 h) @ drop 20 h"
    by (metis append_take_drop_id)
qed (use assms in simp_all)

lemma uuid_bytes_pairs:
  "list_all (\<lambda>c. is_hex c \<and> lower_hex c = c) g \<Longrightarrow> length g = 2 * m \<Longrightarrow> m > 0 \<Longrightarrow>
   uuid_bytes (n + m) (g @ s) =
     map_option (\<lambda>t. g @ t)
       (uuid_bytes n (if s \<noteq> [] \<and> hd s = CHR ''-'' \<and> even n \<and> n > 0 then tl s else s))"
proof (induction m arbitrary: g)
  case 0
  then show ?case by simp
next
  case (Suc m)
  then obtain a b g' where g: "g = a # b # g'" "length g' = 2 * m"
    by (cases g; cases "tl g") auto
  have hex: "is_hex a" "is_hex b" "lower_hex a = a" "lower_hex b = b" using Suc.prems(1) g by auto
  show ?case
  proof (cases m)
    case 0
    then show ?thesis using g hex by (simp add: uuid_bytes_step)
  next
    case (Suc k)
    then obtain c g'' where g': "g' = c # g''" using g by (cases g') auto
    then have c: "c \<noteq> CHR ''-''" using Suc.prems(1) g by auto
    have "uuid_bytes (n + m) (g' @ s) = map_option (\<lambda>t. g' @ t)
       (uuid_bytes n (if s \<noteq> [] \<and> hd s = CHR ''-'' \<and> even n \<and> n > 0 then tl s else s))"
      using Suc.prems(1) g Suc by (intro Suc.IH) auto
    then show ?thesis using g hex g' c Suc by (simp add: uuid_bytes_step option.map_comp comp_def)
  qed
qed

lemma uuid_bytes_hyphenated:
  assumes "list_all (\<lambda>c. is_hex c \<and> lower_hex c = c) h" "length h = 32"
  shows "uuid_bytes 16 (hyphenate h) = Some h"
proof -
  obtain g1 g2 g3 g4 g5 where h: "h = g1 @ g2 @ g3 @ g4 @ g5" and
    l: "length g1 = 8" "length g2 = 4" "length g3 = 4" "length g4 = 4" "length g5 = 12"
    using assms(2) by (rule length_8_split)
  have a: "list_all (\<lambda>c. is_hex c \<and> lower_hex c = c) g" if "g \<in> {g1, g2, g3, g4, g5}" for g
    using assms(1) that by (auto simp: h)
  have hy: "hyphenate h = g1 @ CHR ''-'' # g2 @ CHR ''-'' # g3 @ CHR ''-'' # g4 @ CHR ''-'' # g5"
    using l by (simp add: hyphenate_def h)
  have 5: "uuid_bytes (0 + 6) (g5 @ []) = Some g5"
    using uuid_bytes_pairs [of g5 6 0 "[]"] a l by simp
  have 4: "uuid_bytes (6 + 2) (g4 @ CHR ''-'' # g5) = Some (g4 @ g5)"
    using uuid_bytes_pairs [of g4 2 6 "CHR ''-'' # g5"] a l 5 by simp
  have 3: "uuid_bytes (8 + 2) (g3 @ CHR ''-'' # g4 @ CHR ''-'' # g5) = Some (g3 @ g4 @ g5)"
    using uuid_bytes_pairs [of g3 2 8 "CHR ''-'' # g4 @ CHR ''-'' # g5"] a l 4 by simp
  have 2: "uuid_bytes (10 + 2) (g2 @ CHR ''-'' # g3 @ CHR ''-'' # g4 @ CHR ''-'' # g5) = Some (g2 @ g3 @ g4 @ g5)"
    using uuid_bytes_pairs [of g2 2 10 "CHR ''-'' # g3 @ CHR ''-'' # g4 @ CHR ''-'' # g5"] a l 3 by simp
  show ?thesis
    using uuid_bytes_pairs [of g1 4 12 "CHR ''-'' # g2 @ CHR ''-'' # g3 @ CHR ''-'' # g4 @ CHR ''-'' # g5"] a l 2
    unfolding hy by (simp add: h)
qed

text \<open>A generated identifier reads back as itself.\<close>

lemma uuid_in_uuid_text [simp]: "uuid_in (uuid_text u) = Some (uuid_text u)"
proof -
  define h where "h = map (\<lambda>k. hex_char (unat (drop_bit (4 * k) u AND 15))) (rev [0..<32])"
  have "unat (w AND 15) < 16" for w :: "128 word"
  proof -
    have "w AND 15 = take_bit 4 w" by (simp add: take_bit_eq_mask mask_eq_exp_minus_1)
    moreover have "unat (take_bit 4 w) = take_bit 4 (unat w)" by (rule unsigned_take_bit_eq)
    moreover have "take_bit 4 (unat w) < 2 ^ 4" by (rule take_bit_nat_less_exp)
    ultimately show ?thesis by simp
  qed
  then have "list_all (\<lambda>c. is_hex c \<and> lower_hex c = c) h"
    by (auto simp: h_def list_all_iff is_hex_hex_char lower_hex_hex_char)
  moreover have "length h = 32" by (simp add: h_def)
  ultimately have "uuid_bytes 16 (hyphenate h) = Some h" by (rule uuid_bytes_hyphenated)
  moreover have "hd (hyphenate h) \<noteq> CHR ''{''"
  proof -
    obtain c cs where "h = c # cs" using \<open>length h = 32\<close> by (cases h) auto
    with \<open>list_all _ h\<close> show ?thesis by (auto simp: hyphenate_def)
  qed
  ultimately show ?thesis by (simp add: uuid_in_def uuid_text_def h_def [symmetric])
qed

text \<open>Different identifiers have different texts.\<close>

lemma hyphenate_inj:
  assumes "hyphenate h = hyphenate h'" "length h = 32" "length h' = 32"
  shows "h = h'"
proof -
  have split: "g = take 8 g @ take 4 (drop 8 g) @ take 4 (drop 12 g) @ take 4 (drop 16 g) @ drop 20 g" for g :: string
    using append_take_drop_id [of 8 g] append_take_drop_id [of 4 "drop 8 g"] append_take_drop_id [of 4 "drop 12 g"]
      append_take_drop_id [of 4 "drop 16 g"] by simp
  from assms have "take 8 h = take 8 h'" "take 4 (drop 8 h) = take 4 (drop 8 h')" "take 4 (drop 12 h) = take 4 (drop 12 h')"
    "take 4 (drop 16 h) = take 4 (drop 16 h')" "drop 20 h = drop 20 h'"
    by (simp_all add: hyphenate_def append_eq_append_conv)
  with split [of h] split [of h'] show ?thesis by simp
qed

lemma hex_char_inj: "a < 16 \<Longrightarrow> b < 16 \<Longrightarrow> hex_char a = hex_char b \<Longrightarrow> a = b"
  by (auto simp: hex_char_def split: if_splits dest!: arg_cong [of "char_of _" _ "of_char :: char \<Rightarrow> nat"])

lemma nibble_less: "unat ((w :: 128 word) AND 15) < 16"
proof -
  have "w AND 15 = take_bit 4 w" by (simp add: take_bit_eq_mask mask_eq_exp_minus_1)
  then show ?thesis by (simp add: unsigned_take_bit_eq take_bit_nat_less_exp [of 4, simplified])
qed

lemma nibbles_eq:
  fixes u v :: "128 word"
  assumes "\<And>k. k < 32 \<Longrightarrow> drop_bit (4 * k) u AND 15 = drop_bit (4 * k) v AND 15"
  shows "u = v"
proof (rule bit_word_eqI)
  fix n assume n: "n < LENGTH(128)"
  have m: "bit (15 :: 128 word) j \<longleftrightarrow> j < 4" for j
  proof -
    have "(15 :: 128 word) = mask 4" by (simp add: mask_eq_exp_minus_1)
    moreover have "bit (mask 4 :: 128 word) j \<longleftrightarrow> j < 4" by (auto simp only: bit_mask_iff possible_bit_word len_of_numeral_defs)
    ultimately show ?thesis by (simp only:)
  qed
  have "bit (drop_bit (4 * (n div 4)) u AND 15) (n mod 4) = bit (drop_bit (4 * (n div 4)) v AND 15) (n mod 4)"
    using assms [of "n div 4"] n by simp
  then show "bit u n = bit v n" unfolding bit_and_iff m by (simp add: bit_drop_bit_eq)
qed

lemma uuid_text_inj: "uuid_text u = uuid_text v \<Longrightarrow> u = v"
proof (rule nibbles_eq)
  fix k :: nat assume eq: "uuid_text u = uuid_text v" and k: "k < 32"
  let ?h = "\<lambda>u :: 128 word. map (\<lambda>k. hex_char (unat (drop_bit (4 * k) u AND 15))) (rev [0..<32])"
  have "?h u = ?h v" using hyphenate_inj [of "?h u" "?h v"] eq by (simp add: uuid_text_def)
  with k have "hex_char (unat (drop_bit (4 * k) u AND 15)) = hex_char (unat (drop_bit (4 * k) v AND 15))"
    by (simp add: map_eq_conv)
  then have "unat (drop_bit (4 * k) u AND 15) = unat (drop_bit (4 * k) v AND 15)"
    by (rule hex_char_inj [OF nibble_less nibble_less])
  then show "drop_bit (4 * k) u AND 15 = drop_bit (4 * k) v AND 15" by (simp only: word_unat_eq_iff)
qed
section \<open>NUMERIC\<close>

definition numeric_magnitude :: "nat \<Rightarrow> string \<Rightarrow> nat option" where
  "numeric_magnitude sc s =
    (let i = int_part s; f = frac_part s in
     if list_all is_digit i \<and> list_all is_digit f \<and> i @ f \<noteq> []
     then Some (nat_of_digits (i @ take sc (f @ replicate sc (CHR ''0''))) +
                (if sc < length f \<and> 5 \<le> digit_val (f ! sc) then 1 else 0))
     else None)"

definition numeric_in :: "nat \<Rightarrow> string \<Rightarrow> int option" where
  "numeric_in sc s =
    (if s \<noteq> [] \<and> hd s = CHR ''-'' then map_option (\<lambda>n. - int n) (numeric_magnitude sc (tl s))
     else if s \<noteq> [] \<and> hd s = CHR ''+'' then map_option int (numeric_magnitude sc (tl s))
     else map_option int (numeric_magnitude sc s))"

text \<open>38 digits of precision in all.\<close>

definition numeric_fits :: "int \<Rightarrow> bool" where
  "numeric_fits n \<longleftrightarrow> \<bar>n\<bar> < 10 ^ 38"

definition numeric_text :: "nat \<Rightarrow> int \<Rightarrow> string" where
  "numeric_text sc n =
    (let s = pad_zeros sc (digits_of (nat \<bar>n\<bar>)); k = length s - sc;
         body = (if sc = 0 then s else take k s @ CHR ''.'' # drop k s)
     in if n < 0 then CHR ''-'' # body else body)"

lemma take_pad: "take n (f @ replicate n c) = take n f @ replicate (n - length f) c"
  by (simp add: min_def)

text \<open>An amount the API admits is stored without loss, in base units.\<close>

lemma numeric_in_valid:
  assumes "valid_amount s" "length (frac_part s) \<le> unat d"
  obtains n where "numeric_in (unat d) s = Some n" "DecimalToBaseUnits s d = Inr n" "0 \<le> n"
proof -
  let ?i = "int_part s" and ?f = "frac_part s"
  have v: "?i \<noteq> []" "list_all is_digit ?i" "list_all is_digit ?f"
    using assms(1) by (auto simp: valid_amount_def)
  obtain c cs where s: "s = c # cs" and c: "is_digit c"
  proof (cases s)
    case Nil
    with v show ?thesis by (simp add: int_part_def)
  next
    case (Cons c cs)
    with v show ?thesis using that by (cases "c = CHR ''.''") (auto simp: int_part_def split: option.splits)
  qed
  then have sgn: "c \<noteq> CHR ''-''" "c \<noteq> CHR ''+''" by auto
  have "take (unat d) (?f @ replicate (unat d) (CHR ''0'')) = ?f @ Repeat (CHR ''0'') (unat d - length ?f)"
    using assms(2) by (simp add: take_pad Repeat_def)
  moreover define ds where "ds = ?i @ ?f @ Repeat (CHR ''0'') (unat d - length ?f)"
  moreover have "ds \<noteq> []" "list_all is_digit ds" using v by (auto simp: ds_def Repeat_def list_all_iff)
  ultimately have "numeric_in (unat d) s = Some (int (nat_of_digits ds))"
      "DecimalToBaseUnits s d = Inr (int (nat_of_digits ds))"
    using v sgn assms(2) s
    by (auto simp: numeric_in_def numeric_magnitude_def Let_def DecimalToBaseUnits_parts SetString10_digits
             simp flip: ds_def)
  then show ?thesis using that by simp
qed

text \<open>Reading the column as text and converting it gives the stored base units again.\<close>

lemma DecimalToBaseUnits_numeric_text:
  assumes "0 \<le> n" "0 < unat d"
  shows "DecimalToBaseUnits (numeric_text (unat d) n) d = Inr n"
proof -
  define s where "s = pad_zeros (unat d) (digits_of (nat n))"
  define k where "k = length s - unat d"
  have len: "unat d < length s" by (simp add: s_def length_pad_zeros)
  have dig: "list_all is_digit s" by (simp add: s_def pad_zeros_digits)
  have "CHR ''.'' \<notin> set s" using dig by (auto simp: list_all_iff)
  then have "CHR ''.'' \<notin> set (take k s)" by (auto dest: in_set_takeD)
  then have parts: "int_part (numeric_text (unat d) n) = take k s" "frac_part (numeric_text (unat d) n) = drop k s"
    using assms by (simp_all add: numeric_text_def Let_def parts_append flip: s_def k_def)
  have "s \<noteq> []" using len by auto
  then have "SetString10 s = Some n"
    using dig assms(1) by (simp add: SetString10_digits s_def nat_of_digits_pad_zeros)
  moreover have "length (drop k s) = unat d" using len by (simp add: k_def)
  ultimately show ?thesis by (simp add: DecimalToBaseUnits_parts parts Repeat_def)
qed

text \<open>The same for a whole-number column and \<open>big.Int\<close> printing and parsing.\<close>

lemma numeric_in_Int_String [simp]: "numeric_in 0 (Int_String n) = Some n"
proof -
  have pt: "CHR ''.'' \<notin> set (digits_of m)" for m
    using digits_of_digits [of m] by (auto simp: list_all_iff)
  have hd: "is_digit (hd (digits_of m))" for m
    using digits_of_digits [of m] by (cases "digits_of m") auto
  have "numeric_magnitude 0 (digits_of m) = Some m" for m
    using parts_no_point [OF pt] by (simp add: numeric_magnitude_def)
  then show ?thesis using hd [of "nat n"] by (auto simp: numeric_in_def Int_String_def)
qed

lemma numeric_text_0: "numeric_text 0 n = Int_String n"
proof -
  have "pad_zeros 0 (digits_of m) = digits_of m" for m
    using digits_of_nonempty [of m] by (cases "digits_of m") (auto simp: pad_zeros_eq)
  then show ?thesis by (simp add: numeric_text_def Int_String_def Let_def)
qed

end
