(* ===== verification/Process.thy ===== *)
theory Process
  imports Main
begin

text \<open>
  Concurrent Go code as resumptions. The API server, the worker goroutines and the reconcilers
  of several worker processes share PostgreSQL, Kafka and the chain, and interleave between any
  two of their calls. A process is a tree of atomic actions on the shared world:
  \<^item> \<open>Done a\<close> has returned \<open>a\<close>;
  \<^item> \<open>Act u p\<close> changes the world by \<open>u\<close>, with no answer from outside (a metrics update), and goes on;
  \<^item> \<open>Ask u c\<close> is one call answered by the environment: the answer \<open>i\<close> (clock, database fault, reply
    of a remote service) is arbitrary, the world changes by \<open>u i\<close>, and \<open>c i w\<close> goes on.
  Every process is a well-founded tree, so a handler always ends after finitely many calls.

  \<open>run\<close> executes one process alone, against a list of answers; a list that ends early is a crash
  between two calls. \<open>sys_step\<close> interleaves any number of processes. \<open>safe\<close> is the proof rule for
  the interleaved runs: a rely-guarantee triple over an invariant \<open>I\<close> and an evolution preorder
  \<open>R\<close> that every atomic action of every process respects.
\<close>

datatype ('i, 'w, 'a) proc =
    Done 'a
  | Act "'w \<Rightarrow> 'w" "('i, 'w, 'a) proc"
  | Ask "'i \<Rightarrow> 'w \<Rightarrow> 'w" "'i \<Rightarrow> 'w \<Rightarrow> ('i, 'w, 'a) proc"

primrec bindp :: "('i, 'w, 'a) proc \<Rightarrow> ('a \<Rightarrow> ('i, 'w, 'b) proc) \<Rightarrow> ('i, 'w, 'b) proc" where
  "bindp (Done a) k = k a"
| "bindp (Act u p) k = Act u (bindp p k)"
| "bindp (Ask u c) k = Ask u (\<lambda>i w. bindp (c i w) k)"

text \<open>\<open>if err != nil { ... }\<close> after a call: \<open>h\<close> on the error, \<open>k\<close> on the value.\<close>

definition tryp ::
    "('i, 'w, 'e + 'a) proc \<Rightarrow> ('e \<Rightarrow> ('i, 'w, 'b) proc) \<Rightarrow> ('a \<Rightarrow> ('i, 'w, 'b) proc) \<Rightarrow> ('i, 'w, 'b) proc"
  where
  "tryp p h k = bindp p (\<lambda>r. case r of Inl e \<Rightarrow> h e | Inr a \<Rightarrow> k a)"

text \<open>A \<open>for _, x := range xs\<close> loop whose body may change the world.\<close>

primrec forp :: "'x list \<Rightarrow> ('x \<Rightarrow> ('i, 'w, unit) proc) \<Rightarrow> ('i, 'w, unit) proc" where
  "forp [] body = Done ()"
| "forp (x # xs) body = bindp (body x) (\<lambda>_. forp xs body)"

text \<open>The same with an accumulator.\<close>

primrec foldp :: "('x \<Rightarrow> 's \<Rightarrow> ('i, 'w, 's) proc) \<Rightarrow> 'x list \<Rightarrow> 's \<Rightarrow> ('i, 'w, 's) proc" where
  "foldp f [] s = Done s"
| "foldp f (x # xs) s = bindp (f x s) (foldp f xs)"

text \<open>Drop a result, for a goroutine whose result nobody reads.\<close>

definition voidp :: "('i, 'w, 'a) proc \<Rightarrow> ('i, 'w, unit) proc" where
  "voidp p = bindp p (\<lambda>_. Done ())"

lemma proc_induct [case_names Done Act Ask]:
  assumes "\<And>a. P (Done a)" "\<And>u p. P p \<Longrightarrow> P (Act u p)"
    "\<And>u c. (\<And>i w. P (c i w)) \<Longrightarrow> P (Ask u c)"
  shows "P p"
  by (induction p) (use assms in \<open>auto intro!: assms(3) rangeI\<close>)

lemma bindp_Done [simp]: "bindp p Done = p"
  by (induction p rule: proc_induct) simp_all

lemma bindp_assoc: "bindp (bindp p k) l = bindp p (\<lambda>a. bindp (k a) l)"
  by (induction p rule: proc_induct) simp_all

section \<open>Running one process\<close>

primrec run :: "('i, 'w, 'a) proc \<Rightarrow> 'i list \<Rightarrow> 'w \<Rightarrow> 'a option \<times> 'w \<times> 'i list" where
  "run (Done a) = (\<lambda>is w. (Some a, w, is))"
| "run (Act u p) = (\<lambda>is w. run p is (u w))"
| "run (Ask u c) = (\<lambda>is w. case is of [] \<Rightarrow> (None, w, []) | i # is' \<Rightarrow> run (c i w) is' (u i w))"

definition run_world :: "('i, 'w, 'a) proc \<Rightarrow> 'i list \<Rightarrow> 'w \<Rightarrow> 'w" where
  "run_world p is w = fst (snd (run p is w))"

definition run_result :: "('i, 'w, 'a) proc \<Rightarrow> 'i list \<Rightarrow> 'w \<Rightarrow> 'a option" where
  "run_result p is w = fst (run p is w)"

lemma run_bindp:
  "run (bindp p k) is w =
    (case run p is w of (None, w', is') \<Rightarrow> (None, w', is') | (Some a, w', is') \<Rightarrow> run (k a) is' w')"
  by (induction p arbitrary: "is" w rule: proc_induct) (auto split: list.splits)

section \<open>Interleaved runs\<close>

text \<open>
  The system is the shared world and the processes in flight. A step starts a process from the
  entry points \<open>E\<close>, lets one process perform its next action, drops a process (it returned, or
  its machine died), or changes the world by an action \<open>X\<close> of the environment itself.
\<close>

type_synonym ('i, 'w) sys = "'w \<times> ('i, 'w, unit) proc list"

inductive sys_step ::
    "(('i, 'w, unit) proc \<Rightarrow> bool) \<Rightarrow> ('w \<Rightarrow> 'w \<Rightarrow> bool) \<Rightarrow> ('i, 'w) sys \<Rightarrow> ('i, 'w) sys \<Rightarrow> bool"
  for E X where
  spawn: "E p \<Longrightarrow> sys_step E X (w, ts) (w, ts @ [p])"
| act: "sys_step E X (w, us @ Act u p # vs) (u w, us @ p # vs)"
| ask: "sys_step E X (w, us @ Ask u c # vs) (u i w, us @ c i w # vs)"
| stop: "sys_step E X (w, us @ p # vs) (w, us @ vs)"
| environment: "X w w' \<Longrightarrow> sys_step E X (w, ts) (w', ts)"

inductive reachable ::
    "(('i, 'w, unit) proc \<Rightarrow> bool) \<Rightarrow> ('w \<Rightarrow> 'w \<Rightarrow> bool) \<Rightarrow> 'w \<Rightarrow> ('i, 'w) sys \<Rightarrow> bool"
  for E X w0 where
  start: "reachable E X w0 (w0, [])"
| step: "reachable E X w0 s \<Longrightarrow> sys_step E X s s' \<Longrightarrow> reachable E X w0 s'"

inductive_simps sys_step_no_threads: "sys_step E X (w, []) s"

text \<open>A process run alone is one of the interleaved runs: from a reachable state it leads to one.\<close>

lemma run_steps: "\<exists>q. (sys_step E X)\<^sup>*\<^sup>* (w, ts @ [p]) (run_world p is w, ts @ [q])"
proof (induction p arbitrary: w "is" rule: proc_induct)
  case (Done a)
  show ?case by (auto simp: run_world_def)
next
  case (Act u p)
  have "sys_step E X (w, ts @ [Act u p]) (u w, ts @ [p])" using sys_step.act [of E X w ts u p "[]"] by simp
  with Act [of "u w" "is"] show ?case by (auto simp: run_world_def intro: converse_rtranclp_into_rtranclp)
next
  case (Ask u c)
  show ?case
  proof (cases "is")
    case Nil
    then show ?thesis by (auto simp: run_world_def)
  next
    case (Cons i is')
    have "sys_step E X (w, ts @ [Ask u c]) (u i w, ts @ [c i w])" using sys_step.ask [of E X w ts u c "[]" i] by simp
    moreover obtain q where "(sys_step E X)\<^sup>*\<^sup>* (u i w, ts @ [c i w]) (run_world (c i w) is' (u i w), ts @ [q])"
      using Ask by blast
    ultimately show ?thesis using Cons by (auto simp: run_world_def intro: converse_rtranclp_into_rtranclp)
  qed
qed

lemma run_alone:
  assumes "E p"
  shows "(sys_step E X)\<^sup>*\<^sup>* (w, ts) (run_world p is w, ts)"
proof -
  have "sys_step E X (w, ts) (w, ts @ [p])" using assms by (rule sys_step.spawn)
  moreover obtain q where "(sys_step E X)\<^sup>*\<^sup>* (w, ts @ [p]) (run_world p is w, ts @ [q])"
    using run_steps by metis
  moreover have "sys_step E X (run_world p is w, ts @ [q]) (run_world p is w, ts)"
    using sys_step.stop [of E X _ ts q "[]"] by simp
  ultimately show ?thesis by (auto intro: converse_rtranclp_into_rtranclp)
qed

lemma reachable_steps: "(sys_step E X)\<^sup>*\<^sup>* s s' \<Longrightarrow> reachable E X w0 s \<Longrightarrow> reachable E X w0 s'"
  by (induction rule: rtranclp_induct) (auto intro: reachable.step)

lemma reachable_run: "reachable E X w0 (w, ts) \<Longrightarrow> E p \<Longrightarrow> reachable E X w0 (run_world p is w, ts)"
  using reachable_steps [OF run_alone] by metis

section \<open>Rely-guarantee triples\<close>

primrec safe ::
    "('w \<Rightarrow> bool) \<Rightarrow> ('w \<Rightarrow> 'w \<Rightarrow> bool) \<Rightarrow> ('i, 'w, 'a) proc \<Rightarrow> ('a \<Rightarrow> 'w \<Rightarrow> bool) \<Rightarrow> 'w \<Rightarrow> bool" where
  "safe I R (Done a) = (\<lambda>Q w. \<forall>w'. R w w' \<longrightarrow> I w' \<longrightarrow> Q a w')"
| "safe I R (Act u p) = (\<lambda>Q w. \<forall>w'. R w w' \<longrightarrow> I w' \<longrightarrow>
     I (u w') \<and> R w' (u w') \<and> safe I R p Q (u w'))"
| "safe I R (Ask u c) = (\<lambda>Q w. \<forall>w' i. R w w' \<longrightarrow> I w' \<longrightarrow>
     I (u i w') \<and> R w' (u i w') \<and> safe I R (c i w') Q (u i w'))"

named_theorems safe_rules \<open>structural rules for safe\<close>

locale evolution =
  fixes I :: "'w \<Rightarrow> bool" and R :: "'w \<Rightarrow> 'w \<Rightarrow> bool"
  assumes R_refl: "R w w"
    and R_trans: "R w1 w2 \<Longrightarrow> R w2 w3 \<Longrightarrow> R w1 w3"
begin

lemma safe_later: "safe I R p Q w \<Longrightarrow> R w w' \<Longrightarrow> safe I R p Q w'"
  by (cases p) (auto intro: R_trans)

lemma safe_conseq:
  "safe I R p Q w \<Longrightarrow> (\<And>a w'. R w w' \<Longrightarrow> I w' \<Longrightarrow> Q a w' \<Longrightarrow> Q' a w') \<Longrightarrow> safe I R p Q' w"
proof (induction p arbitrary: w rule: proc_induct)
  case (Act u p)
  show ?case
  proof (simp, intro allI impI)
    fix w' assume w': "R w w'" "I w'"
    with Act.prems(1) have s: "I (u w')" "R w' (u w')" "safe I R p Q (u w')" by auto
    from w'(1) s(2) have "R w (u w')" by (rule R_trans)
    with Act s(3) have "safe I R p Q' (u w')" by (blast intro: R_trans)
    with s show "I (u w') \<and> R w' (u w') \<and> safe I R p Q' (u w')" by simp
  qed
next
  case (Ask u c)
  show ?case
  proof (simp, intro allI impI)
    fix w' i assume w': "R w w'" "I w'"
    with Ask.prems(1) have s: "I (u i w')" "R w' (u i w')" "safe I R (c i w') Q (u i w')" by auto
    from w'(1) s(2) have "R w (u i w')" by (rule R_trans)
    with Ask s(3) have "safe I R (c i w') Q' (u i w')" by (blast intro: R_trans)
    with s show "I (u i w') \<and> R w' (u i w') \<and> safe I R (c i w') Q' (u i w')" by simp
  qed
qed auto

lemma safe_bindp:
  assumes "safe I R p Q w"
    and "\<And>a w'. R w w' \<Longrightarrow> I w' \<Longrightarrow> Q a w' \<Longrightarrow> safe I R (k a) Q' w'"
  shows "I w \<Longrightarrow> safe I R (bindp p k) Q' w"
  using assms
proof (induction p arbitrary: w rule: proc_induct)
  case (Done a)
  then show ?case by (auto intro: R_refl)
next
  case (Act u p)
  show ?case
  proof (simp, intro allI impI)
    fix w' assume w': "R w w'" "I w'"
    with Act.prems(2) have s: "I (u w')" "R w' (u w')" "safe I R p Q (u w')" by auto
    from w'(1) s(2) have "R w (u w')" by (rule R_trans)
    with Act s have "safe I R (bindp p k) Q' (u w')" by (blast intro: R_trans)
    with s show "I (u w') \<and> R w' (u w') \<and> safe I R (bindp p k) Q' (u w')" by simp
  qed
next
  case (Ask u c)
  show ?case
  proof (simp, intro allI impI)
    fix w' i assume w': "R w w'" "I w'"
    with Ask.prems(2) have s: "I (u i w')" "R w' (u i w')" "safe I R (c i w') Q (u i w')" by auto
    from w'(1) s(2) have "R w (u i w')" by (rule R_trans)
    with Ask s have "safe I R (bindp (c i w') k) Q' (u i w')" by (blast intro: R_trans)
    with s show "I (u i w') \<and> R w' (u i w') \<and> safe I R (bindp (c i w') k) Q' (u i w')" by simp
  qed
qed

lemma safe_tryp:
  assumes "safe I R p Q w" and "I w"
    and "\<And>e w'. R w w' \<Longrightarrow> I w' \<Longrightarrow> Q (Inl e) w' \<Longrightarrow> safe I R (h e) Q' w'"
    and "\<And>a w'. R w w' \<Longrightarrow> I w' \<Longrightarrow> Q (Inr a) w' \<Longrightarrow> safe I R (k a) Q' w'"
  shows "safe I R (tryp p h k) Q' w"
  unfolding tryp_def
  by (rule safe_bindp [OF assms(1) _ assms(2)]) (auto split: sum.splits intro: assms(3,4))

lemma safe_Done: "(\<And>w'. R w w' \<Longrightarrow> I w' \<Longrightarrow> Q a w') \<Longrightarrow> safe I R (Done a) Q w"
  by simp

lemma safe_forp:
  assumes "\<And>x w'. x \<in> set xs \<Longrightarrow> R w w' \<Longrightarrow> I w' \<Longrightarrow> safe I R (body x) (\<lambda>_ _. True) w'"
  shows "I w \<Longrightarrow> safe I R (forp xs body) (\<lambda>_ _. True) w"
  using assms
proof (induction xs arbitrary: w)
  case Nil
  then show ?case by simp
next
  case (Cons x xs)
  have "safe I R (body x) (\<lambda>_ _. True) w" using Cons.prems by (simp add: R_refl)
  moreover have "safe I R (forp xs body) (\<lambda>_ _. True) w'" if "R w w'" "I w'" for w'
    using Cons.prems(2) that by (intro Cons.IH) (auto intro: R_trans)
  ultimately show ?case using Cons.prems(1) by (auto intro!: safe_bindp)
qed

lemma safe_foldp:
  assumes "\<And>x s w'. x \<in> set xs \<Longrightarrow> R w w' \<Longrightarrow> I w' \<Longrightarrow> safe I R (f x s) (\<lambda>_ _. True) w'"
  shows "I w \<Longrightarrow> safe I R (foldp f xs s) (\<lambda>_ _. True) w"
  using assms
proof (induction xs arbitrary: w s)
  case Nil
  then show ?case by simp
next
  case (Cons x xs)
  have "safe I R (f x s) (\<lambda>_ _. True) w" using Cons.prems by (simp add: R_refl)
  moreover have "safe I R (foldp f xs s') (\<lambda>_ _. True) w'" if "R w w'" "I w'" for w' s'
    using Cons.prems(2) that by (intro Cons.IH) (auto intro: R_trans)
  ultimately show ?case using Cons.prems(1) by (auto intro!: safe_bindp)
qed

lemma safe_voidp: "I w \<Longrightarrow> safe I R p Q w \<Longrightarrow> safe I R (voidp p) (\<lambda>_ _. True) w"
  unfolding voidp_def by (rule safe_bindp) auto

text \<open>A triple also covers the process run alone, crashes included.\<close>

lemma safe_run:
  "safe I R p Q w \<Longrightarrow> I w \<Longrightarrow> run p is w = (r, w', is') \<Longrightarrow>
   I w' \<and> R w w' \<and> (\<forall>a. r = Some a \<longrightarrow> Q a w')"
proof (induction p arbitrary: w "is" rule: proc_induct)
  case (Done a)
  then show ?case by (auto intro: R_refl)
next
  case (Act u p)
  then have s: "I (u w)" "R w (u w)" "safe I R p Q (u w)" using R_refl by auto
  with Act have "I w' \<and> R (u w) w' \<and> (\<forall>a. r = Some a \<longrightarrow> Q a w')" by auto
  with s show ?case by (blast intro: R_trans)
next
  case (Ask u c)
  show ?case
  proof (cases "is")
    case Nil
    with Ask.prems show ?thesis by (auto intro: R_refl)
  next
    case (Cons i is1)
    from Ask.prems have s: "I (u i w)" "R w (u i w)" "safe I R (c i w) Q (u i w)" using R_refl by auto
    with Ask Cons have "I w' \<and> R (u i w) w' \<and> (\<forall>a. r = Some a \<longrightarrow> Q a w')" by auto
    with s show ?thesis by (blast intro: R_trans)
  qed
qed

text \<open>Soundness of the triples for the interleaved system.\<close>

lemma safe_thread_list:
  assumes "\<forall>t \<in> set ts. safe I R t (\<lambda>_ _. True) w" "R w w'"
  shows "\<forall>t \<in> set ts. safe I R t (\<lambda>_ _. True) w'"
  using assms safe_later by blast

definition state_safe :: "('i, 'w) sys \<Rightarrow> bool" where
  "state_safe s \<longleftrightarrow> I (fst s) \<and> (\<forall>t \<in> set (snd s). safe I R t (\<lambda>_ _. True) (fst s))"

lemma step_safe:
  assumes E: "\<And>p w. E p \<Longrightarrow> I w \<Longrightarrow> safe I R p (\<lambda>_ _. True) w"
    and X: "\<And>w w'. X w w' \<Longrightarrow> I w \<Longrightarrow> I w' \<and> R w w'"
    and s: "state_safe s" and step: "sys_step E X s s'"
  shows "state_safe s' \<and> R (fst s) (fst s')"
  using step
proof (cases rule: sys_step.cases)
  case (spawn p w ts)
  with s E R_refl show ?thesis by (auto simp: state_safe_def)
next
  case (act w us u p vs)
  with s have "I (u w)" "R w (u w)" "safe I R p (\<lambda>_ _. True) (u w)"
    using R_refl by (auto simp: state_safe_def)
  with act s show ?thesis using safe_thread_list [of "us @ vs" w "u w"] by (auto simp: state_safe_def)
next
  case (ask w us u c vs i)
  with s have "I (u i w)" "R w (u i w)" "safe I R (c i w) (\<lambda>_ _. True) (u i w)"
    using R_refl by (auto simp: state_safe_def)
  with ask s show ?thesis using safe_thread_list [of "us @ vs" w "u i w"] by (auto simp: state_safe_def)
next
  case (stop w us p vs)
  with s R_refl show ?thesis by (auto simp: state_safe_def)
next
  case (environment w w' ts)
  with s X have "I w'" "R w w'" by (auto simp: state_safe_def)
  with environment s show ?thesis using safe_thread_list [of ts w w'] by (auto simp: state_safe_def)
qed

lemma reachable_safe:
  assumes E: "\<And>p w. E p \<Longrightarrow> I w \<Longrightarrow> safe I R p (\<lambda>_ _. True) w"
    and X: "\<And>w w'. X w w' \<Longrightarrow> I w \<Longrightarrow> I w' \<and> R w w'"
    and w0: "I w0" and reach: "reachable E X w0 s"
  shows "state_safe s"
  using reach
proof (induction rule: reachable.induct)
  case start
  with w0 show ?case by (simp add: state_safe_def)
next
  case (step s s')
  with step_safe [OF E X] show ?case by blast
qed

lemma steps_evolve:
  assumes E: "\<And>p w. E p \<Longrightarrow> I w \<Longrightarrow> safe I R p (\<lambda>_ _. True) w"
    and X: "\<And>w w'. X w w' \<Longrightarrow> I w \<Longrightarrow> I w' \<and> R w w'"
    and s: "state_safe s" and steps: "(sys_step E X)\<^sup>*\<^sup>* s s'"
  shows "state_safe s' \<and> R (fst s) (fst s')"
  using steps
proof (induction rule: rtranclp_induct)
  case base
  with s R_refl show ?case by simp
next
  case (step t u)
  with step_safe [OF E X] show ?case by (blast intro: R_trans)
qed

end

declare safe.simps(2,3) [simp del]

end
