(* ===== verification/Routing.thy ===== *)
theory Routing
  imports Payment_Model
begin

text \<open>
  The messages of the routing service (\<open>proto/chainroute/v1\<close>), which the C++ engine answers over gRPC.
  An enum value the Go code does not know is \<open>CHAIN_OTHER\<close> or \<open>ASSET_OTHER\<close>. A call ends with a status
  code and message, or with a response.
\<close>

datatype Chain = CHAIN_ETHEREUM | CHAIN_BASE | CHAIN_ARBITRUM | CHAIN_OPTIMISM | CHAIN_POLYGON | CHAIN_OTHER int

datatype Asset = ASSET_USDC | ASSET_ETH | ASSET_OTHER int

record CandidateEdge =
  ce_BridgeName :: string
  ce_Fee :: float64
  ce_LatencyMs :: float64
  ce_Liquidity :: float64
  ce_Reliability :: float64

record FindRouteRequest =
  fr_SourceChain :: Chain
  fr_DestinationChain :: Chain
  fr_Asset :: Asset
  fr_Amount :: float64
  fr_CandidateEdges :: "CandidateEdge list"

record RouteHop =
  rh_FromChain :: Chain
  rh_ToChain :: Chain
  rh_BridgeName :: string
  rh_Fee :: float64
  rh_LatencyMs :: float64
  rh_Liquidity :: float64
  rh_Reliability :: float64

record FindRouteResponse =
  fs_RouteFound :: bool
  fs_Hops :: "RouteHop list"
  fs_TotalFee :: float64

datatype grpc_code = InvalidArgument | Unavailable | DeadlineExceeded | OtherCode

type_synonym route_reply = "(grpc_code \<times> string) + FindRouteResponse"

end
