(* ===== verification/World.thy ===== *)
theory World
  imports Evm Pg_Types Process Routing "HOL-Library.Multiset"
begin

text \<open>
  The state the processes share and the answers of the outside.

  \<open>db\<close> is the PostgreSQL database after migrations 0001-0008, one list of rows per table; the rows
  of \<open>payment_executions\<close> are the \<open>Execution\<close> struct they scan into (\<open>NULL\<close> is \<open>None\<close>; the column
  \<open>unsigned_tx_params\<close> is never written). \<open>env\<close> is one answer of the environment: the clock, a
  database fault, fresh identifiers, the order of an unordered result, and the replies of the
  bridge APIs, the origin chain and Kafka. A call reads the fields it needs.

  \<open>world\<close> adds to the database the history of the calls that leave the system (newest first) and
  the Prometheus counters, summed over the processes; a histogram is counted by its number of
  observations. Logging and tracing spans are left out: they change no state and no result.
\<close>

section \<open>The database\<close>

record payment_row =
  pr_id :: string
  pr_idempotency_key :: string
  pr_source_chain :: string
  pr_destination_chain :: string
  pr_asset :: string
  pr_amount :: int
  pr_status :: Status
  pr_total_fee :: float64
  pr_execution_mode :: ExecutionMode
  pr_bridge_provider :: "string option"
  pr_failure_reason :: "string option"
  pr_completed_at :: "time option"
  pr_created_at :: time
  pr_updated_at :: time

record quote_row =
  qr_id :: string
  qr_payment_id :: string
  qr_provider :: string
  qr_origin_chain_id :: int
  qr_destination_chain_id :: int
  qr_asset :: string
  qr_input_amount :: int
  qr_output_amount :: int
  qr_fee_amount :: int
  qr_estimated_fill_time_sec :: int
  qr_quoted_at :: time
  qr_expires_at :: time
  qr_raw_provider_payload :: json
  qr_selected :: bool
  qr_created_at :: time

record outbox_row =
  ob_id :: string
  ob_payment_id :: string
  ob_event_type :: string
  ob_payload :: RoutedPayment
  ob_created_at :: time
  ob_published_at :: "time option"

text \<open>
  \<open>db_outbox_locks\<close> maps a locked outbox row to the transaction that holds it (\<open>FOR UPDATE\<close>);
  \<open>db_next_tx\<close> numbers the transactions.
\<close>

record db =
  db_payments :: "payment_row list"
  db_hops :: "(string \<times> Hop) list"
  db_quotes :: "quote_row list"
  db_executions :: "Execution list"
  db_wallet_nonces :: "string \<rightharpoonup> int"
  db_outbox :: "outbox_row list"
  db_outbox_locks :: "string \<rightharpoonup> nat"
  db_next_tx :: nat

definition empty_db :: db where
  "empty_db = \<lparr>db_payments = [], db_hops = [], db_quotes = [], db_executions = [],
     db_wallet_nonces = Map.empty, db_outbox = [], db_outbox_locks = Map.empty, db_next_tx = 0\<rparr>"

section \<open>The answers of the environment\<close>

text \<open>
  A database call may fail before it took effect, or after: the commit went through and the
  reply was lost.
\<close>

datatype db_fault = NoFault | FaultBefore err | FaultAfter err

text \<open>
  An HTTP exchange. The request, with its header and its body as a JSON document; and its outcome:
  the request could not be built (an invalid URL), the transport failed, the body could not be read,
  or a status code with the body, as text and as JSON (\<open>None\<close> when it is not JSON).
\<close>

record http_request =
  hr_Method :: string
  hr_URL :: string
  hr_Header :: "(string \<times> string) list"
  hr_Body :: "json option"

datatype http_reply = HttpBadRequest err | HttpFail err | HttpReadFail int err | HttpReply int string "json option"

record env =
  e_now :: time
  e_db :: db_fault
  e_uuid :: "nat \<Rightarrow> 128 word"
  e_order :: "nat \<Rightarrow> nat"
  e_http :: "http_request \<Rightarrow> http_reply"
  e_route :: "FindRouteRequest \<Rightarrow> route_reply"
  e_gas_price :: "int res"
  e_gas_limit :: "64 word res"
  e_lookup :: "unit res"
  e_send :: "unit res"
  e_receipt :: "64 word res"
  e_pending_nonce :: "64 word res"
  e_publish :: "unit res"

definition env0 :: env where
  "env0 = \<lparr>e_now = 0, e_db = NoFault, e_uuid = (\<lambda>n. of_nat n), e_order = (\<lambda>n. n),
     e_http = (\<lambda>_. HttpFail (Err ''unreachable'')),
     e_route = (\<lambda>_. Inl (Unavailable, ''unreachable'')), e_gas_price = Inr 1, e_gas_limit = Inr 21000,
     e_lookup = Inr (), e_send = Inr (), e_receipt = Inr 1, e_pending_nonce = Inr 0, e_publish = Inr ()\<rparr>"

text \<open>An unordered result set comes back in any order: \<open>shuffle\<close> sorts the positions by a key the environment chooses.\<close>

definition shuffle :: "(nat \<Rightarrow> nat) \<Rightarrow> 'a list \<Rightarrow> 'a list" where
  "shuffle f xs = map (\<lambda>i. xs ! i) (sort_key f [0..<length xs])"

lemma mset_shuffle [simp]: "mset (shuffle f xs) = mset xs"
proof -
  have "mset (shuffle f xs) = image_mset (\<lambda>i. xs ! i) (mset [0..<length xs])"
    unfolding shuffle_def by (simp only: mset_map mset_sort)
  also have "\<dots> = mset (map (\<lambda>i. xs ! i) [0..<length xs])" by (simp only: mset_map)
  also have "\<dots> = mset xs" by (simp only: map_nth)
  finally show ?thesis .
qed

lemma set_shuffle [simp]: "set (shuffle f xs) = set xs"
  by (metis mset_shuffle set_mset_mset)

lemma length_shuffle [simp]: "length (shuffle f xs) = length xs"
  by (simp add: shuffle_def)

lemma distinct_shuffle [simp]: "distinct (shuffle f xs) = distinct xs"
  by (metis mset_eq_imp_distinct_iff mset_shuffle)

section \<open>The world\<close>

datatype event =
    EvQuote string Request "BQuote res"
  | EvRoute FindRouteRequest route_reply
  | EvLookup hash32 "unit res"
  | EvSend SignedTx "unit res"
  | EvReceipt hash32 "64 word res"
  | EvStatus string StatusRequest "StatusResult res"
  | EvPublish string RoutedPayment "unit res"

type_synonym counters = "string \<times> string list \<Rightarrow> nat"

record world =
  w_db :: db
  w_trace :: "event list"
  w_met :: counters

definition empty_world :: world where
  "empty_world = \<lparr>w_db = empty_db, w_trace = [], w_met = (\<lambda>_. 0)\<rparr>"

type_synonym 'a pr = "(env, world, 'a) proc"

text \<open>\<open>metric.WithLabelValues(labels).Inc()\<close> and \<open>.Observe(...)\<close>.\<close>

definition Inc :: "string \<Rightarrow> string list \<Rightarrow> unit pr" where
  "Inc m labels = Act (\<lambda>w. w\<lparr>w_met := (w_met w)((m, labels) := Suc (w_met w (m, labels)))\<rparr>) (Done ())"

definition Observe :: "string \<Rightarrow> string list \<Rightarrow> unit pr" where
  "Observe m labels = Inc m labels"

text \<open>\<open>time.Now()\<close>.\<close>

definition Now :: "time pr" where
  "Now = Ask (\<lambda>i w. w) (\<lambda>i w. Done (e_now i))"

text \<open>A call to a remote service that leaves a mark in the history.\<close>

definition call_out :: "(env \<Rightarrow> 'a) \<Rightarrow> ('a \<Rightarrow> event) \<Rightarrow> 'a pr" where
  "call_out reply ev = Ask (\<lambda>i w. w\<lparr>w_trace := ev (reply i) # w_trace w\<rparr>) (\<lambda>i w. Done (reply i))"

text \<open>One statement or transaction against the database, atomic, with the fault model above.\<close>

definition sql_effect :: "(env \<Rightarrow> db \<Rightarrow> ('a \<times> db) res) \<Rightarrow> env \<Rightarrow> db \<Rightarrow> db" where
  "sql_effect q i d =
    (case e_db i of
       FaultBefore _ \<Rightarrow> d
     | _ \<Rightarrow> (case q i d of Inl _ \<Rightarrow> d | Inr (_, d') \<Rightarrow> d'))"

definition sql_reply :: "(env \<Rightarrow> db \<Rightarrow> ('a \<times> db) res) \<Rightarrow> env \<Rightarrow> db \<Rightarrow> 'a res" where
  "sql_reply q i d =
    (case e_db i of
       FaultBefore e \<Rightarrow> Inl e
     | FaultAfter e \<Rightarrow> Inl e
     | NoFault \<Rightarrow> map_sum id fst (q i d))"

definition sql :: "(env \<Rightarrow> db \<Rightarrow> ('a \<times> db) res) \<Rightarrow> 'a res pr" where
  "sql q = Ask (\<lambda>i w. w\<lparr>w_db := sql_effect q i (w_db w)\<rparr>) (\<lambda>i w. Done (sql_reply q i (w_db w)))"

text \<open>A statement that only reads.\<close>

definition sql_query :: "(env \<Rightarrow> db \<Rightarrow> 'a res) \<Rightarrow> 'a res pr" where
  "sql_query q = sql (\<lambda>i d. map_sum id (\<lambda>a. (a, d)) (q i d))"

text \<open>A \<open>UUID\<close> argument of a statement.\<close>

definition uuid_arg :: "string \<Rightarrow> (string \<Rightarrow> 'a res) \<Rightarrow> 'a res" where
  "uuid_arg s k = (case uuid_in s of None \<Rightarrow> Inl (PgError ''22P02'' '''') | Some u \<Rightarrow> k u)"

text \<open>A fresh identifier from \<open>gen_random_uuid()\<close>.\<close>

definition new_uuid :: "env \<Rightarrow> nat \<Rightarrow> string" where
  "new_uuid i k = uuid_text (e_uuid i k)"

lemma uuid_in_new_uuid [simp]: "uuid_in (new_uuid i k) = Some (new_uuid i k)"
  by (simp add: new_uuid_def)

lemma uuid_arg_Inr: "uuid_arg s k = Inr a \<longleftrightarrow> (\<exists>u. uuid_in s = Some u \<and> k u = Inr a)"
  by (auto simp: uuid_arg_def split: option.splits)

section \<open>Running one call\<close>

lemma run_Done [simp]: "run (Done a) is w = (Some a, w, is)"
  by simp

lemma run_Inc: "run (Inc m l) is w = (Some (), w\<lparr>w_met := (w_met w)((m, l) := Suc (w_met w (m, l)))\<rparr>, is)"
  by (simp add: Inc_def)

lemma run_sql:
  "run (sql q) is w = (case is of
      [] \<Rightarrow> (None, w, [])
    | i # is' \<Rightarrow> (Some (sql_reply q i (w_db w)), w\<lparr>w_db := sql_effect q i (w_db w)\<rparr>, is'))"
  by (simp add: sql_def split: list.splits)

lemma sql_reply_cases:
  "sql_reply q i d = Inr a \<longleftrightarrow> e_db i = NoFault \<and> (\<exists>d'. q i d = Inr (a, d'))"
  by (cases "q i d") (auto simp: sql_reply_def split: db_fault.splits)

lemma sql_effect_cases: "sql_effect q i d = d \<or> (\<exists>a. q i d = Inr (a, sql_effect q i d))"
  by (auto simp: sql_effect_def split: db_fault.splits sum.splits)

section \<open>Triples for one call\<close>

context evolution
begin

lemma safe_Ask:
  assumes "\<And>w' i. R w w' \<Longrightarrow> I w' \<Longrightarrow> I (u i w') \<and> R w' (u i w') \<and> safe I R (c i w') Q (u i w')"
  shows "safe I R (Ask u c) Q w"
  using assms by (simp add: safe.simps)

lemma safe_Act:
  assumes "\<And>w'. R w w' \<Longrightarrow> I w' \<Longrightarrow> I (u w') \<and> R w' (u w') \<and> safe I R p Q (u w')"
  shows "safe I R (Act u p) Q w"
  using assms by (simp add: safe.simps)

end

end
