(* ===== verification/Store.thy ===== *)
theory Store
  imports World
begin

text \<open>
  \<open>internal/postgres/store.go\<close>: the payments, hops and outbox tables. Every method is a process; a
  single statement, and the body of a transaction, is one atomic action (\<open>sql\<close>). Statement errors
  carry the SQLSTATE and constraint the schema gives them and roll the transaction back. A
  connection fault inside a transaction is returned as it comes; the code prefixes the name of
  the statement it hit, which no caller inspects.
\<close>

definition wrapp :: "string \<Rightarrow> 'a res pr \<Rightarrow> 'a res pr" where
  "wrapp s p = bindp p (\<lambda>r. Done (wrap_err s r))"

definition normalizeExecutionMode :: "ExecutionMode \<Rightarrow> ExecutionMode" where
  "normalizeExecutionMode m = (if m = '''' then ExecutionModeSimulated else m)"

section \<open>Reading payments\<close>

text \<open>The columns scanned into a \<open>Payment\<close>; hops and quotes are loaded separately.\<close>

definition scan_payment :: "payment_row \<Rightarrow> Payment" where
  "scan_payment r = \<lparr>
     p_ID = pr_id r, p_IdempotencyKey = pr_idempotency_key r,
     p_SourceChain = pr_source_chain r, p_DestinationChain = pr_destination_chain r,
     p_Asset = pr_asset r, p_Amount = numeric_text 18 (pr_amount r),
     p_Status = pr_status r, p_TotalFee = pr_total_fee r, p_Hops = [],
     p_ExecutionMode = pr_execution_mode r, p_BridgeProvider = pr_bridge_provider r,
     p_FailureReason = pr_failure_reason r, p_Quotes = [],
     p_CreatedAt = pr_created_at r, p_UpdatedAt = pr_updated_at r, p_CompletedAt = pr_completed_at r\<rparr>"

text \<open>\<open>amount = $5::NUMERIC\<close>: the argument is not rounded to the column's scale.\<close>

definition numeric_equal :: "int \<Rightarrow> string \<Rightarrow> bool option" where
  "numeric_equal a s = (let k = length (frac_part s) in
     map_option (\<lambda>n. a * 10 ^ k = n) (numeric_in (18 + k) s))"

definition findByIdempotencyKey :: "Payment \<Rightarrow> (Payment \<times> bool) option res pr" where
  "findByIdempotencyKey p =
    (let mode = normalizeExecutionMode (p_ExecutionMode p) in
     wrapp ''find by idempotency key'' (sql_query (\<lambda>i d.
       case numeric_equal 0 (p_Amount p) of
         None \<Rightarrow> Inl (PgError ''22P02'' '''')
       | Some _ \<Rightarrow> Inr (map_option
           (\<lambda>r. (scan_payment r,
                 pr_source_chain r = p_SourceChain p \<and> pr_destination_chain r = p_DestinationChain p \<and>
                 pr_asset r = p_Asset p \<and> numeric_equal (pr_amount r) (p_Amount p) = Some True \<and>
                 pr_execution_mode r = mode))
           (sql_row (sql_select (\<lambda>r. pr_idempotency_key r = p_IdempotencyKey p) (db_payments d)))))))"

definition hops_of :: "string \<Rightarrow> db \<Rightarrow> Hop list" where
  "hops_of u d = sort_key h_HopIndex (map snd (sql_select (\<lambda>(pid, h). pid = u) (db_hops d)))"

definition hopsForPayment :: "string \<Rightarrow> Hop list res pr" where
  "hopsForPayment paymentID =
    wrapp ''query hops'' (sql_query (\<lambda>i d. uuid_arg paymentID (\<lambda>u. Inr (hops_of u d))))"

definition GetPayment :: "string \<Rightarrow> Payment option res pr" where
  "GetPayment pid =
    bindp
      (sql_query (\<lambda>i d. uuid_arg pid (\<lambda>u.
        Inr (map_option scan_payment (sql_row (sql_select (\<lambda>r. pr_id r = u) (db_payments d)))))))
      (\<lambda>r. case r of
         Inl e \<Rightarrow>
           (case as_pg_error e of
              Some (code, _) \<Rightarrow> if code = ''22P02'' then Done (Inr None) else Done (Inl (Wrap ''get payment'' e))
            | None \<Rightarrow> Done (Inl (Wrap ''get payment'' e)))
       | Inr None \<Rightarrow> Done (Inr None)
       | Inr (Some p) \<Rightarrow>
           tryp (hopsForPayment (p_ID p)) (\<lambda>e. Done (Inl e))
             (\<lambda>hops. Done (Inr (Some (p\<lparr>p_Hops := hops\<rparr>)))))"

text \<open>\<open>None\<close> is \<open>found = false\<close>; the zero payment of a conflict carries no information and is left out.\<close>

definition resolve_existing ::
    "Payment \<Rightarrow> bool \<Rightarrow> (Payment option \<times> CreateResult) res pr" where
  "resolve_existing existing matches =
    (if \<not> matches then Done (Inr (None, Conflict))
     else tryp (hopsForPayment (p_ID existing)) (\<lambda>e. Done (Inl e))
            (\<lambda>hops. Done (Inr (Some (existing\<lparr>p_Hops := hops\<rparr>), Replayed))))"

definition LookupByIdempotencyKey :: "Payment \<Rightarrow> (Payment option \<times> CreateResult) option res pr" where
  "LookupByIdempotencyKey p =
    tryp (findByIdempotencyKey p) (\<lambda>e. Done (Inl e))
      (\<lambda>r. case r of
         None \<Rightarrow> Done (Inr None)
       | Some (existing, matches) \<Rightarrow>
           tryp (resolve_existing existing matches) (\<lambda>e. Done (Inl e)) (\<lambda>x. Done (Inr (Some x))))"

section \<open>Creating a payment\<close>

definition int4_fits :: "int \<Rightarrow> bool" where
  "int4_fits n \<longleftrightarrow> - (2 ^ 31) \<le> n \<and> n < 2 ^ 31"

definition int8_fits :: "int \<Rightarrow> bool" where
  "int8_fits n \<longleftrightarrow> - (2 ^ 63) \<le> n \<and> n < 2 ^ 63"

text \<open>The \<open>INSERT INTO payment_route_hops\<close> loop: primary key \<open>(payment_id, hop_index)\<close>.\<close>

fun insert_hops :: "string \<Rightarrow> Hop list \<Rightarrow> (string \<times> Hop) list \<Rightarrow> (string \<times> Hop) list res" where
  "insert_hops pid [] t = Inr t"
| "insert_hops pid (h # hs) t =
    (if \<not> int4_fits (h_HopIndex h) then Inl (Wrap ''insert hop'' (PgError ''22003'' ''''))
     else if \<exists>(q, h') \<in> set t. q = pid \<and> h_HopIndex h' = h_HopIndex h
     then Inl (Wrap ''insert hop'' (PgError ''23505'' ''payment_route_hops_pkey''))
     else insert_hops pid hs (t @ [(pid, h)]))"

text \<open>
  \<open>insertPaymentQuotes\<close> (\<open>quote_store.go\<close>): the loop over the quotes. Unique are \<open>id\<close>, \<open>(payment_id,
  provider)\<close>, and \<open>payment_id\<close> among the selected rows (migration 0007).
\<close>

definition quote_row_of :: "env \<Rightarrow> nat \<Rightarrow> string \<Rightarrow> Quote \<Rightarrow> quote_row option" where
  "quote_row_of i k pid q =
    (case (numeric_in 0 (q_InputAmount q), numeric_in 0 (q_OutputAmount q), numeric_in 0 (q_FeeAmount q)) of
       (Some inp, Some outp, Some fee) \<Rightarrow> Some \<lparr>
         qr_id = new_uuid i k, qr_payment_id = pid, qr_provider = q_Provider q,
         qr_origin_chain_id = q_OriginChainID q, qr_destination_chain_id = q_DestinationChainID q,
         qr_asset = q_Asset q, qr_input_amount = inp, qr_output_amount = outp, qr_fee_amount = fee,
         qr_estimated_fill_time_sec = q_EstimatedFillTimeSec q,
         qr_quoted_at = q_QuotedAt q, qr_expires_at = q_ExpiresAt q,
         qr_raw_provider_payload = q_RawProviderPayload q, qr_selected = q_Selected q,
         qr_created_at = e_now i\<rparr>
     | _ \<Rightarrow> None)"

fun insertPaymentQuotes :: "env \<Rightarrow> nat \<Rightarrow> string \<Rightarrow> Quote list \<Rightarrow> quote_row list \<Rightarrow> quote_row list res" where
  "insertPaymentQuotes i k pid [] t = Inr t"
| "insertPaymentQuotes i k pid (q # qs) t =
    (case quote_row_of i k pid q of
       None \<Rightarrow> Inl (Wrap ''insert payment_quotes'' (PgError ''22P02'' ''''))
     | Some r \<Rightarrow>
         if \<not> numeric_fits (qr_input_amount r) \<or> \<not> numeric_fits (qr_output_amount r) \<or>
            \<not> numeric_fits (qr_fee_amount r) \<or> \<not> int4_fits (qr_estimated_fill_time_sec r)
         then Inl (Wrap ''insert payment_quotes'' (PgError ''22003'' ''''))
         else if qr_id r \<in> qr_id ` set t
         then Inl (Wrap ''insert payment_quotes'' (PgError ''23505'' ''payment_quotes_pkey''))
         else if \<exists>r' \<in> set t. qr_payment_id r' = pid \<and> qr_provider r' = qr_provider r
         then Inl (Wrap ''insert payment_quotes'' (PgError ''23505'' ''payment_quotes_payment_id_provider_key''))
         else if qr_selected r \<and> (\<exists>r' \<in> set t. qr_payment_id r' = pid \<and> qr_selected r')
         then Inl (Wrap ''insert payment_quotes'' (PgError ''23505'' ''payment_quotes_one_selected_per_payment''))
         else insertPaymentQuotes i (Suc k) pid qs (t @ [r]))"

text \<open>
  The transaction of \<open>CreateOrGetPayment\<close>. The result is \<open>None\<close> when \<open>ON CONFLICT DO NOTHING\<close> returned
  no row. The table's \<open>CHECK\<close> constraints are enforced before the conflict is looked for.
\<close>

definition new_payment_row :: "env \<Rightarrow> Payment \<Rightarrow> int \<Rightarrow> payment_row" where
  "new_payment_row i p amt = \<lparr>
     pr_id = new_uuid i 0, pr_idempotency_key = p_IdempotencyKey p,
     pr_source_chain = p_SourceChain p, pr_destination_chain = p_DestinationChain p,
     pr_asset = p_Asset p, pr_amount = amt, pr_status = ROUTED, pr_total_fee = p_TotalFee p,
     pr_execution_mode = p_ExecutionMode p, pr_bridge_provider = p_BridgeProvider p,
     pr_failure_reason = None, pr_completed_at = None,
     pr_created_at = e_now i, pr_updated_at = e_now i\<rparr>"

definition new_outbox_row :: "env \<Rightarrow> string \<Rightarrow> outbox_row" where
  "new_outbox_row i pid = \<lparr>
     ob_id = new_uuid i 1, ob_payment_id = pid, ob_event_type = RoutedPaymentEventType,
     ob_payload = \<lparr>ev_PaymentID = pid, ev_EventType = RoutedPaymentEventType, ev_OccurredAt = e_now i\<rparr>,
     ob_created_at = e_now i, ob_published_at = None\<rparr>"

definition create_tx :: "Payment \<Rightarrow> env \<Rightarrow> db \<Rightarrow> (payment_row option \<times> db) res" where
  "create_tx p i d =
    (case numeric_in 18 (p_Amount p) of
       None \<Rightarrow> Inl (Wrap ''insert payment'' (PgError ''22P02'' ''''))
     | Some amt \<Rightarrow>
        (let r = new_payment_row i p amt in
         if \<not> numeric_fits amt then Inl (Wrap ''insert payment'' (PgError ''22003'' ''''))
         else if amt \<le> 0 then Inl (Wrap ''insert payment'' (PgError ''23514'' ''payments_amount_check''))
         else if p_SourceChain p = p_DestinationChain p
         then Inl (Wrap ''insert payment'' (PgError ''23514'' ''payments_check''))
         else if p_ExecutionMode p \<noteq> ExecutionModeSimulated \<and> p_ExecutionMode p \<noteq> ExecutionModeTestnet
         then Inl (Wrap ''insert payment'' (PgError ''23514'' ''payments_execution_mode_check''))
         else if p_IdempotencyKey p \<in> pr_idempotency_key ` set (db_payments d) then Inr (None, d)
         else if pr_id r \<in> pr_id ` set (db_payments d)
         then Inl (Wrap ''insert payment'' (PgError ''23505'' ''payments_pkey''))
         else case insert_hops (pr_id r) (p_Hops p) (db_hops d) of
           Inl e \<Rightarrow> Inl e
         | Inr hops \<Rightarrow>
            (case insertPaymentQuotes i 2 (pr_id r) (p_Quotes p) (db_quotes d) of
               Inl e \<Rightarrow> Inl e
             | Inr quotes \<Rightarrow>
                 if new_uuid i 1 \<in> ob_id ` set (db_outbox d)
                 then Inl (Wrap ''insert outbox event'' (PgError ''23505'' ''outbox_events_pkey''))
                 else Inr (Some r, d\<lparr>db_payments := db_payments d @ [r], db_hops := hops,
                        db_quotes := quotes, db_outbox := db_outbox d @ [new_outbox_row i (pr_id r)]\<rparr>))))"

text \<open>The payment returned for a new row: the generated columns, then the caller's fields.\<close>

definition created_payment :: "Payment \<Rightarrow> payment_row \<Rightarrow> Payment" where
  "created_payment p r = \<lparr>
     p_ID = pr_id r, p_IdempotencyKey = p_IdempotencyKey p,
     p_SourceChain = p_SourceChain p, p_DestinationChain = p_DestinationChain p,
     p_Asset = p_Asset p, p_Amount = numeric_text 18 (pr_amount r),
     p_Status = ROUTED, p_TotalFee = p_TotalFee p, p_Hops = p_Hops p,
     p_ExecutionMode = p_ExecutionMode p, p_BridgeProvider = p_BridgeProvider p,
     p_FailureReason = None, p_Quotes = [],
     p_CreatedAt = pr_created_at r, p_UpdatedAt = pr_updated_at r, p_CompletedAt = None\<rparr>"

definition CreateOrGetPayment :: "Payment \<Rightarrow> (Payment option \<times> CreateResult) res pr" where
  "CreateOrGetPayment p0 =
    (let p = p0\<lparr>p_ExecutionMode := normalizeExecutionMode (p_ExecutionMode p0)\<rparr> in
     tryp (findByIdempotencyKey p) (\<lambda>e. Done (Inl e))
       (\<lambda>r. case r of
          Some (existing, matches) \<Rightarrow> resolve_existing existing matches
        | None \<Rightarrow>
            tryp (sql (create_tx p)) (\<lambda>e. Done (Inl e))
              (\<lambda>c. case c of
                 Some row \<Rightarrow> Done (Inr (Some (created_payment p row), Created))
               | None \<Rightarrow>
                   tryp (wrapp ''rollback after lost race'' (sql_query (\<lambda>i d. Inr ()))) (\<lambda>e. Done (Inl e))
                     (\<lambda>_. tryp (findByIdempotencyKey p) (\<lambda>e. Done (Inl e))
                       (\<lambda>r. case r of
                          None \<Rightarrow> Done (Inl (Err ''idempotency key conflicted but no row found on re-read''))
                        | Some (existing, matches) \<Rightarrow> resolve_existing existing matches)))))"

section \<open>Status transitions\<close>

text \<open>
  \<open>UPDATE payments SET ... WHERE id = $1 AND status = $from\<close>, with the row it matched, as it was before.
\<close>

definition transition ::
    "string \<Rightarrow> Status \<Rightarrow> (time \<Rightarrow> payment_row \<Rightarrow> payment_row) \<Rightarrow> env \<Rightarrow> db \<Rightarrow> (payment_row option \<times> db) res" where
  "transition pid from upd i d =
    uuid_arg pid (\<lambda>u.
      let c = (\<lambda>r. pr_id r = u \<and> pr_status r = from) in
      Inr (sql_row (sql_select c (db_payments d)),
           d\<lparr>db_payments := sql_update c (upd (e_now i)) (db_payments d)\<rparr>))"

definition ClaimPayment :: "string \<Rightarrow> (bool \<times> ExecutionMode) res pr" where
  "ClaimPayment paymentID =
    tryp (sql (transition paymentID ROUTED (\<lambda>now r. r\<lparr>pr_status := PROCESSING, pr_updated_at := now\<rparr>)))
      (\<lambda>e. Done (Inl (Wrap ''claim payment'' e)))
      (\<lambda>r. case r of
         None \<Rightarrow> Done (Inr (False, ''''))
       | Some row \<Rightarrow> Done (Inr (True, pr_execution_mode row)))"

definition CompletePayment :: "string \<Rightarrow> Status \<Rightarrow> time option res pr" where
  "CompletePayment paymentID term =
    tryp (sql (transition paymentID PROCESSING
           (\<lambda>now r. r\<lparr>pr_status := term, pr_completed_at := Some now, pr_updated_at := now\<rparr>)))
      (\<lambda>e. Done (Inl (Wrap ''complete payment'' e)))
      (\<lambda>r. case r of
         None \<Rightarrow> Done (Inr None)
       | Some row \<Rightarrow> Done (Inr (Some (pr_created_at row))))"

definition StalePaymentIDs :: "time \<Rightarrow> string list res pr" where
  "StalePaymentIDs staleness =
    wrapp ''query stale payments'' (sql_query (\<lambda>i d.
      Inr (map pr_id (shuffle (e_order i) (sql_select
        (\<lambda>r. pr_status r = PROCESSING \<and> pr_execution_mode r = ExecutionModeSimulated \<and>
             pr_updated_at r < e_now i - staleness) (db_payments d))))))"

text \<open>
  \<open>SELECT execution_mode, COUNT(*) ... GROUP BY execution_mode\<close> into a map; a mode without rows is absent.
\<close>

definition in_flight :: "payment_row \<Rightarrow> bool" where
  "in_flight r \<longleftrightarrow> pr_status r \<in> {ROUTED, PROCESSING, SUBMITTED}"

definition CountInFlightPayments :: "(string \<rightharpoonup> nat) res pr" where
  "CountInFlightPayments =
    wrapp ''count in-flight payments'' (sql_query (\<lambda>i d.
      Inr (\<lambda>mode.
        let n = length (sql_select (\<lambda>r. in_flight r \<and> pr_execution_mode r = mode) (db_payments d))
        in if n = 0 then None else Some n)))"

section \<open>The outbox\<close>

record OutboxEvent =
  oe_ID :: string
  oe_PaymentID :: string
  oe_EventType :: string
  oe_Payload :: RoutedPayment

definition scan_outbox :: "outbox_row \<Rightarrow> OutboxEvent" where
  "scan_outbox o' = \<lparr>oe_ID = ob_id o', oe_PaymentID = ob_payment_id o',
     oe_EventType = ob_event_type o', oe_Payload = ob_payload o'\<rparr>"

text \<open>\<open>BeginTx\<close> and \<open>SELECT ... FOR UPDATE SKIP LOCKED\<close>: the oldest unpublished row nobody holds.\<close>

definition claim_outbox :: "env \<Rightarrow> db \<Rightarrow> ((OutboxEvent \<times> nat) option \<times> db) res" where
  "claim_outbox i d =
    (case sql_row (sort_key ob_created_at (shuffle (e_order i) (sql_select
            (\<lambda>o'. ob_published_at o' = None \<and> db_outbox_locks d (ob_id o') = None) (db_outbox d)))) of
       None \<Rightarrow> Inr (None, d)
     | Some o' \<Rightarrow> Inr (Some (scan_outbox o', db_next_tx d),
         d\<lparr>db_outbox_locks := (db_outbox_locks d)(ob_id o' \<mapsto> db_next_tx d), db_next_tx := Suc (db_next_tx d)\<rparr>))"

text \<open>The \<open>UPDATE\<close> and \<open>Commit\<close>: they fail when the server has already ended the transaction.\<close>

definition commit_outbox :: "string \<Rightarrow> nat \<Rightarrow> env \<Rightarrow> db \<Rightarrow> (unit \<times> db) res" where
  "commit_outbox oid tx i d =
    (if db_outbox_locks d oid \<noteq> Some tx then Inl (Err ''transaction is no longer open'')
     else Inr ((), d\<lparr>db_outbox := sql_update (\<lambda>o'. ob_id o' = oid) (\<lambda>o'. o'\<lparr>ob_published_at := Some (e_now i)\<rparr>) (db_outbox d),
                     db_outbox_locks := (db_outbox_locks d)(oid := None)\<rparr>))"

text \<open>The deferred \<open>tx.Rollback()\<close> after an error.\<close>

definition rollback_outbox :: "string \<Rightarrow> nat \<Rightarrow> world \<Rightarrow> world" where
  "rollback_outbox oid tx w =
    (if db_outbox_locks (w_db w) oid = Some tx
     then w\<lparr>w_db := (w_db w)\<lparr>db_outbox_locks := (db_outbox_locks (w_db w))(oid := None)\<rparr>\<rparr> else w)"

definition PublishNextOutboxEvent :: "(OutboxEvent \<Rightarrow> unit res pr) \<Rightarrow> bool res pr" where
  "PublishNextOutboxEvent publish =
    tryp (sql claim_outbox) (\<lambda>e. Done (Inl (Wrap ''claim outbox event'' e)))
      (\<lambda>c. case c of
         None \<Rightarrow> Done (Inr False)
       | Some (evt, tx) \<Rightarrow>
           tryp (publish evt)
             (\<lambda>e. Act (rollback_outbox (oe_ID evt) tx) (Done (Inl (Wrap ''publish outbox event'' e))))
             (\<lambda>_. tryp (sql (commit_outbox (oe_ID evt) tx))
                (\<lambda>e. Act (rollback_outbox (oe_ID evt) tx) (Done (Inl (Wrap ''commit outbox publish'' e))))
                (\<lambda>_. Done (Inr True))))"

end
