(* ===== verification/Execution_Store.thy ===== *)
theory Execution_Store
  imports Store
begin

text \<open>
  \<open>internal/postgres/execution_store.go\<close> and \<open>quote_store.go\<close>: the nonce allocation, the execution
  rows and the persisted quotes. Nonces are \<open>BIGINT\<close>: an increment past \<open>2^63 - 1\<close> is an error.
\<close>

section \<open>Wallet nonces and execution rows\<close>

definition SeedWalletNonce :: "string \<Rightarrow> int \<Rightarrow> unit res pr" where
  "SeedWalletNonce walletAddress initialNonce =
    wrapp ''seed wallet nonce'' (sql (\<lambda>i d.
      if \<not> int8_fits initialNonce then Inl (PgError ''22003'' '''')
      else Inr ((), case db_wallet_nonces d walletAddress of
        Some _ \<Rightarrow> d
      | None \<Rightarrow> d\<lparr>db_wallet_nonces := (db_wallet_nonces d)(walletAddress \<mapsto> initialNonce)\<rparr>)))"

record CreateExecutionParams =
  cp_PaymentID :: string
  cp_WalletAddress :: string
  cp_BridgeProvider :: string
  cp_OriginChainID :: int
  cp_DestinationChainID :: int

abbreviation executionExistsConstraint :: string where
  "executionExistsConstraint \<equiv> ''payment_executions_payment_id_key''"

definition new_execution :: "env \<Rightarrow> CreateExecutionParams \<Rightarrow> string \<Rightarrow> int \<Rightarrow> Execution" where
  "new_execution i p u nonce = \<lparr>
     x_ID = new_uuid i 0, x_PaymentID = u, x_BridgeProvider = cp_BridgeProvider p,
     x_OriginChainID = cp_OriginChainID p, x_DestinationChainID = cp_DestinationChainID p,
     x_WalletAddress = cp_WalletAddress p, x_Nonce = nonce,
     x_SignedTxHash = None, x_RawSignedTx = None, x_BroadcastAt = None, x_ProviderReferenceID = None,
     x_ExternalStatus = ExtPending, x_RawExternalStatus = None, x_ConfirmedAt = None,
     x_CreatedAt = e_now i, x_UpdatedAt = e_now i\<rparr>"

text \<open>
  The transaction of \<open>TryCreateExecution\<close>: allocate the nonce, insert the row. An error of either
  statement rolls both back. The foreign key to \<open>payments\<close> is checked after the unique indexes.
\<close>

definition create_execution_tx :: "CreateExecutionParams \<Rightarrow> env \<Rightarrow> db \<Rightarrow> (Execution \<times> db) res" where
  "create_execution_tx p i d =
    (case db_wallet_nonces d (cp_WalletAddress p) of
       None \<Rightarrow> Inl (Err ''wallet has no seeded wallet_nonces row -- SeedWalletNonce must run at worker startup before any execution is attempted'')
     | Some next \<Rightarrow>
         if \<not> int8_fits (next + 1) then Inl (Wrap ''allocate nonce'' (PgError ''22003'' ''''))
         else case uuid_in (cp_PaymentID p) of
           None \<Rightarrow> Inl (Wrap ''insert execution'' (PgError ''22P02'' ''''))
         | Some u \<Rightarrow>
            (let x = new_execution i p u next in
             if x_ID x \<in> x_ID ` set (db_executions d)
             then Inl (Wrap ''insert execution'' (PgError ''23505'' ''payment_executions_pkey''))
             else if \<exists>y \<in> set (db_executions d). x_WalletAddress y = cp_WalletAddress p \<and> x_Nonce y = next
             then Inl (Wrap ''insert execution'' (PgError ''23505'' ''payment_executions_wallet_address_nonce_key''))
             else if u \<in> x_PaymentID ` set (db_executions d)
             then Inl (Wrap ''insert execution'' (PgError ''23505'' executionExistsConstraint))
             else if u \<notin> pr_id ` set (db_payments d)
             then Inl (Wrap ''insert execution'' (PgError ''23503'' ''payment_executions_payment_id_fkey''))
             else Inr (x, d\<lparr>db_wallet_nonces := (db_wallet_nonces d)(cp_WalletAddress p \<mapsto> next + 1),
                            db_executions := db_executions d @ [x]\<rparr>)))"

text \<open>\<open>None\<close> is \<open>created = false\<close>. The struct carries the caller's \<open>PaymentID\<close>.\<close>

definition TryCreateExecution :: "CreateExecutionParams \<Rightarrow> Execution option res pr" where
  "TryCreateExecution p =
    tryp (sql (create_execution_tx p))
      (\<lambda>e. case as_pg_error e of
         Some (code, constraint) \<Rightarrow>
           if code = ''23505'' \<and> constraint = executionExistsConstraint then Done (Inr None) else Done (Inl e)
       | None \<Rightarrow> Done (Inl e))
      (\<lambda>x. Done (Inr (Some (x\<lparr>x_PaymentID := cp_PaymentID p\<rparr>))))"

definition GetExecutionByPaymentID :: "string \<Rightarrow> Execution option res pr" where
  "GetExecutionByPaymentID paymentID =
    wrapp ''get execution by payment id'' (sql_query (\<lambda>i d. uuid_arg paymentID (\<lambda>u.
      Inr (sql_row (sql_select (\<lambda>x. x_PaymentID x = u) (db_executions d))))))"

text \<open>\<open>UPDATE payment_executions SET ... WHERE id = $1\<close>.\<close>

definition update_execution ::
    "string \<Rightarrow> (time \<Rightarrow> Execution \<Rightarrow> Execution) \<Rightarrow> env \<Rightarrow> db \<Rightarrow> (unit \<times> db) res" where
  "update_execution xid upd i d =
    uuid_arg xid (\<lambda>u. Inr ((),
      d\<lparr>db_executions := sql_update (\<lambda>x. x_ID x = u) (upd (e_now i)) (db_executions d)\<rparr>))"

definition PersistSignedExecution :: "string \<Rightarrow> bytes \<Rightarrow> string \<Rightarrow> string option \<Rightarrow> unit res pr" where
  "PersistSignedExecution executionID rawTx txHash providerReferenceID =
    wrapp ''persist signed execution'' (sql (update_execution executionID (\<lambda>now x.
      x\<lparr>x_RawSignedTx := Some rawTx, x_SignedTxHash := Some txHash,
        x_ProviderReferenceID := providerReferenceID, x_UpdatedAt := now\<rparr>)))"

definition MarkExecutionBroadcast :: "string \<Rightarrow> unit res pr" where
  "MarkExecutionBroadcast executionID =
    wrapp ''mark execution broadcast'' (sql (update_execution executionID (\<lambda>now x.
      x\<lparr>x_BroadcastAt := Some now, x_UpdatedAt := now\<rparr>)))"

definition UpdateExecutionExternalStatus :: "string \<Rightarrow> ExternalStatus \<Rightarrow> string \<Rightarrow> time option \<Rightarrow> unit res pr" where
  "UpdateExecutionExternalStatus executionID status rawStatus confirmedAt =
    wrapp ''update execution external status'' (sql (update_execution executionID (\<lambda>now x.
      x\<lparr>x_ExternalStatus := status, x_RawExternalStatus := Some rawStatus,
        x_ConfirmedAt := confirmedAt, x_UpdatedAt := now\<rparr>)))"

definition MarkSubmitted :: "string \<Rightarrow> bool res pr" where
  "MarkSubmitted paymentID =
    tryp (sql (transition paymentID PROCESSING (\<lambda>now r. r\<lparr>pr_status := SUBMITTED, pr_updated_at := now\<rparr>)))
      (\<lambda>e. Done (Inl (Wrap ''mark submitted'' e)))
      (\<lambda>r. Done (Inr (r \<noteq> None)))"

definition CompleteSubmittedPayment :: "string \<Rightarrow> Status \<Rightarrow> time option res pr" where
  "CompleteSubmittedPayment paymentID term =
    tryp (sql (transition paymentID SUBMITTED
           (\<lambda>now r. r\<lparr>pr_status := term, pr_completed_at := Some now, pr_updated_at := now\<rparr>)))
      (\<lambda>e. Done (Inl (Wrap ''complete submitted payment'' e)))
      (\<lambda>r. case r of
         None \<Rightarrow> Done (Inr None)
       | Some row \<Rightarrow> Done (Inr (Some (pr_created_at row))))"

definition StaleTestnetProcessingWithoutExecutionIDs :: "time \<Rightarrow> string list res pr" where
  "StaleTestnetProcessingWithoutExecutionIDs staleness =
    wrapp ''query stale testnet processing'' (sql_query (\<lambda>i d.
      Inr (map pr_id (shuffle (e_order i) (sql_select
        (\<lambda>r. pr_execution_mode r = ExecutionModeTestnet \<and> pr_status r = PROCESSING \<and>
             pr_updated_at r < e_now i - staleness \<and>
             \<not> (\<exists>x \<in> set (db_executions d). x_PaymentID x = pr_id r)) (db_payments d))))))"

definition is_candidate :: "time \<Rightarrow> time \<Rightarrow> Execution \<Rightarrow> bool" where
  "is_candidate now staleness x \<longleftrightarrow>
     x_BroadcastAt x \<noteq> None \<and> x_ConfirmedAt x = None \<or>
     x_BroadcastAt x = None \<and> x_UpdatedAt x < now - staleness"

definition ReconciliationCandidates :: "time \<Rightarrow> Execution list res pr" where
  "ReconciliationCandidates staleness =
    wrapp ''query reconciliation candidates'' (sql_query (\<lambda>i d.
      Inr (shuffle (e_order i) (sql_select (is_candidate (e_now i) staleness) (db_executions d)))))"

text \<open>\<open>SELECT MIN(nonce)\<close>: \<open>NULL\<close> over no rows.\<close>

definition lowest_unconfirmed :: "string \<Rightarrow> db \<Rightarrow> int option" where
  "lowest_unconfirmed walletAddress d =
    (let ns = map x_Nonce (sql_select (\<lambda>x. x_WalletAddress x = walletAddress \<and> x_ConfirmedAt x = None) (db_executions d))
     in if ns = [] then None else Some (Min (set ns)))"

definition LowestUnconfirmedNonce :: "string \<Rightarrow> int option res pr" where
  "LowestUnconfirmedNonce walletAddress =
    wrapp ''lowest unconfirmed nonce'' (sql_query (\<lambda>i d. Inr (lowest_unconfirmed walletAddress d)))"

section \<open>Persisted quotes\<close>

definition scan_quote :: "quote_row \<Rightarrow> Quote" where
  "scan_quote r = \<lparr>
     q_ID = qr_id r, q_PaymentID = qr_payment_id r, q_Provider = qr_provider r,
     q_OriginChainID = qr_origin_chain_id r, q_DestinationChainID = qr_destination_chain_id r,
     q_Asset = qr_asset r, q_InputAmount = numeric_text 0 (qr_input_amount r),
     q_OutputAmount = numeric_text 0 (qr_output_amount r), q_FeeAmount = numeric_text 0 (qr_fee_amount r),
     q_EstimatedFillTimeSec = qr_estimated_fill_time_sec r,
     q_QuotedAt = qr_quoted_at r, q_ExpiresAt = qr_expires_at r,
     q_RawProviderPayload = qr_raw_provider_payload r, q_Selected = qr_selected r,
     q_CreatedAt = qr_created_at r\<rparr>"

definition GetQuoteByPaymentID :: "string \<Rightarrow> Quote option res pr" where
  "GetQuoteByPaymentID paymentID =
    wrapp ''get quote by payment id'' (sql_query (\<lambda>i d. uuid_arg paymentID (\<lambda>u.
      Inr (map_option scan_quote
        (sql_row (sql_select (\<lambda>r. qr_payment_id r = u \<and> qr_selected r) (db_quotes d)))))))"

text \<open>\<open>ORDER BY selected DESC, provider\<close>; the text order of the provider names is the byte order.\<close>

definition quote_before :: "Quote \<Rightarrow> Quote \<Rightarrow> bool" where
  "quote_before a b \<longleftrightarrow>
     q_Selected a \<and> \<not> q_Selected b \<or>
     q_Selected a = q_Selected b \<and>
       ord_class.lexordp_eq (map of_char (q_Provider a) :: nat list) (map of_char (q_Provider b))"

definition insert_quote_sorted :: "Quote \<Rightarrow> Quote list \<Rightarrow> Quote list" where
  "insert_quote_sorted q qs = takeWhile (\<lambda>r. quote_before r q) qs @ q # dropWhile (\<lambda>r. quote_before r q) qs"

definition GetQuotesByPaymentID :: "string \<Rightarrow> Quote list res pr" where
  "GetQuotesByPaymentID paymentID =
    wrapp ''get quotes by payment id'' (sql_query (\<lambda>i d. uuid_arg paymentID (\<lambda>u.
      Inr (fold insert_quote_sorted (map scan_quote (sql_select (\<lambda>r. qr_payment_id r = u) (db_quotes d))) []))))"

definition MarkProcessingFailed :: "string \<Rightarrow> string \<Rightarrow> bool res pr" where
  "MarkProcessingFailed paymentID reason =
    tryp (sql (transition paymentID PROCESSING
           (\<lambda>now r. r\<lparr>pr_status := FAILED, pr_failure_reason := Some reason, pr_updated_at := now\<rparr>)))
      (\<lambda>e. Done (Inl (Wrap ''mark processing failed'' e)))
      (\<lambda>r. Done (Inr (r \<noteq> None)))"

end
