(* ===== verification/Observability.thy ===== *)
theory Observability
  imports Store
begin

text \<open>
  \<open>internal/observability\<close>: the provider label filter of \<open>metrics.go\<close> and the in-flight gauge of
  \<open>inflight_collector.go\<close>, which reads the database on every scrape.
\<close>

definition knownProviders :: "string list" where
  "knownProviders = [''across'', ''relay'']"

definition SanitizeProviderLabel :: "string \<Rightarrow> string" where
  "SanitizeProviderLabel name = (if name \<in> set knownProviders then name else ''unknown'')"

definition knownExecutionModes :: "ExecutionMode list" where
  "knownExecutionModes = [ExecutionModeSimulated, ExecutionModeTestnet]"

text \<open>\<open>Collect\<close>: the samples sent to the channel, one per known mode, none when the query failed.\<close>

definition Collect :: "(string \<times> nat) list pr" where
  "Collect = tryp CountInFlightPayments (\<lambda>e. Done [])
     (\<lambda>counts. Done (map (\<lambda>mode. (mode, case counts mode of None \<Rightarrow> 0 | Some n \<Rightarrow> n)) knownExecutionModes))"

lemma SanitizeProviderLabel_bounded: "SanitizeProviderLabel name \<in> {''across'', ''relay'', ''unknown''}"
  by (simp add: SanitizeProviderLabel_def knownProviders_def)

end
