(* ===== verification/Go_Json.thy ===== *)
theory Go_Json
  imports Payment_Model Go_Lib
begin

text \<open>
  Decoding a JSON document into a struct, as \<open>encoding/json\<close> does it: a key selects the field whose
  name it equals up to letter case, later keys overwrite earlier ones, \<open>null\<close> leaves a field as it
  is, unknown keys are ignored, and a value of the wrong kind makes \<open>Unmarshal\<close> return an error.
  A missing field keeps its zero value. Decoding \<open>null\<close> into a struct is a no-op.
\<close>

definition lower_char :: "char \<Rightarrow> char" where
  "lower_char c = (let n = of_char c :: nat in if 65 \<le> n \<and> n \<le> 90 then char_of (n + 32) else c)"

definition ToLower :: "string \<Rightarrow> string" where
  "ToLower s = map lower_char s"

definition type_error :: err where
  "type_error = Err ''json: cannot unmarshal value into Go struct field''"

definition field_values :: "string \<Rightarrow> json \<Rightarrow> json list res" where
  "field_values name j = (case j of
      JNull \<Rightarrow> Inr []
    | JObj kvs \<Rightarrow> Inr (map snd (filter (\<lambda>(k, v). ToLower k = ToLower name) kvs))
    | _ \<Rightarrow> Inl type_error)"

primrec decode_string :: "string \<Rightarrow> json list \<Rightarrow> string res" where
  "decode_string z [] = Inr z"
| "decode_string z (v # vs) = (case v of
      JStr t \<Rightarrow> decode_string t vs
    | JNull \<Rightarrow> decode_string z vs
    | _ \<Rightarrow> Inl type_error)"

definition string_field :: "string \<Rightarrow> json \<Rightarrow> string res" where
  "string_field name j = (case field_values name j of Inl e \<Rightarrow> Inl e | Inr vs \<Rightarrow> decode_string '''' vs)"

text \<open>A document with one key is read back under any spelling of the key.\<close>

lemma string_field_single: "ToLower k = ToLower name \<Longrightarrow> string_field name (JObj [(k, JStr s)]) = Inr s"
  by (simp add: string_field_def field_values_def)


section \<open>Decoding into a value\<close>

text \<open>
  A decoder takes the document and the value it is decoded into. \<open>dec_struct\<close> walks the keys of an
  object in order and decodes each into the field it selects, so that a repeated key decodes into
  what the earlier one left; \<open>fld\<close> makes a field out of its selector and its update. \<open>Unmarshal\<close> goes
  on after a value of the wrong kind and returns the first such error at the end; every caller drops
  the value then, so the decoders stop at once. An array is decoded element by element into the
  elements that are there, and zero values beyond them; \<open>null\<close> makes a slice empty. An integer field
  takes a number literal that is an integer of its width.
\<close>

type_synonym 'a decoder = "json \<Rightarrow> 'a \<Rightarrow> 'a res"

fun dec_string :: "string decoder" where
  "dec_string (JStr t) z = Inr t"
| "dec_string JNull z = Inr z"
| "dec_string _ z = Inl type_error"

fun dec_bool :: "bool decoder" where
  "dec_bool (JBool b) z = Inr b"
| "dec_bool JNull z = Inr z"
| "dec_bool _ z = Inl type_error"

definition int64_ok :: "int \<Rightarrow> bool" where
  "int64_ok n \<longleftrightarrow> - (2 ^ 63) \<le> n \<and> n < 2 ^ 63"

text \<open>\<open>strconv.ParseInt(s, 10, 64)\<close>.\<close>

definition ParseInt64 :: "string \<Rightarrow> int option" where
  "ParseInt64 s = (case SetString10 s of
      None \<Rightarrow> None
    | Some n \<Rightarrow> if int64_ok n then Some n else None)"

fun dec_int64 :: "int decoder" where
  "dec_int64 (JNum lit) z = (case ParseInt64 lit of None \<Rightarrow> Inl type_error | Some n \<Rightarrow> Inr n)"
| "dec_int64 JNull z = Inr z"
| "dec_int64 _ z = Inl type_error"

fun dec_elems :: "'a decoder \<Rightarrow> 'a \<Rightarrow> json list \<Rightarrow> 'a list \<Rightarrow> 'a list res" where
  "dec_elems d zero [] old = Inr []"
| "dec_elems d zero (j # js) old =
    (case d j (case old of [] \<Rightarrow> zero | x # _ \<Rightarrow> x) of
       Inl e \<Rightarrow> Inl e
     | Inr x \<Rightarrow> map_sum id ((#) x) (dec_elems d zero js (tl old)))"

fun dec_list :: "'a decoder \<Rightarrow> 'a \<Rightarrow> 'a list decoder" where
  "dec_list d zero (JArr js) z = dec_elems d zero js z"
| "dec_list d zero JNull z = Inr []"
| "dec_list d zero _ z = Inl type_error"

definition fld :: "('r \<Rightarrow> 'a) \<Rightarrow> (('a \<Rightarrow> 'a) \<Rightarrow> 'r \<Rightarrow> 'r) \<Rightarrow> 'a decoder \<Rightarrow> 'r decoder" where
  "fld get upd d j r = map_sum id (\<lambda>v. upd (\<lambda>_. v) r) (d j (get r))"

fun dec_keys :: "(string \<times> 'r decoder) list \<Rightarrow> (string \<times> json) list \<Rightarrow> 'r \<Rightarrow> 'r res" where
  "dec_keys fs [] r = Inr r"
| "dec_keys fs ((k, v) # kvs) r =
    (case find (\<lambda>(n, _). ToLower n = ToLower k) fs of
       None \<Rightarrow> dec_keys fs kvs r
     | Some (_, d) \<Rightarrow> (case d v r of Inl e \<Rightarrow> Inl e | Inr r' \<Rightarrow> dec_keys fs kvs r'))"

fun dec_struct :: "(string \<times> 'r decoder) list \<Rightarrow> 'r decoder" where
  "dec_struct fs (JObj kvs) r = dec_keys fs kvs r"
| "dec_struct fs JNull r = Inr r"
| "dec_struct fs _ r = Inl type_error"

text \<open>\<open>strconv.FormatInt(n, 10)\<close> and an integer in a marshalled document; both read back.\<close>

lemma ParseInt64_Int_String [simp]: "ParseInt64 (Int_String n) = (if int64_ok n then Some n else None)"
  by (simp add: ParseInt64_def)

lemma dec_int64_Int_String [simp]: "int64_ok n \<Longrightarrow> dec_int64 (JNum (Int_String n)) z = Inr n"
  by simp

text \<open>A condition that every field keeps holds of the decoded struct.\<close>

lemma dec_struct_keeps:
  assumes "\<And>n d j r r'. (n, d) \<in> set fs \<Longrightarrow> P r \<Longrightarrow> d j r = Inr r' \<Longrightarrow> P r'"
    and "P r" "dec_struct fs j r = Inr r'"
  shows "P r'"
proof -
  have keys: "P r \<Longrightarrow> dec_keys fs kvs r = Inr r' \<Longrightarrow> P r'" for kvs r r'
  proof (induction kvs arbitrary: r)
    case (Cons kv kvs)
    obtain k v where kv: "kv = (k, v)" by (cases kv)
    show ?case
    proof (cases "find (\<lambda>(n, _). ToLower n = ToLower k) fs")
      case None
      with Cons kv show ?thesis by simp
    next
      case (Some nd)
      then obtain n d where nd: "nd = (n, d)" "(n, d) \<in> set fs" by (cases nd) (metis find_Some_iff nth_mem)
      with Cons.prems Some kv obtain r1 where "d v r = Inr r1" "dec_keys fs kvs r1 = Inr r'"
        by (auto split: sum.splits)
      with assms(1) [OF nd(2) Cons.prems(1)] Cons.IH show ?thesis by blast
    qed
  qed simp
  show ?thesis using assms(2,3) keys by (cases j) auto
qed

lemma fld_Inr: "fld get upd d j r = Inr r' \<longleftrightarrow> (\<exists>v. d j (get r) = Inr v \<and> r' = upd (\<lambda>_. v) r)"
  by (cases "d j (get r)") (auto simp: fld_def)

end
