(* ===== verification/Executor.thy ===== *)
theory Executor
  imports Execution_Store Observability Go_Json
begin

text \<open>
  \<open>internal/worker/executor.go\<close>: drives one testnet payment from PROCESSING to a broadcast
  transaction. Measured durations are not modelled, so \<open>start := time.Now()\<close> is dropped; the clock
  is read where the code compares it with the quote's expiry.
\<close>

text \<open>Reading an answer of the environment that leaves no mark.\<close>

definition ask_env :: "(env \<Rightarrow> 'a) \<Rightarrow> 'a pr" where
  "ask_env f = Ask (\<lambda>i w. w) (\<lambda>i w. Done (f i))"

abbreviation wethDecimals :: "8 word" where
  "wethDecimals \<equiv> 18"

abbreviation NotFound :: err where
  "NotFound \<equiv> Err ''not found''"

text \<open>
  The configuration of \<open>cmd/worker\<close>: the maps are keyed by provider name. A nil \<open>MaxAmountWei\<close> is \<open>None\<close>.
\<close>

record Executor =
  ex_Geth :: Geth
  ex_Wallet :: Wallet
  ex_QuoteProviders :: "string \<rightharpoonup> env Provider"
  ex_Signers :: "string \<rightharpoonup> env Signer"
  ex_ExpectedContractByProvider :: "string \<rightharpoonup> address"
  ex_MaxFeeSlippageBps :: int
  ex_OriginChainID :: int
  ex_DestChainID :: int
  ex_MaxAmountWei :: "int option"

definition exceedsSlippageTolerance :: "string \<Rightarrow> int \<Rightarrow> int \<Rightarrow> bool" where
  "exceedsSlippageTolerance baselineFeeDecimal freshFee toleranceBps =
    (case SetString10 baselineFeeDecimal of
       None \<Rightarrow> freshFee > 0
     | Some baseline \<Rightarrow>
         if baseline = 0 then freshFee > baseline
         else if freshFee \<le> baseline then False
         else (freshFee - baseline) * 10000 > baseline * toleranceBps)"

text \<open>
  A nil \<open>FeeBaseUnits\<close> would be a nil-pointer panic inside \<open>exceedsSlippageTolerance\<close>; the model ends the
  call with this error instead.
\<close>

definition nil_panic :: err where
  "nil_panic = Err ''runtime error: invalid memory address or nil pointer dereference''"

definition validateEnvelope :: "Executor \<Rightarrow> TxEnvelope \<Rightarrow> Quote \<Rightarrow> BQuote \<Rightarrow> unit res" where
  "validateEnvelope e envelope quoteRow freshQuote =
    (if b_ProviderName freshQuote \<noteq> q_Provider quoteRow
     then Inl (Err ''fresh quote provider does not match persisted provider'')
     else if te_ChainID envelope \<noteq> ex_OriginChainID e
     then Inl (Err ''envelope chainId does not match configured origin chain'')
     else if ex_ExpectedContractByProvider e (q_Provider quoteRow) \<noteq> Some (te_To envelope)
     then Inl (Err ''envelope target does not match the pinned contract for provider'')
     else if te_Value envelope = None \<or> b_InputAmountBaseUnits freshQuote = None \<or>
             te_Value envelope \<noteq> b_InputAmountBaseUnits freshQuote
     then Inl (Err ''envelope value does not match the validated input amount'')
     else Inr ())"

definition buildValidatedEnvelope :: "Executor \<Rightarrow> string \<Rightarrow> Quote \<Rightarrow> BQuote \<Rightarrow> TxEnvelope res" where
  "buildValidatedEnvelope e idForErrors quoteRow freshQuote =
    (case ex_Signers e (q_Provider quoteRow) of
       None \<Rightarrow> Inl (Err ''uses a provider this worker has no configured signer for'')
     | Some signer \<Rightarrow>
        (case sg_BuildTransaction signer freshQuote of
           Inl err \<Rightarrow> Inl (Wrap ''build transaction'' err)
         | Inr envelope \<Rightarrow>
            (case validateEnvelope e envelope quoteRow freshQuote of
               Inl err \<Rightarrow> Inl (Wrap idForErrors err)
             | Inr _ \<Rightarrow> Inr envelope)))"

definition extractProviderReferenceID :: "BQuote \<Rightarrow> string option" where
  "extractProviderReferenceID freshQuote =
    (if b_ProviderName freshQuote \<noteq> ''relay'' then None
     else case b_RawProviderPayload freshQuote of
       None \<Rightarrow> None
     | Some j \<Rightarrow>
        (case string_field ''requestId'' j of
           Inl _ \<Rightarrow> None
         | Inr requestID \<Rightarrow> if requestID = '''' then None else Some requestID))"

definition broadcastWithRecovery :: "Executor \<Rightarrow> Execution \<Rightarrow> bool res pr" where
  "broadcastWithRecovery e exec =
    (case (x_SignedTxHash exec, x_RawSignedTx exec) of
       (Some signedTxHash, Some rawSignedTx) \<Rightarrow>
         (let hash = g_HexToHash (ex_Geth e) signedTxHash in
          bindp (call_out e_lookup (EvLookup hash)) (\<lambda>r.
            case r of
              Inr _ \<Rightarrow> Done (Inr False)
            | Inl err \<Rightarrow>
                if \<not> err_is err NotFound then Done (Inl (Wrap ''check transaction on chain'' err))
                else case g_UnmarshalBinary (ex_Geth e) rawSignedTx of
                  Inl err \<Rightarrow> Done (Inl (Wrap ''unmarshal persisted signed tx'' err))
                | Inr tx \<Rightarrow>
                    tryp (call_out e_send (EvSend tx))
                      (\<lambda>err. Done (Inl (Wrap ''send transaction'' err)))
                      (\<lambda>_. Done (Inr True))))
     | _ \<Rightarrow> Done (Inl (Err ''execution has no signed transaction to broadcast'')))"

text \<open>The transaction \<open>signAndBroadcastFresh\<close> builds; \<open>types.NewTx\<close> reads a nil value as zero.\<close>

definition unsigned_tx :: "Execution \<Rightarrow> TxEnvelope \<Rightarrow> 64 word \<Rightarrow> int \<Rightarrow> LegacyTx" where
  "unsigned_tx exec envelope gasLimit gasPrice = \<lparr>
     lt_Nonce = word_of_int (x_Nonce exec), lt_To = te_To envelope,
     lt_Value = (case te_Value envelope of None \<Rightarrow> 0 | Some v \<Rightarrow> v),
     lt_Gas = gasLimit, lt_GasPrice = gasPrice, lt_Data = te_Data envelope\<rparr>"

abbreviation fallbackGasLimit :: "64 word" where
  "fallbackGasLimit \<equiv> 500000"

text \<open>
  The common tail of a signed execution (\<open>signAndBroadcastFresh\<close> after the broadcast, and the
  already-signed branch of \<open>DriveExecutionForward\<close>): \<open>broadcast_at\<close>, then \<open>SUBMITTED\<close>; the first wraps the last
  error, the second returns it as it is.
\<close>

definition mark_broadcast_submitted :: "(err \<Rightarrow> err) \<Rightarrow> Execution \<Rightarrow> unit res pr" where
  "mark_broadcast_submitted wrap exec =
    tryp (MarkExecutionBroadcast (x_ID exec)) (\<lambda>err. Done (Inl (Wrap ''mark execution broadcast'' err)))
      (\<lambda>_. tryp (MarkSubmitted (x_PaymentID exec)) (\<lambda>err. Done (Inl (wrap err))) (\<lambda>_. Done (Inr ())))"

definition signAndBroadcastFresh :: "Executor \<Rightarrow> Execution \<Rightarrow> TxEnvelope \<Rightarrow> BQuote \<Rightarrow> string \<Rightarrow> unit res pr" where
  "signAndBroadcastFresh e exec envelope freshQuote providerLabel =
    tryp (ask_env e_gas_price) (\<lambda>err. Done (Inl (Wrap ''suggest gas price'' err))) (\<lambda>gasPrice.
    bindp (ask_env e_gas_limit) (\<lambda>estimate.
    let gasLimit = (case estimate of Inl _ \<Rightarrow> fallbackGasLimit | Inr g \<Rightarrow> g);
        unsignedTx = unsigned_tx exec envelope gasLimit gasPrice
    in case SignTx (ex_Geth e) (ex_Wallet e) unsignedTx (te_ChainID envelope) of
         Inl err \<Rightarrow> Done (Inl (Wrap ''sign tx for execution'' err))
       | Inr signedTx \<Rightarrow>
        (case g_MarshalBinary (ex_Geth e) signedTx of
           Inl err \<Rightarrow> Done (Inl (Wrap ''marshal signed tx'' err))
         | Inr rawTx \<Rightarrow>
            (let hash = g_HashHex (ex_Geth e) (g_Hash (ex_Geth e) signedTx);
                 providerReferenceID = extractProviderReferenceID freshQuote
             in tryp (PersistSignedExecution (x_ID exec) rawTx hash providerReferenceID)
                  (\<lambda>err. Done (Inl (Wrap ''persist signed execution'' err)))
                  (\<lambda>_.
             let exec' = exec\<lparr>x_SignedTxHash := Some hash, x_RawSignedTx := Some rawTx\<rparr> in
             tryp (broadcastWithRecovery e exec') (\<lambda>err. Done (Inl (Wrap ''broadcast execution'' err))) (\<lambda>sent.
             bindp (if sent then Inc ''Broadcasts'' [providerLabel] else Done ()) (\<lambda>_.
             mark_broadcast_submitted (Wrap ''mark payment submitted'') exec')))))))"

text \<open>The block that fails a payment before any nonce is allocated.\<close>

definition fail_payment :: "string \<Rightarrow> string \<Rightarrow> string \<Rightarrow> string \<Rightarrow> unit res pr" where
  "fail_payment paymentID providerLabel class reason =
    bindp (Inc ''ExecutionsFailed'' [providerLabel, class]) (\<lambda>_.
    tryp (MarkProcessingFailed paymentID reason) (\<lambda>err. Done (Inl (Wrap ''mark payment failed'' err)))
      (\<lambda>_. Done (Inr ())))"

definition get_quote :: "env Provider \<Rightarrow> Request \<Rightarrow> BQuote res pr" where
  "get_quote provider req = call_out (\<lambda>i. pv_GetQuote provider i req) (EvQuote (pv_Name provider) req)"

definition quote_request :: "Quote \<Rightarrow> int \<Rightarrow> Request" where
  "quote_request quoteRow inputAmount = \<lparr>
     rq_SourceChainID = q_OriginChainID quoteRow, rq_DestinationChainID = q_DestinationChainID quoteRow,
     rq_Asset = q_Asset quoteRow, rq_AmountBaseUnits = inputAmount\<rparr>"

text \<open>\<open>e.MaxAmountWei != nil && inputAmount.Cmp(e.MaxAmountWei) > 0\<close>.\<close>

definition exceeds_guardrail :: "Executor \<Rightarrow> int \<Rightarrow> bool" where
  "exceeds_guardrail e inputAmount = (case ex_MaxAmountWei e of None \<Rightarrow> False | Some m \<Rightarrow> inputAmount > m)"

text \<open>Signing and broadcasting, with the counters around it.\<close>

definition run_signed :: "Executor \<Rightarrow> Execution \<Rightarrow> TxEnvelope \<Rightarrow> BQuote \<Rightarrow> string \<Rightarrow> unit res pr" where
  "run_signed e exec envelope freshQuote providerLabel =
    bindp (signAndBroadcastFresh e exec envelope freshQuote providerLabel) (\<lambda>r.
    bindp (Observe ''ExecutionDuration'' [providerLabel]) (\<lambda>_.
    case r of
      Inl err \<Rightarrow> bindp (Inc ''ExecutionsFailed'' [providerLabel, ''broadcast_error'']) (\<lambda>_. Done (Inl err))
    | Inr _ \<Rightarrow> Done (Inr ())))"

text \<open>\<open>ExecuteTestnetPayment\<close> once the fresh quote is known: the checks, then the nonce, then the signature.\<close>

definition execute_fresh :: "Executor \<Rightarrow> string \<Rightarrow> Quote \<Rightarrow> int \<Rightarrow> BQuote \<Rightarrow> unit res pr" where
  "execute_fresh e paymentID quoteRow inputAmount freshQuote =
    (let providerLabel = SanitizeProviderLabel (q_Provider quoteRow) in
     if \<not> b_Available freshQuote then fail_payment paymentID providerLabel ''route_unavailable'' ''route_unavailable''
     else case b_FeeBaseUnits freshQuote of
       None \<Rightarrow> Done (Inl nil_panic)
     | Some freshFee \<Rightarrow>
         if exceedsSlippageTolerance (q_FeeAmount quoteRow) freshFee (ex_MaxFeeSlippageBps e)
         then fail_payment paymentID providerLabel ''slippage_exceeded'' ''fee_slippage_exceeded''
         else if exceeds_guardrail e inputAmount
         then fail_payment paymentID providerLabel ''amount_exceeds_guardrail'' ''amount_exceeds_guardrail''
         else case buildValidatedEnvelope e paymentID quoteRow freshQuote of
           Inl err \<Rightarrow> bindp (Inc ''ExecutionsFailed'' [providerLabel, ''envelope_invalid'']) (\<lambda>_. Done (Inl err))
         | Inr envelope \<Rightarrow>
             tryp (TryCreateExecution \<lparr>cp_PaymentID = paymentID,
                     cp_WalletAddress = g_AddressHex (ex_Geth e) (wl_Address (ex_Wallet e)),
                     cp_BridgeProvider = q_Provider quoteRow,
                     cp_OriginChainID = ex_OriginChainID e, cp_DestinationChainID = ex_DestChainID e\<rparr>)
               (\<lambda>err. Done (Inl (Wrap ''try create execution'' err)))
               (\<lambda>created. case created of
                  None \<Rightarrow> Done (Inr ())
                | Some exec \<Rightarrow>
                    bindp (Inc ''ExecutionAttempts'' [providerLabel]) (\<lambda>_.
                    run_signed e exec envelope freshQuote providerLabel)))"

text \<open>The steps both entry points share: the payment's amount and a fresh quote for it.\<close>

definition with_fresh_quote ::
    "string \<Rightarrow> Quote \<Rightarrow> env Provider \<Rightarrow> (int \<Rightarrow> BQuote \<Rightarrow> unit res pr) \<Rightarrow> unit res pr" where
  "with_fresh_quote paymentID quoteRow provider k =
    tryp (GetPayment paymentID) (\<lambda>err. Done (Inl (Wrap ''get payment'' err)))
      (\<lambda>r. case r of
         None \<Rightarrow> Done (Inl (Err ''payment not found''))
       | Some p \<Rightarrow>
          (case DecimalToBaseUnits (p_Amount p) wethDecimals of
             Inl err \<Rightarrow> Done (Inl (Wrap ''convert amount'' err))
           | Inr inputAmount \<Rightarrow>
               tryp (get_quote provider (quote_request quoteRow inputAmount))
                 (\<lambda>err. Done (Inl (Wrap ''fetch fresh quote'' err)))
                 (\<lambda>freshQuote. k inputAmount freshQuote)))"

definition ExecuteTestnetPayment :: "Executor \<Rightarrow> string \<Rightarrow> unit res pr" where
  "ExecuteTestnetPayment e paymentID =
    tryp (GetQuoteByPaymentID paymentID) (\<lambda>err. Done (Inl (Wrap ''get quote for payment'' err)))
      (\<lambda>r. case r of
         None \<Rightarrow> Done (Inl (Err ''payment has no payment_quotes row -- cannot execute without a selected route''))
       | Some quoteRow \<Rightarrow>
           bindp Now (\<lambda>now.
           if q_ExpiresAt quoteRow < now
           then fail_payment paymentID (SanitizeProviderLabel (q_Provider quoteRow)) ''quote_expired'' ''routing_quote_expired''
           else case ex_QuoteProviders e (q_Provider quoteRow) of
             None \<Rightarrow> Done (Inl (Err ''payment uses a provider this worker has no configured client for -- refusing to substitute a different provider''))
           | Some provider \<Rightarrow>
               with_fresh_quote paymentID quoteRow provider (execute_fresh e paymentID quoteRow)))"

text \<open>\<open>DriveExecutionForward\<close>, the unsigned row once the fresh quote is known.\<close>

definition drive_fresh :: "Executor \<Rightarrow> Execution \<Rightarrow> Quote \<Rightarrow> int \<Rightarrow> BQuote \<Rightarrow> unit res pr" where
  "drive_fresh e exec quoteRow inputAmount freshQuote =
    (let providerLabel = SanitizeProviderLabel (x_BridgeProvider exec) in
     if \<not> b_Available freshQuote
     then bindp (Inc ''ExecutionsFailed'' [providerLabel, ''slippage_exceeded'']) (\<lambda>_. Done (Inr ()))
     else case b_FeeBaseUnits freshQuote of
       None \<Rightarrow> Done (Inl nil_panic)
     | Some freshFee \<Rightarrow>
         if exceedsSlippageTolerance (q_FeeAmount quoteRow) freshFee (ex_MaxFeeSlippageBps e)
         then bindp (Inc ''ExecutionsFailed'' [providerLabel, ''slippage_exceeded'']) (\<lambda>_. Done (Inr ()))
         else if exceeds_guardrail e inputAmount
         then fail_payment (x_PaymentID exec) providerLabel ''amount_exceeds_guardrail'' ''amount_exceeds_guardrail''
         else case buildValidatedEnvelope e (x_ID exec) quoteRow freshQuote of
           Inl err \<Rightarrow> bindp (Inc ''ExecutionsFailed'' [providerLabel, ''envelope_invalid'']) (\<lambda>_. Done (Inl err))
         | Inr envelope \<Rightarrow> run_signed e exec envelope freshQuote providerLabel)"

definition drive_signed :: "Executor \<Rightarrow> Execution \<Rightarrow> unit res pr" where
  "drive_signed e exec =
    (let providerLabel = SanitizeProviderLabel (x_BridgeProvider exec) in
     tryp (broadcastWithRecovery e exec)
       (\<lambda>err. bindp (Inc ''ExecutionsFailed'' [providerLabel, ''broadcast_error''])
          (\<lambda>_. Done (Inl (Wrap ''broadcast execution'' err))))
       (\<lambda>sent. bindp (if sent then bindp (Inc ''Broadcasts'' [providerLabel])
                                     (\<lambda>_. Observe ''ExecutionDuration'' [providerLabel])
                      else Done ())
          (\<lambda>_. mark_broadcast_submitted (\<lambda>err. err) exec)))"

definition drive_unsigned :: "Executor \<Rightarrow> Execution \<Rightarrow> unit res pr" where
  "drive_unsigned e exec =
    tryp (GetQuoteByPaymentID (x_PaymentID exec)) (\<lambda>err. Done (Inl (Wrap ''get quote for payment'' err)))
      (\<lambda>r. case r of
         None \<Rightarrow> Done (Inl (Err ''payment has no payment_quotes row -- cannot resume execution without a selected route''))
       | Some quoteRow \<Rightarrow>
           bindp Now (\<lambda>now.
           if q_ExpiresAt quoteRow < now
           then fail_payment (x_PaymentID exec) (SanitizeProviderLabel (x_BridgeProvider exec)) ''quote_expired'' ''routing_quote_expired''
           else case ex_QuoteProviders e (q_Provider quoteRow) of
             None \<Rightarrow> Done (Inl (Err ''payment uses a provider this worker has no configured client for''))
           | Some provider \<Rightarrow>
               with_fresh_quote (x_PaymentID exec) quoteRow provider (drive_fresh e exec quoteRow)))"

definition DriveExecutionForward :: "Executor \<Rightarrow> Execution \<Rightarrow> unit res pr" where
  "DriveExecutionForward e exec =
    (if x_SignedTxHash exec \<noteq> None then drive_signed e exec else drive_unsigned e exec)"

end
