(* ===== verification/Sim_Execution.thy ===== *)
theory Sim_Execution
  imports Prelude
begin

text \<open>
  Package \<open>execution\<close> (\<open>internal/execution/execution.go\<close>): the deterministic stand-in for a payment
  executor. \<open>fnv.New64a\<close>, \<open>Write\<close> and \<open>Sum64\<close> of Go's \<open>hash/fnv\<close> are the 64-bit FNV-1a hash: the state
  starts at the offset basis, and each byte is XORed in before a wrapping multiplication by the
  FNV prime.
\<close>

unbundle bit_operations_syntax

definition fnv_offset64 :: "64 word" where
  "fnv_offset64 = 14695981039346656037"

definition fnv_prime64 :: "64 word" where
  "fnv_prime64 = 1099511628211"

definition fnv1a_byte :: "64 word \<Rightarrow> char \<Rightarrow> 64 word" where
  "fnv1a_byte h c = (h XOR of_char c) * fnv_prime64"

definition Sum64a :: "string \<Rightarrow> 64 word" where
  "Sum64a s = foldl fnv1a_byte fnv_offset64 s"

record Result =
  r_Success :: bool
  r_Reason :: string

definition Execute :: "string \<Rightarrow> Result" where
  "Execute paymentID =
    (if Sum64a paymentID mod 10 = 0
     then \<lparr>r_Success = False, r_Reason = ''simulated execution failure''\<rparr>
     else \<lparr>r_Success = True, r_Reason = ''''\<rparr>)"

text \<open>The hash can be fed in any number of writes: hashing is a fold over the bytes.\<close>

lemma Sum64a_append: "foldl fnv1a_byte (Sum64a s) t = Sum64a (s @ t)"
  by (simp add: Sum64a_def)

text \<open>A result is a failure exactly when it carries a reason.\<close>

lemma Execute_reason: "r_Success (Execute p) \<longleftrightarrow> r_Reason (Execute p) = ''''"
  by (simp add: Execute_def)

end
