(* ===== verification/Worker.thy ===== *)
theory Worker
  imports Executor Sim_Execution
begin

text \<open>
  The other goroutines of \<open>cmd/worker\<close>: the event handler (\<open>processor.go\<close>), the recovery sweep
  (\<open>recovery.go\<close>), the outbox publisher (\<open>publisher.go\<close>) and the reconciler (\<open>reconciler.go\<close>), and the
  body of the consume loop of \<open>cmd/worker/main.go\<close>. The endless loops around them are in \<open>Loops\<close>; a
  context timeout is a failing call.
\<close>

section \<open>Simulated execution of a payment\<close>

definition outcome_status :: "string \<Rightarrow> Status" where
  "outcome_status paymentID = (if r_Success (Execute paymentID) then COMPLETED else FAILED)"

definition outcome_label :: "Status \<Rightarrow> string" where
  "outcome_label s = (if s = COMPLETED then ''completed'' else ''failed'')"

text \<open>The counters of a finished payment.\<close>

definition count_finished :: "ExecutionMode \<Rightarrow> Status \<Rightarrow> string \<Rightarrow> unit pr" where
  "count_finished mode s class =
    bindp (Observe ''PaymentDuration'' [mode, outcome_label s]) (\<lambda>_.
    if s = COMPLETED then Inc ''PaymentsCompleted'' [mode] else Inc ''PaymentsFailed'' [mode, class])"

section \<open>processor.go\<close>

record Processor =
  po_Executor :: "Executor option"

definition HandleRoutedPayment :: "Processor \<Rightarrow> RoutedPayment \<Rightarrow> unit res pr" where
  "HandleRoutedPayment p evt =
    bindp (Inc ''EventsConsumed'' []) (\<lambda>_.
    tryp (ClaimPayment (ev_PaymentID evt))
      (\<lambda>err. bindp (Inc ''ProcessingFailures'' [''unknown'', ''claim_conflict''])
         (\<lambda>_. Done (Inl (Wrap ''claim payment'' err))))
      (\<lambda>(claimed, mode).
        if \<not> claimed then Done (Inr ())
        else if mode = ExecutionModeTestnet then
          (case po_Executor p of
             None \<Rightarrow> bindp (Inc ''ProcessingFailures'' [mode, ''execution_error''])
                (\<lambda>_. Done (Inl (Err ''payment is execution_mode=testnet but this worker has no Executor configured'')))
           | Some e \<Rightarrow>
               bindp (ExecuteTestnetPayment e (ev_PaymentID evt)) (\<lambda>r.
               bindp (Observe ''ProcessingDuration'' [mode]) (\<lambda>_.
               bindp (case r of Inl _ \<Rightarrow> Inc ''ProcessingFailures'' [mode, ''execution_error''] | Inr _ \<Rightarrow> Done ()) (\<lambda>_.
               Done r))))
        else
          (let s = outcome_status (ev_PaymentID evt) in
           bindp (CompletePayment (ev_PaymentID evt) s) (\<lambda>r.
           bindp (Observe ''ProcessingDuration'' [mode]) (\<lambda>_.
           case r of
             Inl err \<Rightarrow> bindp (Inc ''ProcessingFailures'' [mode, ''execution_error''])
                (\<lambda>_. Done (Inl (Wrap ''complete payment'' err)))
           | Inr None \<Rightarrow> Done (Inr ())
           | Inr (Some createdAt) \<Rightarrow> bindp (count_finished mode s ''execution'') (\<lambda>_. Done (Inr ())))))))"

section \<open>recovery.go\<close>

definition recover_one :: "string \<Rightarrow> nat \<Rightarrow> nat pr" where
  "recover_one pid completed =
    (let s = outcome_status pid in
     tryp (CompletePayment pid s) (\<lambda>err. Done completed)
       (\<lambda>r. case r of
          None \<Rightarrow> Done completed
        | Some createdAt \<Rightarrow>
            bindp (Inc ''StaleRecoveries'' [''recovery'']) (\<lambda>_.
            bindp (count_finished ExecutionModeSimulated s ''execution'') (\<lambda>_. Done (Suc completed)))))"

definition Recovery_SweepOnce :: "time \<Rightarrow> nat res pr" where
  "Recovery_SweepOnce staleness =
    tryp (StalePaymentIDs staleness) (\<lambda>err. Done (Inl err))
      (\<lambda>ids. bindp (foldp recover_one ids 0) (\<lambda>n. Done (Inr n)))"

section \<open>publisher.go\<close>

definition publish_event :: "OutboxEvent \<Rightarrow> unit res pr" where
  "publish_event evt = call_out e_publish (EvPublish (oe_PaymentID evt) (oe_Payload evt))"

definition PollOnce :: "bool res pr" where
  "PollOnce =
    bindp (PublishNextOutboxEvent publish_event) (\<lambda>r.
    bindp (if r = Inr True then Inc ''EventsPublished'' [] else Done ()) (\<lambda>_. Done r))"

section \<open>reconciler.go\<close>

record Reconciler =
  rc_Executor :: Executor
  rc_StatusCheckers :: "string \<rightharpoonup> env StatusChecker"
  rc_WalletAddress :: address
  rc_Staleness :: time

definition recoverStaleProcessingWithoutExecution :: "Reconciler \<Rightarrow> unit pr" where
  "recoverStaleProcessingWithoutExecution r =
    tryp (StaleTestnetProcessingWithoutExecutionIDs (rc_Staleness r)) (\<lambda>err. Done ())
      (\<lambda>ids. forp ids (\<lambda>pid.
        tryp (ExecuteTestnetPayment (rc_Executor r) pid) (\<lambda>err. Done ())
          (\<lambda>_. Inc ''StaleRecoveries'' [''reconciler''])))"

definition driveStaleNotYetBroadcast :: "Reconciler \<Rightarrow> unit pr" where
  "driveStaleNotYetBroadcast r =
    tryp (ReconciliationCandidates (rc_Staleness r)) (\<lambda>err. Done ())
      (\<lambda>candidates. forp candidates (\<lambda>c.
        if x_BroadcastAt c \<noteq> None then Done ()
        else tryp (GetExecutionByPaymentID (x_PaymentID c)) (\<lambda>err. Done ())
          (\<lambda>found. case found of
             None \<Rightarrow> Done ()
           | Some fresh \<Rightarrow>
               if x_BroadcastAt fresh \<noteq> None then Done ()
               else voidp (DriveExecutionForward (rc_Executor r) fresh))))"

text \<open>The map \<open>lowestByWallet\<close>, as an association list.\<close>

definition lowest_step :: "(string \<times> Execution) list \<Rightarrow> Execution \<Rightarrow> (string \<times> Execution) list" where
  "lowest_step m c =
    (if x_BroadcastAt c = None then m
     else case map_of m (x_WalletAddress c) of
       None \<Rightarrow> m @ [(x_WalletAddress c, c)]
     | Some current \<Rightarrow>
         if x_Nonce c < x_Nonce current
         then map (\<lambda>(k, v). if k = x_WalletAddress c then (k, c) else (k, v)) m else m)"

definition lowestByWallet :: "Execution list \<Rightarrow> (string \<times> Execution) list" where
  "lowestByWallet candidates = foldl lowest_step [] candidates"

definition derefOrEmpty :: "string option \<Rightarrow> string" where
  "derefOrEmpty s = (case s of None \<Rightarrow> '''' | Some t \<Rightarrow> t)"

fun externalStateToStatus :: "ExternalState \<Rightarrow> ExternalStatus" where
  "externalStateToStatus StateFilled = ExtFilled"
| "externalStateToStatus StateRefunded = ExtRefunded"
| "externalStateToStatus StateReverted = ExtReverted"
| "externalStateToStatus StateFillFailed = ExtFillFailed"
| "externalStateToStatus StatePending = ExtPending"

definition markTerminal :: "Execution \<Rightarrow> StatusResult \<Rightarrow> Status \<Rightarrow> unit res pr" where
  "markTerminal exec result term =
    (let providerLabel = SanitizeProviderLabel (x_BridgeProvider exec) in
     bindp Now (\<lambda>now.
     tryp (UpdateExecutionExternalStatus (x_ID exec) (externalStateToStatus (sr_State result)) (sr_RawStatus result) (Some now))
       (\<lambda>err. Done (Inl (Wrap ''record'' err)))
       (\<lambda>_. tryp (CompleteSubmittedPayment (x_PaymentID exec) term)
         (\<lambda>err. Done (Inl (Wrap ''complete payment'' err)))
         (\<lambda>completed. case completed of
            None \<Rightarrow> Done (Inr ())
          | Some createdAt \<Rightarrow>
              bindp (if term = FAILED then Inc ''ExecutionsFailed'' [providerLabel, ''reconciled_failed'']
                     else Inc ''ExecutionsCompleted'' [providerLabel]) (\<lambda>_.
              bindp (Observe ''PaymentDuration'' [ExecutionModeTestnet, if term = FAILED then ''failed'' else ''completed'']) (\<lambda>_.
              bindp (if term = COMPLETED then Inc ''PaymentsCompleted'' [ExecutionModeTestnet]
                     else Inc ''PaymentsFailed'' [ExecutionModeTestnet, ''reconciliation'']) (\<lambda>_.
              Done (Inr ()))))))))"

definition check_status :: "string \<Rightarrow> env StatusChecker \<Rightarrow> StatusRequest \<Rightarrow> StatusResult res pr" where
  "check_status provider checker req = call_out (\<lambda>i. sc_CheckStatus checker i req) (EvStatus provider req)"

definition origin_reverted :: StatusResult where
  "origin_reverted = \<lparr>sr_State = StateReverted, sr_RawStatus = ''origin_reverted'', sr_DestinationTxHash = None\<rparr>"

text \<open>The terminal status a definite answer of the bridge leads to; \<open>None\<close> keeps polling.\<close>

fun terminal_of_state :: "ExternalState \<Rightarrow> Status option" where
  "terminal_of_state StateFilled = Some COMPLETED"
| "terminal_of_state StateRefunded = Some FAILED"
| "terminal_of_state StateReverted = Some FAILED"
| "terminal_of_state StateFillFailed = Some FAILED"
| "terminal_of_state StatePending = None"

definition checkAndUpdateOutcome :: "Reconciler \<Rightarrow> Execution \<Rightarrow> unit res pr" where
  "checkAndUpdateOutcome r exec =
    (let providerLabel = SanitizeProviderLabel (x_BridgeProvider exec) in
     case x_SignedTxHash exec of
       None \<Rightarrow> Done (Inl (Err ''execution is marked broadcast but has no signed_tx_hash''))
     | Some signedTxHash \<Rightarrow>
         tryp (MarkSubmitted (x_PaymentID exec)) (\<lambda>err. Done (Inl (Wrap ''repair submitted status'' err))) (\<lambda>_.
         let hash = g_HexToHash (ex_Geth (rc_Executor r)) signedTxHash in
         tryp (call_out e_receipt (EvReceipt hash)) (\<lambda>err. Done (Inr ())) (\<lambda>receipt_Status.
         if receipt_Status = 0 then markTerminal exec origin_reverted FAILED
         else case rc_StatusCheckers r (x_BridgeProvider exec) of
           None \<Rightarrow> Done (Inl (Err ''execution uses a provider this reconciler has no configured status checker for''))
         | Some checker \<Rightarrow>
             tryp (check_status (x_BridgeProvider exec) checker
                     \<lparr>sr_ProviderReferenceID = derefOrEmpty (x_ProviderReferenceID exec), sr_OriginTxHash = signedTxHash\<rparr>)
               (\<lambda>err. Done (Inr ()))
               (\<lambda>result.
                 bindp (Inc ''Reconciliations'' [providerLabel]) (\<lambda>_.
                 bindp (Observe ''ReconciliationDuration'' [providerLabel]) (\<lambda>_.
                 case terminal_of_state (sr_State result) of
                   Some s \<Rightarrow> markTerminal exec result s
                 | None \<Rightarrow> Done (Inr ())))))))"

text \<open>The iteration order over the map is arbitrary.\<close>

definition checkBroadcastOutcomes :: "Reconciler \<Rightarrow> unit pr" where
  "checkBroadcastOutcomes r =
    tryp (ReconciliationCandidates (rc_Staleness r)) (\<lambda>err. Done ())
      (\<lambda>candidates. bindp (ask_env e_order) (\<lambda>order.
        forp (shuffle order (map snd (lowestByWallet candidates)))
          (\<lambda>exec. voidp (checkAndUpdateOutcome r exec))))"

definition Reconciler_SweepOnce :: "Reconciler \<Rightarrow> unit pr" where
  "Reconciler_SweepOnce r =
    bindp (recoverStaleProcessingWithoutExecution r) (\<lambda>_.
    bindp (driveStaleNotYetBroadcast r) (\<lambda>_.
    checkBroadcastOutcomes r))"

text \<open>The read-only diagnostic; the result is whether the warning is logged.\<close>

definition checkNonceDivergence :: "Reconciler \<Rightarrow> bool pr" where
  "checkNonceDivergence r =
    tryp (ask_env e_pending_nonce) (\<lambda>err. Done False) (\<lambda>chainPending.
    tryp (LowestUnconfirmedNonce (g_AddressHex (ex_Geth (rc_Executor r)) (rc_WalletAddress r))) (\<lambda>err. Done False)
      (\<lambda>found. case found of
         None \<Rightarrow> Done False
       | Some lowest \<Rightarrow> Done (sint (chainPending :: 64 word) < lowest)))"

section \<open>cmd/worker/main.go\<close>

text \<open>
  The nonce seeding of \<open>main\<close>: the chain's pending nonce, converted to \<open>int64\<close>, seeds the wallet once.
\<close>

definition seed_wallet :: "Executor \<Rightarrow> unit res pr" where
  "seed_wallet e =
    tryp (ask_env e_pending_nonce) (\<lambda>err. Done (Inl err)) (\<lambda>pendingNonce.
    SeedWalletNonce (g_AddressHex (ex_Geth e) (wl_Address (ex_Wallet e))) (sint (pendingNonce :: 64 word)))"

text \<open>
  One turn of \<open>runConsumeLoop\<close> on a fetched message; \<open>None\<close> is a value that does not decode. The result
  is whether the offset is committed.
\<close>

definition consume_message :: "Processor \<Rightarrow> RoutedPayment option \<Rightarrow> bool pr" where
  "consume_message p msg =
    (case msg of
       None \<Rightarrow> Done True
     | Some evt \<Rightarrow> tryp (HandleRoutedPayment p evt) (\<lambda>err. Done False) (\<lambda>_. Done True))"

end
