(* ===== verification/Lifecycle.thy ===== *)
theory Lifecycle
  imports Worker
begin

text \<open>
  The contract of the shared state. \<open>evolves\<close> is what every action of every process keeps of the
  past: the columns of a payment are fixed but for its status, which moves forward and stops at
  a terminal status; an execution row keeps its identity and nonce and is never unsigned; nonces
  only rise; events, hops, quotes and the history of outside calls are only added.
  \<open>sys_inv\<close> is the invariant of the reachable states. It is stated for the configuration \<open>e\<close> of the
  testnet executors.
\<close>

section \<open>Evolution\<close>

definition pay_le :: "payment_row \<Rightarrow> payment_row \<Rightarrow> bool" where
  "pay_le r r' \<longleftrightarrow>
     pr_id r' = pr_id r \<and> pr_idempotency_key r' = pr_idempotency_key r \<and>
     pr_source_chain r' = pr_source_chain r \<and> pr_destination_chain r' = pr_destination_chain r \<and>
     pr_asset r' = pr_asset r \<and> pr_amount r' = pr_amount r \<and> pr_total_fee r' = pr_total_fee r \<and>
     pr_execution_mode r' = pr_execution_mode r \<and> pr_bridge_provider r' = pr_bridge_provider r \<and>
     pr_created_at r' = pr_created_at r \<and>
     status_le (pr_status r) (pr_status r') \<and> (terminal (pr_status r) \<longrightarrow> r' = r)"

definition exec_le :: "Execution \<Rightarrow> Execution \<Rightarrow> bool" where
  "exec_le x x' \<longleftrightarrow>
     x_ID x' = x_ID x \<and> x_PaymentID x' = x_PaymentID x \<and> x_BridgeProvider x' = x_BridgeProvider x \<and>
     x_OriginChainID x' = x_OriginChainID x \<and> x_DestinationChainID x' = x_DestinationChainID x \<and>
     x_WalletAddress x' = x_WalletAddress x \<and> x_Nonce x' = x_Nonce x \<and> x_CreatedAt x' = x_CreatedAt x \<and>
     (x_SignedTxHash x \<noteq> None \<longrightarrow> x_SignedTxHash x' \<noteq> None) \<and>
     (x_RawSignedTx x \<noteq> None \<longrightarrow> x_RawSignedTx x' \<noteq> None) \<and>
     (x_BroadcastAt x \<noteq> None \<longrightarrow> x_BroadcastAt x' \<noteq> None) \<and>
     (x_ConfirmedAt x \<noteq> None \<longrightarrow> x_ConfirmedAt x' \<noteq> None)"

definition out_le :: "outbox_row \<Rightarrow> outbox_row \<Rightarrow> bool" where
  "out_le a b \<longleftrightarrow>
     ob_id b = ob_id a \<and> ob_payment_id b = ob_payment_id a \<and> ob_event_type b = ob_event_type a \<and>
     ob_payload b = ob_payload a \<and> ob_created_at b = ob_created_at a \<and>
     (ob_published_at a \<noteq> None \<longrightarrow> ob_published_at b \<noteq> None)"

definition nonces_rise :: "(string \<rightharpoonup> int) \<Rightarrow> (string \<rightharpoonup> int) \<Rightarrow> bool" where
  "nonces_rise m m' \<longleftrightarrow> (\<forall>a n. m a = Some n \<longrightarrow> (\<exists>n'. m' a = Some n' \<and> n \<le> n'))"

definition db_evolves :: "db \<Rightarrow> db \<Rightarrow> bool" where
  "db_evolves d d' \<longleftrightarrow>
     grows pay_le (db_payments d) (db_payments d') \<and> grows (=) (db_hops d) (db_hops d') \<and>
     grows (=) (db_quotes d) (db_quotes d') \<and> grows exec_le (db_executions d) (db_executions d') \<and>
     nonces_rise (db_wallet_nonces d) (db_wallet_nonces d') \<and> grows out_le (db_outbox d) (db_outbox d')"

definition evolves :: "world \<Rightarrow> world \<Rightarrow> bool" where
  "evolves w w' \<longleftrightarrow> db_evolves (w_db w) (w_db w') \<and> (\<exists>t. w_trace w' = t @ w_trace w)"

lemma pay_le_refl [simp]: "pay_le r r" by (simp add: pay_le_def)
lemma exec_le_refl [simp]: "exec_le x x" by (simp add: exec_le_def)
lemma out_le_refl [simp]: "out_le x x" by (simp add: out_le_def)

lemma pay_le_trans: "pay_le r1 r2 \<Longrightarrow> pay_le r2 r3 \<Longrightarrow> pay_le r1 r3"
  by (auto simp: pay_le_def intro: status_le_trans)

lemma exec_le_trans: "exec_le x y \<Longrightarrow> exec_le y z \<Longrightarrow> exec_le x z"
  by (auto simp: exec_le_def)

lemma out_le_trans: "out_le x y \<Longrightarrow> out_le y z \<Longrightarrow> out_le x z"
  by (auto simp: out_le_def)

lemma nonces_rise_refl [simp]: "nonces_rise m m"
  by (auto simp: nonces_rise_def)

lemma nonces_rise_trans: "nonces_rise m1 m2 \<Longrightarrow> nonces_rise m2 m3 \<Longrightarrow> nonces_rise m1 m3"
  unfolding nonces_rise_def by (meson order_trans)

lemma nonces_rise_upd: "m a = None \<or> (\<exists>k. m a = Some k \<and> k \<le> n) \<Longrightarrow> nonces_rise m (m(a \<mapsto> n))"
  by (auto simp: nonces_rise_def)

lemmas grows_intros = grows_refl grows_append grows_sql_update

lemma db_evolves_refl [simp]: "db_evolves d d"
  by (simp add: db_evolves_def grows_refl)

lemma grows_trans_rows:
  "grows pay_le a b \<Longrightarrow> grows pay_le b c \<Longrightarrow> grows pay_le a c"
  "grows exec_le f g \<Longrightarrow> grows exec_le g h \<Longrightarrow> grows exec_le f h"
  "grows out_le k l \<Longrightarrow> grows out_le l m \<Longrightarrow> grows out_le k m"
  "grows (=) p q \<Longrightarrow> grows (=) q r \<Longrightarrow> grows (=) p r"
  by (erule (1) grows_trans [rotated], erule (1) pay_le_trans exec_le_trans out_le_trans trans)+

lemma db_evolves_trans: "db_evolves d1 d2 \<Longrightarrow> db_evolves d2 d3 \<Longrightarrow> db_evolves d1 d3"
  unfolding db_evolves_def by (blast intro: grows_trans_rows nonces_rise_trans)

lemma evolves_refl [simp]: "evolves w w"
  by (simp add: evolves_def)

lemma evolves_trans: "evolves w1 w2 \<Longrightarrow> evolves w2 w3 \<Longrightarrow> evolves w1 w3"
  unfolding evolves_def using db_evolves_trans by (metis append.assoc)

lemma evolves_db: "db_evolves (w_db w) d \<Longrightarrow> evolves w (w\<lparr>w_db := d\<rparr>)"
  by (simp add: evolves_def)

lemma evolves_met [simp]: "evolves w (w\<lparr>w_met := m\<rparr>)"
  by (simp add: evolves_def)

lemma evolves_event [simp]: "evolves w (w\<lparr>w_trace := ev # w_trace w\<rparr>)"
  by (simp add: evolves_def)

text \<open>What a later state still has of an earlier one.\<close>

lemma evolves_payment:
  "evolves w w' \<Longrightarrow> r \<in> set (db_payments (w_db w)) \<Longrightarrow> \<exists>r' \<in> set (db_payments (w_db w')). pay_le r r'"
  by (auto simp: evolves_def db_evolves_def dest: grows_in)

lemma evolves_execution:
  "evolves w w' \<Longrightarrow> x \<in> set (db_executions (w_db w)) \<Longrightarrow> \<exists>x' \<in> set (db_executions (w_db w')). exec_le x x'"
  by (auto simp: evolves_def db_evolves_def dest: grows_in)

lemma evolves_quote: "evolves w w' \<Longrightarrow> q \<in> set (db_quotes (w_db w)) \<Longrightarrow> q \<in> set (db_quotes (w_db w'))"
  by (auto simp: evolves_def db_evolves_def dest: grows_in)

lemma evolves_outbox:
  "evolves w w' \<Longrightarrow> x \<in> set (db_outbox (w_db w)) \<Longrightarrow> \<exists>x' \<in> set (db_outbox (w_db w')). out_le x x'"
  by (auto simp: evolves_def db_evolves_def dest: grows_in)

lemma evolves_trace: "evolves w w' \<Longrightarrow> ev \<in> set (w_trace w) \<Longrightarrow> ev \<in> set (w_trace w')"
  by (auto simp: evolves_def)

section \<open>The invariant\<close>

text \<open>A payment row by itself.\<close>

definition row_ok :: "payment_row \<Rightarrow> bool" where
  "row_ok r \<longleftrightarrow>
     uuid_in (pr_id r) = Some (pr_id r) \<and> 0 < pr_amount r \<and> numeric_fits (pr_amount r) \<and>
     pr_source_chain r \<noteq> pr_destination_chain r \<and>
     pr_execution_mode r \<in> {ExecutionModeSimulated, ExecutionModeTestnet} \<and>
     (pr_completed_at r \<noteq> None \<longrightarrow> terminal (pr_status r)) \<and>
     (pr_status r = COMPLETED \<longrightarrow> pr_completed_at r \<noteq> None) \<and>
     (pr_failure_reason r \<noteq> None \<longrightarrow> pr_status r = FAILED \<and> pr_execution_mode r = ExecutionModeTestnet) \<and>
     (pr_execution_mode r = ExecutionModeSimulated \<longrightarrow>
        pr_status r \<noteq> SUBMITTED \<and> (terminal (pr_status r) \<longrightarrow> pr_completed_at r \<noteq> None \<and> pr_status r = outcome_status (pr_id r)))"

text \<open>An execution of the payment with a broadcast, signed transaction.\<close>

definition broadcast_for :: "world \<Rightarrow> string \<Rightarrow> Execution \<Rightarrow> bool" where
  "broadcast_for w pid x \<longleftrightarrow> x \<in> set (db_executions (w_db w)) \<and> x_PaymentID x = pid \<and>
     x_BroadcastAt x \<noteq> None \<and> x_SignedTxHash x \<noteq> None"

text \<open>
  A transaction made for an execution row: its nonce, the origin chain, the pinned contract of
  its provider, and the payment's amount in base units.
\<close>

definition tx_for :: "Executor \<Rightarrow> world \<Rightarrow> Execution \<Rightarrow> SignedTx \<Rightarrow> bool" where
  "tx_for e w x stx \<longleftrightarrow>
     lt_Nonce (st_Tx stx) = word_of_int (x_Nonce x) \<and> st_ChainID stx = ex_OriginChainID e \<and>
     ex_ExpectedContractByProvider e (x_BridgeProvider x) = Some (lt_To (st_Tx stx)) \<and>
     (\<exists>r \<in> set (db_payments (w_db w)). pr_id r = x_PaymentID x \<and> lt_Value (st_Tx stx) = pr_amount r)"

text \<open>The bridge reported the transfer made for the execution as filled, under the hash of a transaction made for it.\<close>

definition filled_seen :: "Executor \<Rightarrow> world \<Rightarrow> Execution \<Rightarrow> bool" where
  "filled_seen e w x \<longleftrightarrow> (\<exists>stx req res. tx_for e w x stx \<and>
     sr_OriginTxHash req = g_HashHex (ex_Geth e) (g_Hash (ex_Geth e) stx) \<and>
     EvStatus (x_BridgeProvider x) req (Inr res) \<in> set (w_trace w) \<and> sr_State res = StateFilled)"

definition status_ok :: "Executor \<Rightarrow> world \<Rightarrow> payment_row \<Rightarrow> bool" where
  "status_ok e w r \<longleftrightarrow>
     (pr_status r = SUBMITTED \<longrightarrow> (\<exists>x. broadcast_for w (pr_id r) x)) \<and>
     (pr_status r = COMPLETED \<and> pr_execution_mode r = ExecutionModeTestnet \<longrightarrow>
        (\<exists>x. broadcast_for w (pr_id r) x \<and> filled_seen e w x))"

definition wallet_hex :: "Executor \<Rightarrow> string" where
  "wallet_hex e = g_AddressHex (ex_Geth e) (wl_Address (ex_Wallet e))"

definition exec_ok :: "Executor \<Rightarrow> world \<Rightarrow> Execution \<Rightarrow> bool" where
  "exec_ok e w x \<longleftrightarrow>
     uuid_in (x_ID x) = Some (x_ID x) \<and> x_WalletAddress x = wallet_hex e \<and>
     (\<exists>r \<in> set (db_payments (w_db w)). pr_id r = x_PaymentID x \<and> pr_execution_mode r = ExecutionModeTestnet) \<and>
     (\<exists>q \<in> set (db_quotes (w_db w)). qr_payment_id q = x_PaymentID x \<and> qr_selected q \<and> qr_provider q = x_BridgeProvider x) \<and>
     (x_SignedTxHash x = None \<longleftrightarrow> x_RawSignedTx x = None) \<and>
     (\<forall>raw. x_RawSignedTx x = Some raw \<longrightarrow>
        (\<exists>stx. g_UnmarshalBinary (ex_Geth e) raw = Inr stx \<and> tx_for e w x stx \<and>
               x_SignedTxHash x = Some (g_HashHex (ex_Geth e) (g_Hash (ex_Geth e) stx)))) \<and>
     (x_BroadcastAt x \<noteq> None \<longrightarrow> x_SignedTxHash x \<noteq> None)"

definition out_ok :: "world \<Rightarrow> outbox_row \<Rightarrow> bool" where
  "out_ok w x \<longleftrightarrow>
     ev_PaymentID (ob_payload x) = ob_payment_id x \<and> ob_event_type x = RoutedPaymentEventType \<and>
     (ob_published_at x \<noteq> None \<longrightarrow> EvPublish (ob_payment_id x) (ob_payload x) (Inr ()) \<in> set (w_trace w))"

definition event_ok :: "Executor \<Rightarrow> world \<Rightarrow> event \<Rightarrow> bool" where
  "event_ok e w ev = (case ev of
      EvSend stx _ \<Rightarrow> (\<exists>x \<in> set (db_executions (w_db w)). tx_for e w x stx)
    | EvPublish pid payload _ \<Rightarrow>
        (\<exists>x \<in> set (db_outbox (w_db w)). ob_payment_id x = pid \<and> ob_payload x = payload)
    | _ \<Rightarrow> True)"

text \<open>The nonces of a wallet's executions, in table order, are consecutive up to the next nonce.\<close>

definition nonces_ok :: "db \<Rightarrow> string \<Rightarrow> bool" where
  "nonces_ok d a \<longleftrightarrow>
    (let ns = map x_Nonce (filter (\<lambda>x. x_WalletAddress x = a) (db_executions d)) in
     case db_wallet_nonces d a of
       None \<Rightarrow> ns = []
     | Some n \<Rightarrow> int8_fits n \<and> (\<exists>n0. int8_fits n0 \<and> ns = [n0..n - 1]))"

definition keys_ok :: "db \<Rightarrow> bool" where
  "keys_ok d \<longleftrightarrow>
     distinct (map pr_id (db_payments d)) \<and> distinct (map pr_idempotency_key (db_payments d)) \<and>
     map ob_payment_id (db_outbox d) = map pr_id (db_payments d) \<and> distinct (map ob_id (db_outbox d)) \<and>
     distinct (map x_ID (db_executions d)) \<and> distinct (map x_PaymentID (db_executions d)) \<and>
     distinct (map qr_payment_id (filter qr_selected (db_quotes d)))"

definition sys_inv :: "Executor \<Rightarrow> world \<Rightarrow> bool" where
  "sys_inv e w \<longleftrightarrow>
     keys_ok (w_db w) \<and> (\<forall>a. nonces_ok (w_db w) a) \<and>
     (\<forall>r \<in> set (db_payments (w_db w)). row_ok r) \<and>
     (\<forall>r \<in> set (db_payments (w_db w)). status_ok e w r) \<and>
     (\<forall>q \<in> set (db_quotes (w_db w)). qr_payment_id q \<in> pr_id ` set (db_payments (w_db w))) \<and>
     (\<forall>x \<in> set (db_executions (w_db w)). exec_ok e w x) \<and>
     (\<forall>x \<in> set (db_outbox (w_db w)). out_ok w x) \<and>
     (\<forall>ev \<in> set (w_trace w). event_ok e w ev)"

section \<open>Stability\<close>

lemma tx_for_stable:
  assumes "evolves w w'" "tx_for e w x stx" "exec_le x x'"
  shows "tx_for e w' x' stx"
proof -
  from assms(2) obtain r where "r \<in> set (db_payments (w_db w))" "pr_id r = x_PaymentID x" "lt_Value (st_Tx stx) = pr_amount r"
    by (auto simp: tx_for_def)
  with assms(1) obtain r' where "r' \<in> set (db_payments (w_db w'))" "pay_le r r'" using evolves_payment by blast
  with assms \<open>pr_id r = x_PaymentID x\<close> \<open>lt_Value (st_Tx stx) = pr_amount r\<close> show ?thesis
    by (auto simp: tx_for_def exec_le_def pay_le_def)
qed

lemma broadcast_for_stable:
  assumes "evolves w w'" "broadcast_for w pid x"
  obtains x' where "broadcast_for w' pid x'" "exec_le x x'"
proof -
  from assms obtain x' where "x' \<in> set (db_executions (w_db w'))" "exec_le x x'"
    using evolves_execution unfolding broadcast_for_def by blast
  moreover from this assms(2) have "broadcast_for w' pid x'" by (auto simp: broadcast_for_def exec_le_def)
  ultimately show ?thesis using that by blast
qed

lemma filled_seen_stable:
  assumes "evolves w w'" "filled_seen e w x" "exec_le x x'"
  shows "filled_seen e w' x'"
  using assms tx_for_stable [OF assms(1) _ assms(3)] evolves_trace [OF assms(1)]
  unfolding filled_seen_def exec_le_def by metis

lemma status_ok_stable:
  assumes "evolves w w'" "status_ok e w r"
  shows "status_ok e w' r"
proof -
  have "\<exists>x'. broadcast_for w' (pr_id r) x' \<and> (filled_seen e w x \<longrightarrow> filled_seen e w' x')"
    if "broadcast_for w (pr_id r) x" for x
    using broadcast_for_stable [OF assms(1) that] filled_seen_stable [OF assms(1)] by metis
  then show ?thesis using assms(2) unfolding status_ok_def by metis
qed

lemma exec_ok_stable:
  assumes "evolves w w'" "exec_ok e w x"
  shows "exec_ok e w' x"
proof -
  obtain r where "r \<in> set (db_payments (w_db w))" "pr_id r = x_PaymentID x" "pr_execution_mode r = ExecutionModeTestnet"
    using assms(2) by (auto simp: exec_ok_def)
  moreover from this(1) assms(1) obtain r' where "r' \<in> set (db_payments (w_db w'))" "pay_le r r'"
    using evolves_payment by blast
  ultimately have "\<exists>r \<in> set (db_payments (w_db w')). pr_id r = x_PaymentID x \<and> pr_execution_mode r = ExecutionModeTestnet"
    by (auto simp: pay_le_def)
  moreover have "\<exists>q \<in> set (db_quotes (w_db w')). qr_payment_id q = x_PaymentID x \<and> qr_selected q \<and> qr_provider q = x_BridgeProvider x"
    using assms evolves_quote unfolding exec_ok_def by blast
  moreover have "tx_for e w' x stx" if "tx_for e w x stx" for stx
    using tx_for_stable [OF assms(1) that exec_le_refl] .
  ultimately show ?thesis using assms(2) unfolding exec_ok_def by blast
qed

lemma out_ok_stable: "evolves w w' \<Longrightarrow> out_ok w x \<Longrightarrow> out_ok w' x"
  unfolding out_ok_def using evolves_trace by blast

lemma event_ok_stable:
  assumes "evolves w w'" "event_ok e w ev"
  shows "event_ok e w' ev"
proof (cases ev)
  case (EvSend stx r)
  with assms(2) obtain x where x: "x \<in> set (db_executions (w_db w))" "tx_for e w x stx" by (auto simp: event_ok_def)
  with assms(1) obtain x' where "x' \<in> set (db_executions (w_db w'))" "exec_le x x'" using evolves_execution by blast
  moreover from this have "tx_for e w' x' stx" using x tx_for_stable [OF assms(1)] by blast
  ultimately show ?thesis using EvSend by (auto simp: event_ok_def)
next
  case (EvPublish pid payload r)
  with assms(2) obtain x where x: "x \<in> set (db_outbox (w_db w))" "ob_payment_id x = pid" "ob_payload x = payload"
    by (auto simp: event_ok_def)
  with assms(1) obtain x' where "x' \<in> set (db_outbox (w_db w'))" "out_le x x'" using evolves_outbox by blast
  with x EvPublish show ?thesis by (auto simp: event_ok_def out_le_def)
qed (simp_all add: event_ok_def)

section \<open>Preservation\<close>

text \<open>Old rows keep their part of the invariant by stability; only new or changed rows are checked.\<close>

lemma inv_step:
  assumes sys_inv: "sys_inv e w" and ev: "evolves w w'"
    and "keys_ok (w_db w')" "\<And>a. nonces_ok (w_db w') a"
    and pays: "\<And>r. r \<in> set (db_payments (w_db w')) \<Longrightarrow>
      r \<in> set (db_payments (w_db w)) \<or> row_ok r \<and> status_ok e w' r"
    and quotes: "\<And>q. q \<in> set (db_quotes (w_db w')) \<Longrightarrow>
      q \<in> set (db_quotes (w_db w)) \<or> qr_payment_id q \<in> pr_id ` set (db_payments (w_db w'))"
    and execs: "\<And>x. x \<in> set (db_executions (w_db w')) \<Longrightarrow>
      x \<in> set (db_executions (w_db w)) \<or> exec_ok e w' x"
    and outs: "\<And>x. x \<in> set (db_outbox (w_db w')) \<Longrightarrow> x \<in> set (db_outbox (w_db w)) \<or> out_ok w' x"
    and evs: "\<And>x. x \<in> set (w_trace w') \<Longrightarrow> x \<in> set (w_trace w) \<or> event_ok e w' x"
  shows "sys_inv e w'"
proof -
  have "pr_id ` set (db_payments (w_db w)) \<subseteq> pr_id ` set (db_payments (w_db w'))"
  proof
    fix i assume "i \<in> pr_id ` set (db_payments (w_db w))"
    then obtain r where "r \<in> set (db_payments (w_db w))" "i = pr_id r" by auto
    moreover from this(1) obtain r' where "r' \<in> set (db_payments (w_db w'))" "pay_le r r'"
      using evolves_payment [OF ev] by blast
    ultimately show "i \<in> pr_id ` set (db_payments (w_db w'))"
      by (intro image_eqI [of _ _ r']) (simp_all add: pay_le_def)
  qed
  with sys_inv quotes have "\<forall>q \<in> set (db_quotes (w_db w')). qr_payment_id q \<in> pr_id ` set (db_payments (w_db w'))"
    unfolding sys_inv_def by blast
  moreover have "\<forall>r \<in> set (db_payments (w_db w')). row_ok r" "\<forall>r \<in> set (db_payments (w_db w')). status_ok e w' r"
    using sys_inv pays status_ok_stable [OF ev] unfolding sys_inv_def by blast+
  moreover have "\<forall>x \<in> set (db_executions (w_db w')). exec_ok e w' x"
    using sys_inv execs exec_ok_stable [OF ev] unfolding sys_inv_def by blast
  moreover have "\<forall>x \<in> set (db_outbox (w_db w')). out_ok w' x"
    using sys_inv outs out_ok_stable [OF ev] unfolding sys_inv_def by blast
  moreover have "\<forall>x \<in> set (w_trace w'). event_ok e w' x"
    using sys_inv evs event_ok_stable [OF ev] unfolding sys_inv_def by blast
  ultimately show ?thesis using assms(3,4) unfolding sys_inv_def by blast
qed

lemma keys_okD: "sys_inv e w \<Longrightarrow> keys_ok (w_db w)"
  and nonces_okD: "sys_inv e w \<Longrightarrow> nonces_ok (w_db w) a"
  by (auto simp: sys_inv_def)

lemma inv_met [simp]: "sys_inv e (w\<lparr>w_met := m\<rparr>) \<longleftrightarrow> sys_inv e w"
  by (simp add: sys_inv_def status_ok_def broadcast_for_def filled_seen_def exec_ok_def tx_for_def out_ok_def
      event_ok_def cong: event.case_cong)

lemma inv_event:
  assumes "sys_inv e w" "event_ok e (w\<lparr>w_trace := ev # w_trace w\<rparr>) ev"
  shows "sys_inv e (w\<lparr>w_trace := ev # w_trace w\<rparr>)"
  using assms by (intro inv_step [OF assms(1)]) (auto simp: keys_okD nonces_okD)

text \<open>A guarded status transition.\<close>

lemma inv_transition:
  assumes sys_inv: "sys_inv e w"
    and upd: "\<And>r. r \<in> set (db_payments (w_db w)) \<Longrightarrow> c r \<Longrightarrow> pay_le r (upd r) \<and> row_ok (upd r) \<and> status_ok e w (upd r)"
    and w': "w' = w\<lparr>w_db := (w_db w)\<lparr>db_payments := sql_update c upd (db_payments (w_db w))\<rparr>\<rparr>"
  shows "sys_inv e w' \<and> evolves w w'"
proof
  have keep: "map pr_id (sql_update c upd (db_payments (w_db w))) = map pr_id (db_payments (w_db w))"
    "map pr_idempotency_key (sql_update c upd (db_payments (w_db w))) = map pr_idempotency_key (db_payments (w_db w))"
    using upd by (auto intro!: sql_update_map simp: pay_le_def)
  show ev: "evolves w w'"
    using upd by (auto simp: w' evolves_def db_evolves_def intro!: grows_intros)
  show "sys_inv e w'"
  proof (rule inv_step [OF sys_inv ev])
    show "keys_ok (w_db w')" using keys_okD [OF sys_inv] keep by (simp add: keys_ok_def w')
    show "nonces_ok (w_db w') a" for a using nonces_okD [OF sys_inv, of a] by (simp add: nonces_ok_def w')
    show "r \<in> set (db_payments (w_db w)) \<or> row_ok r \<and> status_ok e w' r" if "r \<in> set (db_payments (w_db w'))" for r
    proof -
      from that have "r \<in> set (sql_update c upd (db_payments (w_db w)))" by (simp add: w')
      then show ?thesis
      proof (cases rule: in_sql_updateE)
        case (1 q)
        with upd status_ok_stable [OF ev] show ?thesis by blast
      qed simp
    qed
  qed (simp_all add: w')
qed

text \<open>An update of one execution row.\<close>

lemma inv_execution:
  assumes sys_inv: "sys_inv e w"
    and upd: "\<And>x. x \<in> set (db_executions (w_db w)) \<Longrightarrow> c x \<Longrightarrow> exec_le x (upd x) \<and> exec_ok e w (upd x)"
    and w': "w' = w\<lparr>w_db := (w_db w)\<lparr>db_executions := sql_update c upd (db_executions (w_db w))\<rparr>\<rparr>"
  shows "sys_inv e w' \<and> evolves w w'"
proof
  let ?X = "db_executions (w_db w)"
  have keep: "map f (sql_update c upd ?X) = map f ?X" if "\<And>x y. exec_le x y \<Longrightarrow> f y = f x" for f :: "Execution \<Rightarrow> 'b"
    using upd that by (auto intro!: sql_update_map)
  have ids: "map x_ID (sql_update c upd ?X) = map x_ID ?X" "map x_PaymentID (sql_update c upd ?X) = map x_PaymentID ?X"
    by (auto intro!: keep simp: exec_le_def)
  have ns: "map x_Nonce (filter (\<lambda>x. x_WalletAddress x = a) (sql_update c upd ?X)) =
      map x_Nonce (filter (\<lambda>x. x_WalletAddress x = a) ?X)" for a
  proof -
    have "filter (\<lambda>x. x_WalletAddress x = a) (sql_update c upd ?X) = sql_update c upd (filter (\<lambda>x. x_WalletAddress x = a) ?X)"
      using upd by (intro sql_update_filter_map) (auto simp: exec_le_def)
    then show ?thesis using upd by (auto intro!: sql_update_map simp: exec_le_def)
  qed
  show ev: "evolves w w'"
    using upd by (auto simp: w' evolves_def db_evolves_def intro!: grows_intros)
  show "sys_inv e w'"
  proof (rule inv_step [OF sys_inv ev])
    show "keys_ok (w_db w')" using keys_okD [OF sys_inv] ids by (simp add: keys_ok_def w')
    show "nonces_ok (w_db w') a" for a using nonces_okD [OF sys_inv, of a] ns [of a] by (simp add: nonces_ok_def w')
    show "x \<in> set ?X \<or> exec_ok e w' x" if "x \<in> set (db_executions (w_db w'))" for x
    proof -
      from that have "x \<in> set (sql_update c upd ?X)" by (simp add: w')
      then show ?thesis
      proof (cases rule: in_sql_updateE)
        case (1 q)
        with upd exec_ok_stable [OF ev] show ?thesis by blast
      qed simp
    qed
  qed (simp_all add: w')
qed

text \<open>Creating a payment.\<close>

lemma insert_hops_appends: "insert_hops pid hs t = Inr t' \<Longrightarrow> \<exists>us. t' = t @ us"
  by (induction pid hs t rule: insert_hops.induct) (auto split: if_splits)

lemma quote_row_of_fields:
  "quote_row_of i k pid q = Some r \<Longrightarrow>
     qr_payment_id r = pid \<and> qr_provider r = q_Provider q \<and> qr_selected r = q_Selected q"
  by (auto simp: quote_row_of_def split: option.splits)

lemma insertPaymentQuotes_appends:
  assumes "insertPaymentQuotes i k pid qs t = Inr t'"
  shows "(\<exists>us. t' = t @ us \<and> (\<forall>r \<in> set us. qr_payment_id r = pid)) \<and>
    (distinct (map qr_payment_id (filter qr_selected t)) \<longrightarrow> distinct (map qr_payment_id (filter qr_selected t')))"
  using assms
proof (induction i k pid qs t rule: insertPaymentQuotes.induct)
  case (2 i k pid q qs t)
  from 2(2) obtain r where r: "quote_row_of i k pid q = Some r" by (auto split: option.splits)
  from 2(2) r have sel: "qr_selected r \<longrightarrow> (\<forall>r' \<in> set t. qr_payment_id r' = pid \<longrightarrow> \<not> qr_selected r')"
    and step: "insertPaymentQuotes i (Suc k) pid qs (t @ [r]) = Inr t'"
    by (auto split: if_splits)
  from 2(1) [OF r] 2(2) r step have IH: "(\<exists>us. t' = (t @ [r]) @ us \<and> (\<forall>r \<in> set us. qr_payment_id r = pid)) \<and>
    (distinct (map qr_payment_id (filter qr_selected (t @ [r]))) \<longrightarrow> distinct (map qr_payment_id (filter qr_selected t')))"
    by (auto split: if_splits)
  have pid: "qr_payment_id r = pid" using quote_row_of_fields [OF r] by simp
  have "distinct (map qr_payment_id (filter qr_selected (t @ [r])))"
    if "distinct (map qr_payment_id (filter qr_selected t))"
    using that sel pid by (cases "qr_selected r") auto
  moreover from IH pid have "\<exists>us. t' = t @ us \<and> (\<forall>r \<in> set us. qr_payment_id r = pid)" by auto
  ultimately show ?case using IH by blast
qed simp

lemma row_ok_new:
  assumes "0 < amt" "numeric_fits amt" "p_SourceChain p \<noteq> p_DestinationChain p"
    "p_ExecutionMode p \<in> {ExecutionModeSimulated, ExecutionModeTestnet}"
  shows "row_ok (new_payment_row i p amt)"
  using assms by (auto simp: row_ok_def new_payment_row_def)

lemma create_txD:
  assumes "create_tx p i d = Inr (res, d')"
  shows "(res = None \<and> d' = d) \<or>
    (\<exists>amt hops quotes. let r = new_payment_row i p amt in res = Some r \<and> row_ok r \<and>
       numeric_in 18 (p_Amount p) = Some amt \<and>
       p_IdempotencyKey p \<notin> pr_idempotency_key ` set (db_payments d) \<and> pr_id r \<notin> pr_id ` set (db_payments d) \<and>
       insert_hops (pr_id r) (p_Hops p) (db_hops d) = Inr hops \<and>
       insertPaymentQuotes i 2 (pr_id r) (p_Quotes p) (db_quotes d) = Inr quotes \<and>
       new_uuid i 1 \<notin> ob_id ` set (db_outbox d) \<and>
       d' = d\<lparr>db_payments := db_payments d @ [r], db_hops := hops,
              db_quotes := quotes, db_outbox := db_outbox d @ [new_outbox_row i (pr_id r)]\<rparr>)"
proof -
  from assms obtain amt where amt: "numeric_in 18 (p_Amount p) = Some amt"
    by (auto simp: create_tx_def split: option.splits)
  show ?thesis
  proof (cases "p_IdempotencyKey p \<in> pr_idempotency_key ` set (db_payments d)")
    case True
    with assms amt show ?thesis by (auto simp: create_tx_def Let_def split: if_splits)
  next
    case False
    with assms amt obtain hops quotes where
      "insert_hops (pr_id (new_payment_row i p amt)) (p_Hops p) (db_hops d) = Inr hops"
      "insertPaymentQuotes i 2 (pr_id (new_payment_row i p amt)) (p_Quotes p) (db_quotes d) = Inr quotes"
      by (auto simp: create_tx_def Let_def split: if_splits sum.splits)
    with assms amt False show ?thesis
      by (auto simp: create_tx_def Let_def split: if_splits intro!: row_ok_new)
  qed
qed

lemma inv_create_tx:
  assumes sys_inv: "sys_inv e w" and tx: "create_tx p i (w_db w) = Inr (res, d')" and w': "w' = w\<lparr>w_db := d'\<rparr>"
  shows "sys_inv e w' \<and> evolves w w'"
  using create_txD [OF tx]
proof (elim disjE exE)
  assume "res = None \<and> d' = w_db w"
  then have "w' = w" by (simp add: w')
  with sys_inv show ?thesis by simp
next
  fix amt hops quotes
  let ?d = "w_db w" and ?r = "new_payment_row i p amt"
  assume *: "let r = ?r in res = Some r \<and> row_ok r \<and> numeric_in 18 (p_Amount p) = Some amt \<and>
       p_IdempotencyKey p \<notin> pr_idempotency_key ` set (db_payments ?d) \<and> pr_id r \<notin> pr_id ` set (db_payments ?d) \<and>
       insert_hops (pr_id r) (p_Hops p) (db_hops ?d) = Inr hops \<and>
       insertPaymentQuotes i 2 (pr_id r) (p_Quotes p) (db_quotes ?d) = Inr quotes \<and>
       new_uuid i 1 \<notin> ob_id ` set (db_outbox ?d) \<and>
       d' = ?d\<lparr>db_payments := db_payments ?d @ [r], db_hops := hops,
              db_quotes := quotes, db_outbox := db_outbox ?d @ [new_outbox_row i (pr_id r)]\<rparr>"
  then have w'': "w' = w\<lparr>w_db := ?d\<lparr>db_payments := db_payments ?d @ [?r], db_hops := hops,
              db_quotes := quotes, db_outbox := db_outbox ?d @ [new_outbox_row i (pr_id ?r)]\<rparr>\<rparr>"
    and new: "row_ok ?r" "p_IdempotencyKey p \<notin> pr_idempotency_key ` set (db_payments ?d)"
      "pr_id ?r \<notin> pr_id ` set (db_payments ?d)" "new_uuid i 1 \<notin> ob_id ` set (db_outbox ?d)"
    by (simp_all add: w' Let_def)
  from * have ins: "insert_hops (pr_id ?r) (p_Hops p) (db_hops ?d) = Inr hops"
    "insertPaymentQuotes i 2 (pr_id ?r) (p_Quotes p) (db_quotes ?d) = Inr quotes" by (simp_all add: Let_def)
  obtain hs where hops: "hops = db_hops ?d @ hs" using insert_hops_appends [OF ins(1)] by blast
  obtain us where quotes: "quotes = db_quotes ?d @ us" "\<forall>q \<in> set us. qr_payment_id q = pr_id ?r"
    using insertPaymentQuotes_appends [OF ins(2)] by blast
  have dq: "distinct (map qr_payment_id (filter qr_selected quotes))"
    using keys_okD [OF sys_inv] insertPaymentQuotes_appends [OF ins(2)] by (simp add: keys_ok_def)
  have key: "pr_idempotency_key ?r = p_IdempotencyKey p" by (simp add: new_payment_row_def)
  have ob: "ob_payment_id (new_outbox_row i (pr_id ?r)) = pr_id ?r" "ob_id (new_outbox_row i (pr_id ?r)) = new_uuid i 1"
    by (simp_all add: new_outbox_row_def)
  have ev: "evolves w w'"
    by (auto simp: w'' evolves_def db_evolves_def hops quotes intro!: grows_intros)
  have "sys_inv e w'"
  proof (rule inv_step [OF sys_inv ev])
    show "keys_ok (w_db w')" using keys_okD [OF sys_inv] new dq key ob by (auto simp: keys_ok_def w'')
    show "nonces_ok (w_db w') a" for a using nonces_okD [OF sys_inv, of a] by (simp add: nonces_ok_def w'')
    have "status_ok e w' ?r" by (simp add: status_ok_def new_payment_row_def)
    with new(1) show "r \<in> set (db_payments ?d) \<or> row_ok r \<and> status_ok e w' r" if "r \<in> set (db_payments (w_db w'))" for r
      using that by (auto simp: w'')
    show "q \<in> set (db_quotes ?d) \<or> qr_payment_id q \<in> pr_id ` set (db_payments (w_db w'))"
      if "q \<in> set (db_quotes (w_db w'))" for q
      using that quotes by (auto simp: w'')
    have "out_ok w' (new_outbox_row i (pr_id ?r))" by (simp add: out_ok_def new_outbox_row_def)
    then show "x \<in> set (db_outbox ?d) \<or> out_ok w' x" if "x \<in> set (db_outbox (w_db w'))" for x
      using that by (auto simp: w'')
  qed (simp_all add: w'')
  with ev show ?thesis by simp
qed

text \<open>Allocating a nonce with its execution row.\<close>

lemma upto_snoc: "n0 \<le> n \<Longrightarrow> [n0..n - 1] @ [n] = [n0..n]"
  by (metis upto_rec2)

lemma nonces_ok_extend:
  assumes "nonces_ok d a" "db_wallet_nonces d a = Some n" "int8_fits (n + 1)"
    "x_WalletAddress x = a" "x_Nonce x = n"
  shows "nonces_ok (d\<lparr>db_wallet_nonces := (db_wallet_nonces d)(a \<mapsto> n + 1), db_executions := db_executions d @ [x]\<rparr>) b
    \<longleftrightarrow> (b = a \<or> nonces_ok d b)"
proof (cases "b = a")
  case False
  with assms(4) show ?thesis by (auto simp: nonces_ok_def Let_def)
next
  case True
  from assms obtain n0 where n0: "int8_fits n0"
    "map x_Nonce (filter (\<lambda>x. x_WalletAddress x = a) (db_executions d)) = [n0..n - 1]" "int8_fits n"
    by (auto simp: nonces_ok_def Let_def)
  have "\<exists>m. int8_fits m \<and> [n0..n - 1] @ [n] = [m..n]"
  proof (cases "n0 \<le> n")
    case True
    with n0(1) show ?thesis using upto_snoc by blast
  next
    case False
    with n0(3) show ?thesis by (intro exI [of _ n]) simp
  qed
  with True assms n0 show ?thesis by (auto simp: nonces_ok_def Let_def)
qed

lemma create_execution_txD:
  assumes "create_execution_tx p i d = Inr (x, d')"
  obtains n u where "db_wallet_nonces d (cp_WalletAddress p) = Some n" "int8_fits (n + 1)"
    "uuid_in (cp_PaymentID p) = Some u" "x = new_execution i p u n"
    "x_ID x \<notin> x_ID ` set (db_executions d)" "u \<notin> x_PaymentID ` set (db_executions d)"
    "u \<in> pr_id ` set (db_payments d)"
    "d' = d\<lparr>db_wallet_nonces := (db_wallet_nonces d)(cp_WalletAddress p \<mapsto> n + 1), db_executions := db_executions d @ [x]\<rparr>"
  using assms by (auto simp: create_execution_tx_def Let_def split: option.splits if_splits)

lemma inv_create_execution_tx:
  assumes sys_inv: "sys_inv e w" and tx: "create_execution_tx p i (w_db w) = Inr (x, d')" and w': "w' = w\<lparr>w_db := d'\<rparr>"
    and u: "uuid_in (cp_PaymentID p) = Some u" and wal: "cp_WalletAddress p = wallet_hex e"
    and pay: "\<exists>r \<in> set (db_payments (w_db w)). pr_id r = u \<and> pr_execution_mode r = ExecutionModeTestnet"
    and quote: "\<exists>q \<in> set (db_quotes (w_db w)). qr_payment_id q = u \<and> qr_selected q \<and> qr_provider q = cp_BridgeProvider p"
  shows "sys_inv e w' \<and> evolves w w'"
proof -
  obtain n where n: "db_wallet_nonces (w_db w) (cp_WalletAddress p) = Some n" "int8_fits (n + 1)"
    "x = new_execution i p u n" "x_ID x \<notin> x_ID ` set (db_executions (w_db w))"
    "u \<notin> x_PaymentID ` set (db_executions (w_db w))" and
    d': "d' = (w_db w)\<lparr>db_wallet_nonces := (db_wallet_nonces (w_db w))(cp_WalletAddress p \<mapsto> n + 1),
                        db_executions := db_executions (w_db w) @ [x]\<rparr>"
    using create_execution_txD [OF tx] u by (metis option.inject)
  have x: "x_PaymentID x = u" "x_WalletAddress x = cp_WalletAddress p" "x_Nonce x = n" "x_BridgeProvider x = cp_BridgeProvider p"
    "x_SignedTxHash x = None" "x_RawSignedTx x = None" "x_BroadcastAt x = None" "uuid_in (x_ID x) = Some (x_ID x)"
    by (simp_all add: n(3) new_execution_def)
  have ev: "evolves w w'"
    using n by (auto simp: w' d' evolves_def db_evolves_def intro!: grows_intros nonces_rise_upd)
  have "sys_inv e w'"
  proof (rule inv_step [OF sys_inv ev])
    show "keys_ok (w_db w')" using keys_okD [OF sys_inv] n x by (simp add: keys_ok_def w' d')
    show "nonces_ok (w_db w') a" for a
      using nonces_ok_extend [OF nonces_okD [OF sys_inv] n(1,2) x(2,3)] nonces_okD [OF sys_inv, of a] by (simp add: w' d')
    have "exec_ok e w' x" using x pay quote wal by (auto simp: exec_ok_def w' d')
    then show "y \<in> set (db_executions (w_db w)) \<or> exec_ok e w' y" if "y \<in> set (db_executions (w_db w'))" for y
      using that by (auto simp: w' d')
  qed (simp_all add: w' d')
  with ev show ?thesis by simp
qed

lemma inv_seed:
  assumes sys_inv: "sys_inv e w" and "db_wallet_nonces (w_db w) a = None" "int8_fits n"
    and w': "w' = w\<lparr>w_db := (w_db w)\<lparr>db_wallet_nonces := (db_wallet_nonces (w_db w))(a \<mapsto> n)\<rparr>\<rparr>"
  shows "sys_inv e w' \<and> evolves w w'"
proof
  show ev: "evolves w w'"
    using assms(2) by (auto simp: w' evolves_def db_evolves_def intro!: grows_intros nonces_rise_upd)
  show "sys_inv e w'"
  proof (rule inv_step [OF sys_inv ev])
    show "keys_ok (w_db w')" using keys_okD [OF sys_inv] by (simp add: keys_ok_def w')
    show "nonces_ok (w_db w') b" for b
      using nonces_okD [OF sys_inv, of b] assms(2,3)
      by (cases "b = a") (auto simp: nonces_ok_def w' Let_def intro!: exI [of _ n])
  qed (simp_all add: w')
qed

text \<open>Taking and dropping a row lock touches no table.\<close>

lemma inv_locks:
  assumes sys_inv: "sys_inv e w" and w': "w' = w\<lparr>w_db := (w_db w)\<lparr>db_outbox_locks := l, db_next_tx := n\<rparr>\<rparr>"
  shows "sys_inv e w' \<and> evolves w w'"
proof
  show ev: "evolves w w'" by (auto simp: w' evolves_def db_evolves_def intro!: grows_intros)
  show "sys_inv e w'"
    by (rule inv_step [OF sys_inv ev])
       (use keys_okD [OF sys_inv] nonces_okD [OF sys_inv] in \<open>simp_all add: w' keys_ok_def nonces_ok_def\<close>)
qed

text \<open>Marking an outbox row published, once the broker has acknowledged it.\<close>

lemma inv_publish:
  assumes sys_inv: "sys_inv e w"
    and pub: "\<And>x. x \<in> set (db_outbox (w_db w)) \<Longrightarrow> ob_id x = oid \<Longrightarrow>
      EvPublish (ob_payment_id x) (ob_payload x) (Inr ()) \<in> set (w_trace w)"
    and w': "w' = w\<lparr>w_db := (w_db w)\<lparr>db_outbox := sql_update (\<lambda>x. ob_id x = oid)
      (\<lambda>x. x\<lparr>ob_published_at := Some t\<rparr>) (db_outbox (w_db w)), db_outbox_locks := l\<rparr>\<rparr>"
  shows "sys_inv e w' \<and> evolves w w'"
proof
  let ?O = "db_outbox (w_db w)" and ?u = "\<lambda>x. x\<lparr>ob_published_at := Some t\<rparr>"
  have keep: "map ob_id (sql_update (\<lambda>x. ob_id x = oid) ?u ?O) = map ob_id ?O"
    "map ob_payment_id (sql_update (\<lambda>x. ob_id x = oid) ?u ?O) = map ob_payment_id ?O"
    by (auto intro!: sql_update_map)
  show ev: "evolves w w'"
    by (auto simp: w' evolves_def db_evolves_def out_le_def intro!: grows_intros)
  show "sys_inv e w'"
  proof (rule inv_step [OF sys_inv ev])
    show "keys_ok (w_db w')" using keys_okD [OF sys_inv] keep by (simp add: keys_ok_def w')
    show "nonces_ok (w_db w') a" for a using nonces_okD [OF sys_inv, of a] by (simp add: nonces_ok_def w')
    show "x \<in> set ?O \<or> out_ok w' x" if "x \<in> set (db_outbox (w_db w'))" for x
    proof -
      from that have "x \<in> set (sql_update (\<lambda>x. ob_id x = oid) ?u ?O)" by (simp add: w')
      then show ?thesis
      proof (cases rule: in_sql_updateE)
        case (1 y)
        with sys_inv have "out_ok w y" by (simp add: sys_inv_def)
        with 1 pub [of y] show ?thesis by (simp add: out_ok_def w')
      qed simp
    qed
  qed (simp_all add: w')
qed

end
