(* ===== verification/Guarantees.thy ===== *)
theory Guarantees
  imports Lifecycle
begin

text \<open>
  Rely-guarantee triples for the processes. The locale \<open>metered\<close> collects the rules for the calls
  of the model over any invariant and evolution that ignore the counters; its interpretation on
  \<open>sys_inv\<close> and \<open>evolves\<close> then carries the triple of every store method, of the executor and of the worker
  goroutines. A postcondition holds of the result and of every later state.
\<close>

locale metered = evolution I R for I :: "world \<Rightarrow> bool" and R :: "world \<Rightarrow> world \<Rightarrow> bool" +
  assumes met_I: "I w \<Longrightarrow> I (w\<lparr>w_met := m\<rparr>)"
    and met_R: "R w (w\<lparr>w_met := m\<rparr>)"
begin

lemma same_db: "w\<lparr>w_db := w_db w\<rparr> = w"
  by simp

lemma safe_sql:
  assumes step: "\<And>w' i a d'. R w w' \<Longrightarrow> I w' \<Longrightarrow> q i (w_db w') = Inr (a, d') \<Longrightarrow>
      I (w'\<lparr>w_db := d'\<rparr>) \<and> R w' (w'\<lparr>w_db := d'\<rparr>) \<and>
      (\<forall>w''. R (w'\<lparr>w_db := d'\<rparr>) w'' \<longrightarrow> I w'' \<longrightarrow> Q (Inr a) w'')"
    and err: "\<And>e w''. R w w'' \<Longrightarrow> I w'' \<Longrightarrow> Q (Inl e) w''"
  shows "safe I R (sql q) Q w"
  unfolding sql_def
proof (rule safe_Ask)
  fix w' i assume w': "R w w'" "I w'"
  let ?d = "sql_effect q i (w_db w')"
  let ?w = "w'\<lparr>w_db := ?d\<rparr>"
  from sql_effect_cases [of q i "w_db w'"] have good: "I ?w \<and> R w' ?w"
  proof
    assume "?d = w_db w'"
    then show ?thesis using w' R_refl by simp
  next
    assume "\<exists>a. q i (w_db w') = Inr (a, ?d)"
    then show ?thesis using step [OF w'] by blast
  qed
  have "Q (sql_reply q i (w_db w')) w''" if w'': "R ?w w''" "I w''" for w''
  proof (cases "sql_reply q i (w_db w')")
    case (Inl er)
    moreover have "R w w''" using R_trans w'(1) good w''(1) by blast
    ultimately show ?thesis using err w''(2) by simp
  next
    case (Inr a)
    then obtain d' where q: "e_db i = NoFault" "q i (w_db w') = Inr (a, d')" by (auto simp: sql_reply_cases)
    then have "?d = d'" by (simp add: sql_effect_def)
    with step [OF w' q(2)] w'' Inr show ?thesis by simp
  qed
  then show "I ?w \<and> R w' ?w \<and> safe I R (Done (sql_reply q i (w_db w'))) Q ?w" using good by simp
qed

lemma safe_query:
  assumes "\<And>w' w'' i a. R w w' \<Longrightarrow> I w' \<Longrightarrow> q i (w_db w') = Inr a \<Longrightarrow> R w' w'' \<Longrightarrow> I w'' \<Longrightarrow> Q (Inr a) w''"
    and "\<And>e w''. R w w'' \<Longrightarrow> I w'' \<Longrightarrow> Q (Inl e) w''"
  shows "safe I R (sql_query q) Q w"
  unfolding sql_query_def
proof (rule safe_sql)
  fix w' i a d' assume w': "R w w'" "I w'" and q: "map_sum id (\<lambda>a. (a, w_db w')) (q i (w_db w')) = Inr (a, d')"
  from q have "q i (w_db w') = Inr a" "d' = w_db w'" by (cases "q i (w_db w')"; auto)+
  with assms(1) [OF w'] w' R_refl
  show "I (w'\<lparr>w_db := d'\<rparr>) \<and> R w' (w'\<lparr>w_db := d'\<rparr>) \<and>
      (\<forall>w''. R (w'\<lparr>w_db := d'\<rparr>) w'' \<longrightarrow> I w'' \<longrightarrow> Q (Inr a) w'')" by simp
qed (rule assms(2))

lemma safe_wrapp:
  assumes "I w" "safe I R p (\<lambda>r w. case r of Inl e \<Rightarrow> Q (Inl (Wrap s e)) w | Inr a \<Rightarrow> Q (Inr a) w) w"
    and "\<And>r w' w''. Q r w' \<Longrightarrow> R w' w'' \<Longrightarrow> I w'' \<Longrightarrow> Q r w''"
  shows "safe I R (wrapp s p) Q w"
  unfolding wrapp_def
  by (rule safe_bindp [OF assms(2) _ assms(1)])
     (auto simp: wrap_err_def split: sum.splits intro: assms(3))

lemma safe_call_out:
  assumes "\<And>w' i. R w w' \<Longrightarrow> I w' \<Longrightarrow>
      I (w'\<lparr>w_trace := ev (reply i) # w_trace w'\<rparr>) \<and> R w' (w'\<lparr>w_trace := ev (reply i) # w_trace w'\<rparr>) \<and>
      (\<forall>w''. R (w'\<lparr>w_trace := ev (reply i) # w_trace w'\<rparr>) w'' \<longrightarrow> I w'' \<longrightarrow> Q (reply i) w'')"
  shows "safe I R (call_out reply ev) Q w"
  unfolding call_out_def by (rule safe_Ask) (use assms in auto)

lemma safe_ask_env: "safe I R (ask_env f) (\<lambda>_ _. True) w"
  unfolding ask_env_def by (rule safe_Ask) (auto simp: R_refl)

lemma safe_Now: "safe I R Now (\<lambda>_ _. True) w"
  unfolding Now_def by (rule safe_Ask) (auto simp: R_refl)

lemma safe_Inc: "safe I R (Inc m l) (\<lambda>_ _. True) w"
  unfolding Inc_def by (rule safe_Act) (auto simp: met_I met_R)

lemma safe_Observe: "safe I R (Observe m l) (\<lambda>_ _. True) w"
  unfolding Observe_def by (rule safe_Inc)

lemma safe_if_Inc: "safe I R (if b then Inc m l else Done ()) (\<lambda>_ _. True) w"
  using safe_Inc by auto

text \<open>The same in front of a continuation.\<close>

lemma safe_then:
  assumes "safe I R p (\<lambda>_ _. True) w" "I w" "\<And>a w'. R w w' \<Longrightarrow> I w' \<Longrightarrow> safe I R (k a) Q w'"
  shows "safe I R (bindp p k) Q w"
  by (rule safe_bindp [OF assms(1) _ assms(2)]) (rule assms(3))

lemma safe_try_any:
  assumes "safe I R p (\<lambda>_ _. True) w" "I w"
    and "\<And>e w'. R w w' \<Longrightarrow> I w' \<Longrightarrow> safe I R (h e) Q w'"
    and "\<And>a w'. R w w' \<Longrightarrow> I w' \<Longrightarrow> safe I R (k a) Q w'"
  shows "safe I R (tryp p h k) Q w"
  by (rule safe_tryp [OF assms(1,2)]) (rule assms(3,4); assumption)+

lemma safe_any: "safe I R p Q w \<Longrightarrow> safe I R p (\<lambda>_ _. True) w"
  by (erule safe_conseq) simp

lemma safe_DoneI: "safe I R (Done a) (\<lambda>_ _. True) w"
  by simp

lemmas safe_calls = safe_ask_env safe_Now safe_Inc safe_Observe safe_if_Inc safe_DoneI

end

interpretation life: metered "sys_inv e" evolves for e
  by unfold_locales (auto intro: evolves_trans)

section \<open>What a process knows\<close>

text \<open>Facts about the database that stay true: a process that has read them may rely on them later.\<close>

definition known_mode :: "world \<Rightarrow> string \<Rightarrow> ExecutionMode \<Rightarrow> bool" where
  "known_mode w u m \<longleftrightarrow> (\<exists>r \<in> set (db_payments (w_db w)). pr_id r = u \<and> pr_execution_mode r = m)"

definition known_amount :: "world \<Rightarrow> string \<Rightarrow> int \<Rightarrow> bool" where
  "known_amount w u v \<longleftrightarrow> (\<exists>r \<in> set (db_payments (w_db w)). pr_id r = u \<and> pr_amount r = v)"

definition known_quote :: "world \<Rightarrow> string \<Rightarrow> string \<Rightarrow> bool" where
  "known_quote w u provider \<longleftrightarrow>
     (\<exists>q \<in> set (db_quotes (w_db w)). qr_payment_id q = u \<and> qr_selected q \<and> qr_provider q = provider)"

text \<open>An execution struct read from, or returned for, a row: its identity is the row's.\<close>

definition same_execution :: "Execution \<Rightarrow> Execution \<Rightarrow> bool" where
  "same_execution x y \<longleftrightarrow> x_ID y = x_ID x \<and> x_PaymentID y = x_PaymentID x \<and>
     x_BridgeProvider y = x_BridgeProvider x \<and> x_Nonce y = x_Nonce x"

definition copy_of :: "world \<Rightarrow> Execution \<Rightarrow> bool" where
  "copy_of w x \<longleftrightarrow> (\<exists>y \<in> set (db_executions (w_db w)). same_execution x y)"

definition signed_row :: "world \<Rightarrow> Execution \<Rightarrow> bool" where
  "signed_row w x \<longleftrightarrow> (\<exists>y \<in> set (db_executions (w_db w)). same_execution x y \<and> x_SignedTxHash y \<noteq> None)"

definition broadcast_row :: "world \<Rightarrow> Execution \<Rightarrow> bool" where
  "broadcast_row w x \<longleftrightarrow> (\<exists>y \<in> set (db_executions (w_db w)).
     same_execution x y \<and> x_SignedTxHash y \<noteq> None \<and> x_BroadcastAt y \<noteq> None)"

text \<open>The bytes a struct carries are a transaction made for it.\<close>

definition raw_ok :: "Executor \<Rightarrow> world \<Rightarrow> Execution \<Rightarrow> bool" where
  "raw_ok e w x \<longleftrightarrow> (\<forall>raw. x_RawSignedTx x = Some raw \<longrightarrow>
     (\<exists>stx. g_UnmarshalBinary (ex_Geth e) raw = Inr stx \<and> tx_for e w x stx))"

text \<open>The hash a struct carries is that of a transaction made for it.\<close>

definition hash_ok :: "Executor \<Rightarrow> world \<Rightarrow> Execution \<Rightarrow> bool" where
  "hash_ok e w x \<longleftrightarrow> (\<forall>h. x_SignedTxHash x = Some h \<longrightarrow>
     (\<exists>stx. tx_for e w x stx \<and> h = g_HashHex (ex_Geth e) (g_Hash (ex_Geth e) stx)))"

lemma known_mode_stable: "evolves w w' \<Longrightarrow> known_mode w u m \<Longrightarrow> known_mode w' u m"
  unfolding known_mode_def by (elim bexE, drule (1) evolves_payment, force simp: pay_le_def)

lemma known_amount_stable: "evolves w w' \<Longrightarrow> known_amount w u v \<Longrightarrow> known_amount w' u v"
  unfolding known_amount_def by (elim bexE, drule (1) evolves_payment, force simp: pay_le_def)

lemma known_quote_stable: "evolves w w' \<Longrightarrow> known_quote w u p \<Longrightarrow> known_quote w' u p"
  unfolding known_quote_def by (metis evolves_quote)

lemma same_execution_le: "same_execution x y \<Longrightarrow> exec_le y z \<Longrightarrow> same_execution x z"
  by (simp add: same_execution_def exec_le_def)

lemma copy_of_stable: "evolves w w' \<Longrightarrow> copy_of w x \<Longrightarrow> copy_of w' x"
  unfolding copy_of_def by (elim bexE, drule (1) evolves_execution, blast intro: same_execution_le)

lemma signed_row_stable: "evolves w w' \<Longrightarrow> signed_row w x \<Longrightarrow> signed_row w' x"
  unfolding signed_row_def
  by (elim bexE, drule (1) evolves_execution, elim bexE, rule bexI) (auto simp: same_execution_def exec_le_def)

lemma broadcast_row_stable: "evolves w w' \<Longrightarrow> broadcast_row w x \<Longrightarrow> broadcast_row w' x"
  unfolding broadcast_row_def
  by (elim bexE, drule (1) evolves_execution, elim bexE, rule bexI) (auto simp: same_execution_def exec_le_def)

lemma raw_ok_stable: "evolves w w' \<Longrightarrow> raw_ok e w x \<Longrightarrow> raw_ok e w' x"
  unfolding raw_ok_def by (meson exec_le_refl tx_for_stable)

lemma hash_ok_stable: "evolves w w' \<Longrightarrow> hash_ok e w x \<Longrightarrow> hash_ok e w' x"
  unfolding hash_ok_def by (meson exec_le_refl tx_for_stable)

lemmas stable = known_mode_stable known_amount_stable known_quote_stable copy_of_stable signed_row_stable
  broadcast_row_stable raw_ok_stable hash_ok_stable

lemma known_mode_row:
  assumes "sys_inv e w" "known_mode w u m" "r \<in> set (db_payments (w_db w))" "pr_id r = u"
  shows "pr_execution_mode r = m"
proof -
  have "distinct (map pr_id (db_payments (w_db w)))" using keys_okD [OF assms(1)] by (simp add: keys_ok_def)
  moreover from assms(2) obtain q where "q \<in> set (db_payments (w_db w))" "pr_id q = u" "pr_execution_mode q = m"
    by (auto simp: known_mode_def)
  ultimately show ?thesis using assms(3,4) distinct_map_eqD by metis
qed

lemma known_quote_unique:
  assumes "sys_inv e w" "known_quote w u p" "known_quote w u p'"
  shows "p = p'"
proof -
  have d: "distinct (map qr_payment_id (filter qr_selected (db_quotes (w_db w))))"
    using keys_okD [OF assms(1)] by (simp add: keys_ok_def)
  from assms obtain q q' where "q \<in> set (filter qr_selected (db_quotes (w_db w)))" "qr_provider q = p"
    "q' \<in> set (filter qr_selected (db_quotes (w_db w)))" "qr_provider q' = p'" "qr_payment_id q = qr_payment_id q'"
    by (auto simp: known_quote_def)
  with distinct_map_eqD [OF d] show ?thesis by blast
qed

lemma same_execution_tx_for: "same_execution x y \<Longrightarrow> tx_for e w x stx \<longleftrightarrow> tx_for e w y stx"
  by (simp add: same_execution_def tx_for_def)

lemma execution_copy:
  assumes "sys_inv e w" "x \<in> set (db_executions (w_db w))"
  shows "copy_of w x" "raw_ok e w x" "known_mode w (x_PaymentID x) ExecutionModeTestnet"
    "known_quote w (x_PaymentID x) (x_BridgeProvider x)" "uuid_in (x_ID x) = Some (x_ID x)"
    "x_SignedTxHash x \<noteq> None \<Longrightarrow> signed_row w x"
    "x_BroadcastAt x \<noteq> None \<Longrightarrow> broadcast_row w x" "hash_ok e w x"
proof -
  from assms have ok: "exec_ok e w x" by (simp add: sys_inv_def)
  have s: "same_execution x x" by (simp add: same_execution_def)
  show "copy_of w x" using assms(2) s by (auto simp: copy_of_def)
  show "raw_ok e w x" using ok unfolding exec_ok_def raw_ok_def by blast
  show "known_mode w (x_PaymentID x) ExecutionModeTestnet" using ok by (simp add: exec_ok_def known_mode_def)
  show "known_quote w (x_PaymentID x) (x_BridgeProvider x)" using ok by (simp add: exec_ok_def known_quote_def)
  show "uuid_in (x_ID x) = Some (x_ID x)" using ok by (simp add: exec_ok_def)
  show "signed_row w x" if "x_SignedTxHash x \<noteq> None" using assms(2) s that unfolding signed_row_def by blast
  show "broadcast_row w x" if "x_BroadcastAt x \<noteq> None"
    using assms(2) s that ok unfolding broadcast_row_def exec_ok_def by blast
  show "hash_ok e w x" unfolding hash_ok_def
  proof (intro allI impI)
    fix h assume h: "x_SignedTxHash x = Some h"
    with ok obtain raw where "x_RawSignedTx x = Some raw" by (cases "x_RawSignedTx x") (simp_all add: exec_ok_def)
    with ok h show "\<exists>stx. tx_for e w x stx \<and> h = g_HashHex (ex_Geth e) (g_Hash (ex_Geth e) stx)"
      unfolding exec_ok_def by fastforce
  qed
qed

lemma uuid_in_idem:
  assumes "sys_inv e w" "r \<in> set (db_payments (w_db w))"
  shows "uuid_in (pr_id r) = Some (pr_id r)"
  using assms by (simp add: sys_inv_def row_ok_def)

section \<open>Triples of the store\<close>

abbreviation keeps :: "Executor \<Rightarrow> 'a pr \<Rightarrow> ('a \<Rightarrow> world \<Rightarrow> bool) \<Rightarrow> world \<Rightarrow> bool" where
  "keeps e p Q w \<equiv> safe (sys_inv e) evolves p Q w"

lemma safe_transition:
  assumes upd: "\<And>w' now r u. evolves w w' \<Longrightarrow> sys_inv e w' \<Longrightarrow> uuid_in pid = Some u \<Longrightarrow>
      r \<in> set (db_payments (w_db w')) \<Longrightarrow> pr_id r = u \<Longrightarrow> pr_status r = from \<Longrightarrow>
      pay_le r (upd now r) \<and> row_ok (upd now r) \<and> status_ok e w' (upd now r)"
  shows "keeps e (sql (transition pid from upd))
    (\<lambda>r w. \<forall>row. r = Inr (Some row) \<longrightarrow> uuid_in pid = Some (pr_id row) \<and> known_mode w (pr_id row) (pr_execution_mode row)) w"
proof (rule life.safe_sql)
  fix w' i res d' assume w': "evolves w w'" "sys_inv e w'" and t: "transition pid from upd i (w_db w') = Inr (res, d')"
  let ?P = "db_payments (w_db w')"
  from t obtain u where u: "uuid_in pid = Some u"
    and res: "res = sql_row (sql_select (\<lambda>r. pr_id r = u \<and> pr_status r = from) ?P)"
    and d': "d' = (w_db w')\<lparr>db_payments := sql_update (\<lambda>r. pr_id r = u \<and> pr_status r = from) (upd (e_now i)) ?P\<rparr>"
    by (auto simp: transition_def uuid_arg_Inr Let_def)
  have step: "sys_inv e (w'\<lparr>w_db := d'\<rparr>) \<and> evolves w' (w'\<lparr>w_db := d'\<rparr>)"
    by (rule inv_transition [OF w'(2)]) (use upd [OF w' u] in \<open>auto simp: d'\<close>)
  moreover have "uuid_in pid = Some (pr_id row) \<and> known_mode w'' (pr_id row) (pr_execution_mode row)"
    if "res = Some row" and w'': "evolves (w'\<lparr>w_db := d'\<rparr>) w''" for row w''
  proof -
    from that(1) have "row \<in> set ?P" "pr_id row = u" using sql_row_select_Some [of _ ?P row] by (auto simp: res)
    then have "known_mode w' (pr_id row) (pr_execution_mode row)" by (auto simp: known_mode_def)
    with u \<open>pr_id row = u\<close> step w'' show ?thesis by (auto intro: stable evolves_trans)
  qed
  ultimately show "sys_inv e (w'\<lparr>w_db := d'\<rparr>) \<and> evolves w' (w'\<lparr>w_db := d'\<rparr>) \<and>
    (\<forall>w''. evolves (w'\<lparr>w_db := d'\<rparr>) w'' \<longrightarrow> sys_inv e w'' \<longrightarrow>
      (\<forall>row. Inr res = Inr (Some row) \<longrightarrow> uuid_in pid = Some (pr_id row) \<and> known_mode w'' (pr_id row) (pr_execution_mode row)))"
    by auto
qed simp

lemma inv_row: "sys_inv e w \<Longrightarrow> r \<in> set (db_payments (w_db w)) \<Longrightarrow> row_ok r \<and> status_ok e w r"
  by (simp add: sys_inv_def)

lemma safe_ClaimPayment:
  assumes "sys_inv e w"
  shows "keeps e (ClaimPayment pid)
    (\<lambda>r w. \<forall>mode. r = Inr (True, mode) \<longrightarrow> (\<exists>u. uuid_in pid = Some u \<and> known_mode w u mode)) w"
  unfolding ClaimPayment_def
proof (rule life.safe_tryp [OF safe_transition assms])
  fix w' :: world and now r u
  assume "sys_inv e w'" "r \<in> set (db_payments (w_db w'))" "pr_status r = ROUTED"
  then show "pay_le r (r\<lparr>pr_status := PROCESSING, pr_updated_at := now\<rparr>) \<and>
      row_ok (r\<lparr>pr_status := PROCESSING, pr_updated_at := now\<rparr>) \<and>
      status_ok e w' (r\<lparr>pr_status := PROCESSING, pr_updated_at := now\<rparr>)"
    using inv_row by (fastforce simp: pay_le_def row_ok_def status_ok_def)
qed (auto split: option.splits intro: stable)

lemma safe_CompletePayment:
  assumes "sys_inv e w" and pre: "\<And>u. uuid_in pid = Some u \<Longrightarrow> known_mode w u ExecutionModeSimulated \<and> s = outcome_status u"
  shows "keeps e (CompletePayment pid s) (\<lambda>_ _. True) w"
  unfolding CompletePayment_def
proof (rule life.safe_tryp [OF safe_transition assms(1)])
  fix w' :: world and now r u
  assume w': "evolves w w'" "sys_inv e w'" and u: "uuid_in pid = Some u" and
    r: "r \<in> set (db_payments (w_db w'))" "pr_id r = u" "pr_status r = PROCESSING"
  have "pr_execution_mode r = ExecutionModeSimulated"
    using known_mode_row [OF w'(2) known_mode_stable [OF w'(1)] r(1,2)] pre [OF u] by blast
  moreover have "s = outcome_status u" "terminal s" "s \<noteq> SUBMITTED"
    using pre [OF u] by (auto simp: outcome_status_def)
  ultimately show "pay_le r (r\<lparr>pr_status := s, pr_completed_at := Some now, pr_updated_at := now\<rparr>) \<and>
      row_ok (r\<lparr>pr_status := s, pr_completed_at := Some now, pr_updated_at := now\<rparr>) \<and>
      status_ok e w' (r\<lparr>pr_status := s, pr_completed_at := Some now, pr_updated_at := now\<rparr>)"
    using r inv_row [OF w'(2) r(1)] by (auto simp: pay_le_def row_ok_def status_ok_def)
qed (auto split: option.splits)

lemma safe_MarkProcessingFailed:
  assumes "sys_inv e w" and pre: "\<And>u. uuid_in pid = Some u \<Longrightarrow> known_mode w u ExecutionModeTestnet"
  shows "keeps e (MarkProcessingFailed pid reason) (\<lambda>_ _. True) w"
  unfolding MarkProcessingFailed_def
proof (rule life.safe_tryp [OF safe_transition assms(1)])
  fix w' :: world and now r u
  assume w': "evolves w w'" "sys_inv e w'" and u: "uuid_in pid = Some u" and
    r: "r \<in> set (db_payments (w_db w'))" "pr_id r = u" "pr_status r = PROCESSING"
  have "pr_execution_mode r = ExecutionModeTestnet"
    using known_mode_row [OF w'(2) known_mode_stable [OF w'(1)] r(1,2)] pre [OF u] by blast
  then show "pay_le r (r\<lparr>pr_status := FAILED, pr_failure_reason := Some reason, pr_updated_at := now\<rparr>) \<and>
      row_ok (r\<lparr>pr_status := FAILED, pr_failure_reason := Some reason, pr_updated_at := now\<rparr>) \<and>
      status_ok e w' (r\<lparr>pr_status := FAILED, pr_failure_reason := Some reason, pr_updated_at := now\<rparr>)"
    using r inv_row [OF w'(2) r(1)] by (auto simp: pay_le_def row_ok_def status_ok_def)
qed auto

lemma broadcast_row_for: "broadcast_row w x \<Longrightarrow> \<exists>y. broadcast_for w (x_PaymentID x) y \<and> same_execution x y"
  by (auto simp: broadcast_row_def broadcast_for_def same_execution_def)

lemma same_execution_filled: "same_execution x y \<Longrightarrow> filled_seen e w x \<longleftrightarrow> filled_seen e w y"
  by (simp add: filled_seen_def same_execution_tx_for) (simp add: same_execution_def)

lemma safe_MarkSubmitted:
  assumes "sys_inv e w" and pre: "\<And>u. uuid_in pid = Some u \<Longrightarrow> known_mode w u ExecutionModeTestnet \<and> x_PaymentID x = u"
    and b: "broadcast_row w x"
  shows "keeps e (MarkSubmitted pid) (\<lambda>_ _. True) w"
  unfolding MarkSubmitted_def
proof (rule life.safe_tryp [OF safe_transition assms(1)])
  fix w' :: world and now r u
  assume w': "evolves w w'" "sys_inv e w'" and u: "uuid_in pid = Some u" and
    r: "r \<in> set (db_payments (w_db w'))" "pr_id r = u" "pr_status r = PROCESSING"
  have "pr_execution_mode r = ExecutionModeTestnet"
    using known_mode_row [OF w'(2) known_mode_stable [OF w'(1)] r(1,2)] pre [OF u] by blast
  moreover obtain y where "broadcast_for w' u y"
    using broadcast_row_for [OF broadcast_row_stable [OF w'(1) b]] pre [OF u] by auto
  ultimately show "pay_le r (r\<lparr>pr_status := SUBMITTED, pr_updated_at := now\<rparr>) \<and>
      row_ok (r\<lparr>pr_status := SUBMITTED, pr_updated_at := now\<rparr>) \<and>
      status_ok e w' (r\<lparr>pr_status := SUBMITTED, pr_updated_at := now\<rparr>)"
    using r inv_row [OF w'(2) r(1)] by (auto simp: pay_le_def row_ok_def status_ok_def)
qed auto

lemma safe_CompleteSubmittedPayment:
  assumes "sys_inv e w" and pre: "\<And>u. uuid_in pid = Some u \<Longrightarrow> known_mode w u ExecutionModeTestnet \<and> x_PaymentID x = u"
    and b: "broadcast_row w x" and s: "s = FAILED \<or> s = COMPLETED \<and> filled_seen e w x"
  shows "keeps e (CompleteSubmittedPayment pid s) (\<lambda>_ _. True) w"
  unfolding CompleteSubmittedPayment_def
proof (rule life.safe_tryp [OF safe_transition assms(1)])
  fix w' :: world and now r u
  assume w': "evolves w w'" "sys_inv e w'" and u: "uuid_in pid = Some u" and
    r: "r \<in> set (db_payments (w_db w'))" "pr_id r = u" "pr_status r = SUBMITTED"
  have "pr_execution_mode r = ExecutionModeTestnet"
    using known_mode_row [OF w'(2) known_mode_stable [OF w'(1)] r(1,2)] pre [OF u] by blast
  moreover obtain y where "broadcast_for w' u y" "same_execution x y"
    using broadcast_row_for [OF broadcast_row_stable [OF w'(1) b]] pre [OF u] by auto
  moreover have "s = COMPLETED \<Longrightarrow> filled_seen e w' y"
    using s filled_seen_stable [OF w'(1) _ exec_le_refl] same_execution_filled [OF \<open>same_execution x y\<close>] by auto
  ultimately show "pay_le r (r\<lparr>pr_status := s, pr_completed_at := Some now, pr_updated_at := now\<rparr>) \<and>
      row_ok (r\<lparr>pr_status := s, pr_completed_at := Some now, pr_updated_at := now\<rparr>) \<and>
      status_ok e w' (r\<lparr>pr_status := s, pr_completed_at := Some now, pr_updated_at := now\<rparr>)"
    using r s inv_row [OF w'(2) r(1)] by (auto simp: pay_le_def row_ok_def status_ok_def)
qed (auto split: option.splits)

text \<open>Statements that only read.\<close>

lemma safe_query_any: "keeps e (sql_query q) (\<lambda>_ _. True) w"
  by (rule life.safe_query) simp_all

lemma safe_wrapp_any: "sys_inv e w \<Longrightarrow> keeps e p (\<lambda>_ _. True) w \<Longrightarrow> keeps e (wrapp s p) (\<lambda>_ _. True) w"
  by (rule life.safe_wrapp) (auto intro: life.safe_conseq split: sum.splits)

lemma safe_wrapp_query:
  assumes "sys_inv e w"
    and "\<And>w' i a. evolves w w' \<Longrightarrow> sys_inv e w' \<Longrightarrow> q i (w_db w') = Inr a \<Longrightarrow> K a w'"
    and stab: "\<And>a w1 w2. K a w1 \<Longrightarrow> evolves w1 w2 \<Longrightarrow> K a w2"
  shows "keeps e (wrapp s (sql_query q)) (\<lambda>r w. \<forall>a. r = Inr a \<longrightarrow> K a w) w"
proof (rule life.safe_wrapp [OF assms(1)])
  show "keeps e (sql_query q) (\<lambda>r w. case r of Inl er \<Rightarrow> \<forall>a. Inl (Wrap s er) = Inr a \<longrightarrow> K a w
          | Inr b \<Rightarrow> \<forall>a. Inr b = Inr a \<longrightarrow> K a w) w"
    by (rule life.safe_query) (simp_all, meson assms(2) stab)
qed (use stab in blast)

lemma safe_hopsForPayment: "sys_inv e w \<Longrightarrow> keeps e (hopsForPayment pid) (\<lambda>_ _. True) w"
  unfolding hopsForPayment_def by (intro safe_wrapp_any safe_query_any)

lemma select_known:
  "sys_inv e w \<Longrightarrow> r \<in> set (db_payments (w_db w)) \<Longrightarrow>
     uuid_in (pr_id r) = Some (pr_id r) \<and> known_mode w (pr_id r) (pr_execution_mode r)"
  by (auto simp: known_mode_def intro: uuid_in_idem)

lemma safe_StalePaymentIDs:
  assumes "sys_inv e w"
  shows "keeps e (StalePaymentIDs st) (\<lambda>r w. \<forall>ids. r = Inr ids \<longrightarrow>
    (\<forall>u \<in> set ids. uuid_in u = Some u \<and> known_mode w u ExecutionModeSimulated)) w"
  unfolding StalePaymentIDs_def
  by (rule safe_wrapp_query [OF assms]; (fastforce simp: sql_select_def dest: select_known | blast intro: stable))

lemma safe_StaleTestnetProcessingWithoutExecutionIDs:
  assumes "sys_inv e w"
  shows "keeps e (StaleTestnetProcessingWithoutExecutionIDs st) (\<lambda>r w. \<forall>ids. r = Inr ids \<longrightarrow>
    (\<forall>u \<in> set ids. uuid_in u = Some u \<and> known_mode w u ExecutionModeTestnet)) w"
  unfolding StaleTestnetProcessingWithoutExecutionIDs_def
  by (rule safe_wrapp_query [OF assms]; (fastforce simp: sql_select_def dest: select_known | blast intro: stable))

lemma safe_GetQuoteByPaymentID:
  assumes "sys_inv e w"
  shows "keeps e (GetQuoteByPaymentID pid) (\<lambda>r w. \<forall>a. r = Inr a \<longrightarrow>
    (\<forall>q. a = Some q \<longrightarrow> (\<exists>u. uuid_in pid = Some u \<and> known_quote w u (q_Provider q)))) w"
  unfolding GetQuoteByPaymentID_def
proof (rule safe_wrapp_query [OF assms])
  fix w' :: world and i a assume "uuid_arg pid (\<lambda>u. Inr (map_option scan_quote
        (sql_row (sql_select (\<lambda>r. qr_payment_id r = u \<and> qr_selected r) (db_quotes (w_db w')))))) = Inr a"
  then obtain u where u: "uuid_in pid = Some u"
    "a = map_option scan_quote (sql_row (sql_select (\<lambda>r. qr_payment_id r = u \<and> qr_selected r) (db_quotes (w_db w'))))"
    by (auto simp: uuid_arg_Inr)
  show "\<forall>q. a = Some q \<longrightarrow> (\<exists>u. uuid_in pid = Some u \<and> known_quote w' u (q_Provider q))"
  proof (intro allI impI)
    fix q assume "a = Some q"
    with u(2) have "map_option scan_quote (sql_row (sql_select (\<lambda>r. qr_payment_id r = u \<and> qr_selected r)
      (db_quotes (w_db w')))) = Some q" by simp
    then obtain r where r: "sql_row (sql_select (\<lambda>r. qr_payment_id r = u \<and> qr_selected r) (db_quotes (w_db w'))) = Some r"
      "q = scan_quote r" by auto
    from sql_row_select_Some [OF r(1)] r(2) u(1) show "\<exists>u. uuid_in pid = Some u \<and> known_quote w' u (q_Provider q)"
      by (auto simp: known_quote_def scan_quote_def)
  qed
next
  fix a w1 w2 assume *: "\<forall>q. a = Some q \<longrightarrow> (\<exists>u. uuid_in pid = Some u \<and> known_quote w1 u (q_Provider q))" "evolves w1 w2"
  show "\<forall>q. a = Some q \<longrightarrow> (\<exists>u. uuid_in pid = Some u \<and> known_quote w2 u (q_Provider q))"
    using * known_quote_stable [OF *(2)] by blast
qed

lemma safe_GetPayment:
  assumes "sys_inv e w"
  shows "keeps e (GetPayment pid) (\<lambda>r w. \<forall>p. r = Inr (Some p) \<longrightarrow>
    (\<exists>u v. uuid_in pid = Some u \<and> known_amount w u v \<and> 0 < v \<and> p_Amount p = numeric_text 18 v)) w"
  unfolding GetPayment_def
proof (rule life.safe_bindp [OF life.safe_query _ assms])
  let ?K = "\<lambda>p w. \<exists>u v. uuid_in pid = Some u \<and> known_amount w u v \<and> 0 < v \<and> p_Amount p = numeric_text 18 v"
  fix w' w'' :: world and i a
  assume w': "sys_inv e w'" "evolves w' w''" and q: "uuid_arg pid (\<lambda>u. Inr (map_option scan_payment
    (sql_row (sql_select (\<lambda>r. pr_id r = u) (db_payments (w_db w')))))) = Inr a"
  show "\<forall>p. Inr a = Inr (Some p) \<longrightarrow> ?K p w''"
  proof (intro allI impI)
    fix p assume "Inr a = Inr (Some p)"
    with q obtain u r where u: "uuid_in pid = Some u"
      "sql_row (sql_select (\<lambda>r. pr_id r = u) (db_payments (w_db w'))) = Some r" "p = scan_payment r"
      by (auto simp: uuid_arg_Inr)
    from sql_row_select_Some [OF u(2)] have r: "r \<in> set (db_payments (w_db w'))" "pr_id r = u" by auto
    then have "known_amount w' u (pr_amount r)" "0 < pr_amount r"
      using inv_row [OF w'(1)] by (auto simp: known_amount_def row_ok_def)
    with u known_amount_stable [OF w'(2)] show "?K p w''" by (auto simp: scan_payment_def)
  qed
next
  let ?K = "\<lambda>p w. \<exists>u v. uuid_in pid = Some u \<and> known_amount w u v \<and> 0 < v \<and> p_Amount p = numeric_text 18 v"
  fix r :: "Payment option res" and w'
  assume w': "sys_inv e w'" and r: "\<forall>p. r = Inr (Some p) \<longrightarrow> ?K p w'"
  show "keeps e (case r of
         Inl e \<Rightarrow>
           (case as_pg_error e of
              Some (code, _) \<Rightarrow> if code = ''22P02'' then Done (Inr None) else Done (Inl (Wrap ''get payment'' e))
            | None \<Rightarrow> Done (Inl (Wrap ''get payment'' e)))
       | Inr None \<Rightarrow> Done (Inr None)
       | Inr (Some p) \<Rightarrow>
           tryp (hopsForPayment (p_ID p)) (\<lambda>e. Done (Inl e))
             (\<lambda>hops. Done (Inr (Some (p\<lparr>p_Hops := hops\<rparr>))))) (\<lambda>r w. \<forall>p. r = Inr (Some p) \<longrightarrow> ?K p w) w'"
  proof (cases r)
    case (Inl er)
    then show ?thesis by (cases "as_pg_error er") auto
  next
    case (Inr a)
    show ?thesis
    proof (cases a)
      case (Some p)
      with Inr r have k: "?K p w'" by simp
      have "keeps e (tryp (hopsForPayment (p_ID p)) (\<lambda>e. Done (Inl e))
             (\<lambda>hops. Done (Inr (Some (p\<lparr>p_Hops := hops\<rparr>))))) (\<lambda>r w. \<forall>p. r = Inr (Some p) \<longrightarrow> ?K p w) w'"
        by (rule life.safe_try_any [OF safe_hopsForPayment [OF w'] w'])
           (use k in \<open>auto intro!: stable intro: evolves_trans\<close>)
      with Inr Some show ?thesis by simp
    qed (simp add: Inr)
  qed
qed simp

text \<open>Execution rows: everything a process knows about a struct it has read.\<close>

definition exec_known :: "Executor \<Rightarrow> world \<Rightarrow> Execution \<Rightarrow> bool" where
  "exec_known e w x \<longleftrightarrow> copy_of w x \<and> raw_ok e w x \<and> hash_ok e w x \<and> known_mode w (x_PaymentID x) ExecutionModeTestnet \<and>
     known_quote w (x_PaymentID x) (x_BridgeProvider x) \<and> uuid_in (x_ID x) = Some (x_ID x) \<and>
     uuid_in (x_PaymentID x) = Some (x_PaymentID x) \<and>
     (x_SignedTxHash x \<noteq> None \<longrightarrow> signed_row w x) \<and> (x_BroadcastAt x \<noteq> None \<longrightarrow> broadcast_row w x)"

lemma exec_known_stable: "evolves w w' \<Longrightarrow> exec_known e w x \<Longrightarrow> exec_known e w' x"
  unfolding exec_known_def by (meson stable)

lemma exec_known_row:
  assumes "sys_inv e w" "x \<in> set (db_executions (w_db w))"
  shows "exec_known e w x"
proof -
  have "known_mode w (x_PaymentID x) ExecutionModeTestnet" by (rule execution_copy(3) [OF assms])
  then obtain r where "r \<in> set (db_payments (w_db w))" "pr_id r = x_PaymentID x" by (auto simp: known_mode_def)
  with uuid_in_idem [OF assms(1), of r] have "uuid_in (x_PaymentID x) = Some (x_PaymentID x)" by simp
  then show ?thesis using execution_copy [OF assms] unfolding exec_known_def by blast
qed

lemma safe_GetExecutionByPaymentID:
  assumes "sys_inv e w"
  shows "keeps e (GetExecutionByPaymentID pid) (\<lambda>r w. \<forall>a. r = Inr a \<longrightarrow> (\<forall>x. a = Some x \<longrightarrow> exec_known e w x)) w"
  unfolding GetExecutionByPaymentID_def
  by (rule safe_wrapp_query [OF assms])
     (auto simp: uuid_arg_Inr dest!: sql_row_select_Some intro: exec_known_row exec_known_stable)

lemma safe_ReconciliationCandidates:
  assumes "sys_inv e w"
  shows "keeps e (ReconciliationCandidates st) (\<lambda>r w. \<forall>xs. r = Inr xs \<longrightarrow> (\<forall>x \<in> set xs. exec_known e w x)) w"
  unfolding ReconciliationCandidates_def
  by (rule safe_wrapp_query [OF assms]) (auto simp: sql_select_def intro: exec_known_row exec_known_stable)

lemma safe_TryCreateExecution:
  assumes "sys_inv e w" and u: "uuid_in (cp_PaymentID p) = Some (cp_PaymentID p)"
    and m: "known_mode w (cp_PaymentID p) ExecutionModeTestnet"
    and q: "known_quote w (cp_PaymentID p) (cp_BridgeProvider p)" and wal: "cp_WalletAddress p = wallet_hex e"
  shows "keeps e (TryCreateExecution p) (\<lambda>r w. \<forall>x. r = Inr (Some x) \<longrightarrow>
    exec_known e w x \<and> x_PaymentID x = cp_PaymentID p \<and> x_BridgeProvider x = cp_BridgeProvider p) w"
  unfolding TryCreateExecution_def
proof (rule life.safe_tryp [OF life.safe_sql assms(1)])
  let ?K = "\<lambda>x w. exec_known e w x \<and> x_PaymentID x = cp_PaymentID p \<and> x_BridgeProvider x = cp_BridgeProvider p"
  fix w' i x d' assume w': "evolves w w'" "sys_inv e w'" and t: "create_execution_tx p i (w_db w') = Inr (x, d')"
  obtain n where x: "x = new_execution i p (cp_PaymentID p) n" and d': "x \<in> set (db_executions d')"
    by (rule create_execution_txD [OF t]) (use u that in auto)
  have step: "sys_inv e (w'\<lparr>w_db := d'\<rparr>) \<and> evolves w' (w'\<lparr>w_db := d'\<rparr>)"
    by (rule inv_create_execution_tx [OF w'(2) t _ u wal])
       (use known_mode_stable [OF w'(1) m] known_quote_stable [OF w'(1) q] in \<open>simp_all add: known_mode_def known_quote_def\<close>)
  then have "exec_known e (w'\<lparr>w_db := d'\<rparr>) x" using d' by (intro exec_known_row) simp_all
  with x have "?K x (w'\<lparr>w_db := d'\<rparr>)" by (simp add: new_execution_def)
  with step show "sys_inv e (w'\<lparr>w_db := d'\<rparr>) \<and> evolves w' (w'\<lparr>w_db := d'\<rparr>) \<and>
    (\<forall>w''. evolves (w'\<lparr>w_db := d'\<rparr>) w'' \<longrightarrow> sys_inv e w'' \<longrightarrow> (\<forall>y. Inr x = Inr y \<longrightarrow> ?K y w''))"
    by (auto intro: exec_known_stable)
next
  fix er w'
  show "keeps e (case as_pg_error er of None \<Rightarrow> Done (Inl er)
     | Some (code, constraint) \<Rightarrow>
        if code = ''23505'' \<and> constraint = executionExistsConstraint then Done (Inr None) else Done (Inl er))
    (\<lambda>r w. \<forall>x. r = Inr (Some x) \<longrightarrow>
    exec_known e w x \<and> x_PaymentID x = cp_PaymentID p \<and> x_BridgeProvider x = cp_BridgeProvider p) w'"
    by (cases "as_pg_error er") auto
next
  fix x w'
  assume "\<forall>y. Inr x = Inr y \<longrightarrow> exec_known e w' y \<and> x_PaymentID y = cp_PaymentID p \<and> x_BridgeProvider y = cp_BridgeProvider p"
  then have x: "exec_known e w' x" "x_PaymentID x = cp_PaymentID p" "x_BridgeProvider x = cp_BridgeProvider p" by auto
  from x(2) have "x\<lparr>x_PaymentID := cp_PaymentID p\<rparr> = x" by simp
  then show "keeps e (Done (Inr (Some (x\<lparr>x_PaymentID := cp_PaymentID p\<rparr>)))) (\<lambda>r w. \<forall>x. r = Inr (Some x) \<longrightarrow>
    exec_known e w x \<and> x_PaymentID x = cp_PaymentID p \<and> x_BridgeProvider x = cp_BridgeProvider p) w'"
    using x by (simp only: safe.simps) (auto intro: exec_known_stable)
qed simp

text \<open>Updates of one execution row.\<close>

lemma safe_update_execution:
  assumes "sys_inv e w" and id: "uuid_in xid = Some xid"
    and upd: "\<And>w' now x. evolves w w' \<Longrightarrow> sys_inv e w' \<Longrightarrow> x \<in> set (db_executions (w_db w')) \<Longrightarrow> x_ID x = xid \<Longrightarrow>
      exec_le x (upd now x) \<and> exec_ok e w' (upd now x)"
    and post: "\<And>w' w'' now. evolves w w' \<Longrightarrow> sys_inv e w' \<Longrightarrow>
      w'' = w'\<lparr>w_db := (w_db w')\<lparr>db_executions := sql_update (\<lambda>x. x_ID x = xid) (upd now) (db_executions (w_db w'))\<rparr>\<rparr> \<Longrightarrow>
      evolves w' w'' \<Longrightarrow> sys_inv e w'' \<Longrightarrow> K w''"
    and stab: "\<And>w1 w2. K w1 \<Longrightarrow> evolves w1 w2 \<Longrightarrow> K w2"
  shows "keeps e (wrapp s (sql (update_execution xid upd))) (\<lambda>r w. \<forall>a. r = Inr a \<longrightarrow> K w) w"
proof (rule life.safe_wrapp [OF assms(1)])
  show "keeps e (sql (update_execution xid upd)) (\<lambda>r w. case r of Inl er \<Rightarrow> \<forall>a. Inl (Wrap s er) = Inr a \<longrightarrow> K w
          | Inr b \<Rightarrow> \<forall>a. Inr b = Inr a \<longrightarrow> K w) w"
  proof (rule life.safe_sql)
    fix w' i a d' assume w': "evolves w w'" "sys_inv e w'" and t: "update_execution xid upd i (w_db w') = Inr (a, d')"
    from t id have d': "d' = (w_db w')\<lparr>db_executions := sql_update (\<lambda>x. x_ID x = xid) (upd (e_now i)) (db_executions (w_db w'))\<rparr>"
      by (auto simp: update_execution_def uuid_arg_Inr)
    have step: "sys_inv e (w'\<lparr>w_db := d'\<rparr>) \<and> evolves w' (w'\<lparr>w_db := d'\<rparr>)"
      by (rule inv_execution [OF w'(2)]) (use upd [OF w'] in \<open>auto simp: d'\<close>)
    moreover have "K (w'\<lparr>w_db := d'\<rparr>)" by (rule post [OF w']) (use step d' in auto)
    ultimately show "sys_inv e (w'\<lparr>w_db := d'\<rparr>) \<and> evolves w' (w'\<lparr>w_db := d'\<rparr>) \<and>
      (\<forall>w''. evolves (w'\<lparr>w_db := d'\<rparr>) w'' \<longrightarrow> sys_inv e w'' \<longrightarrow>
        (case Inr a of Inl er \<Rightarrow> \<forall>a. Inl (Wrap s er) = Inr a \<longrightarrow> K w'' | Inr b \<Rightarrow> \<forall>a. Inr b = Inr a \<longrightarrow> K w''))"
      using stab by auto
  qed simp
qed (use stab in blast)

lemma copy_row:
  assumes "sys_inv e w" "copy_of w x" "y \<in> set (db_executions (w_db w))" "x_ID y = x_ID x"
  shows "same_execution x y"
proof -
  have "distinct (map x_ID (db_executions (w_db w)))" using keys_okD [OF assms(1)] by (simp add: keys_ok_def)
  moreover obtain z where "z \<in> set (db_executions (w_db w))" "same_execution x z" using assms(2) by (auto simp: copy_of_def)
  ultimately show ?thesis using assms(3,4) distinct_map_eqD [of x_ID _ y z] by (auto simp: same_execution_def)
qed

lemma copy_after_update:
  assumes "copy_of w x" "w' = w\<lparr>w_db := (w_db w)\<lparr>db_executions := sql_update (\<lambda>y. x_ID y = x_ID x) upd (db_executions (w_db w))\<rparr>\<rparr>"
    and "\<And>y. same_execution x y \<Longrightarrow> same_execution x (upd y)"
  shows "\<exists>y \<in> set (db_executions (w_db w)). same_execution x (upd y) \<and> upd y \<in> set (db_executions (w_db w'))"
proof -
  from assms(1) obtain y where "y \<in> set (db_executions (w_db w))" "same_execution x y" by (auto simp: copy_of_def)
  moreover from this have "upd y \<in> set (sql_update (\<lambda>y. x_ID y = x_ID x) upd (db_executions (w_db w)))"
    by (intro in_sql_update_key) (simp_all add: same_execution_def)
  ultimately show ?thesis using assms(2,3) by auto
qed

lemma safe_PersistSignedExecution:
  assumes "sys_inv e w" "uuid_in (x_ID x) = Some (x_ID x)" and c: "copy_of w x"
    and raw: "g_UnmarshalBinary (ex_Geth e) raw = Inr stx" and tx: "tx_for e w x stx"
    and h: "h = g_HashHex (ex_Geth e) (g_Hash (ex_Geth e) stx)"
  shows "keeps e (PersistSignedExecution (x_ID x) raw h ref) (\<lambda>r w. \<forall>a. r = Inr a \<longrightarrow> signed_row w x) w"
  unfolding PersistSignedExecution_def
proof (rule safe_update_execution [OF assms(1,2)])
  fix w' :: world and now y
  assume w': "evolves w w'" "sys_inv e w'" and y: "y \<in> set (db_executions (w_db w'))" "x_ID y = x_ID x"
  let ?y = "y\<lparr>x_RawSignedTx := Some raw, x_SignedTxHash := Some h, x_ProviderReferenceID := ref, x_UpdatedAt := now\<rparr>"
  have "same_execution x y" by (rule copy_row [OF w'(2) copy_of_stable [OF w'(1) c] y])
  then have "same_execution x ?y" by (simp add: same_execution_def)
  then have "tx_for e w' ?y stx" using tx_for_stable [OF w'(1) tx exec_le_refl] same_execution_tx_for by blast
  moreover have "exec_ok e w' y" using w'(2) y(1) by (simp add: sys_inv_def)
  ultimately show "exec_le y ?y \<and> exec_ok e w' ?y"
    using raw h by (auto simp: exec_le_def exec_ok_def tx_for_def)
next
  fix w' w'' :: world and now
  assume w': "evolves w w'" and w'': "w'' = w'\<lparr>w_db := (w_db w')\<lparr>db_executions := sql_update (\<lambda>y. x_ID y = x_ID x)
    (\<lambda>y. y\<lparr>x_RawSignedTx := Some raw, x_SignedTxHash := Some h, x_ProviderReferenceID := ref, x_UpdatedAt := now\<rparr>) (db_executions (w_db w'))\<rparr>\<rparr>"
  obtain y where y: "same_execution x (y\<lparr>x_RawSignedTx := Some raw, x_SignedTxHash := Some h, x_ProviderReferenceID := ref, x_UpdatedAt := now\<rparr>)"
    "y\<lparr>x_RawSignedTx := Some raw, x_SignedTxHash := Some h, x_ProviderReferenceID := ref, x_UpdatedAt := now\<rparr> \<in> set (db_executions (w_db w''))"
    using copy_after_update [OF copy_of_stable [OF w' c] w''] by (auto simp: same_execution_def)
  show "signed_row w'' x" unfolding signed_row_def by (rule bexI [OF _ y(2)]) (use y(1) in simp)
qed (rule signed_row_stable; assumption)

lemma safe_MarkExecutionBroadcast:
  assumes "sys_inv e w" "uuid_in (x_ID x) = Some (x_ID x)" and s: "signed_row w x"
  shows "keeps e (MarkExecutionBroadcast (x_ID x)) (\<lambda>r w. \<forall>a. r = Inr a \<longrightarrow> broadcast_row w x) w"
  unfolding MarkExecutionBroadcast_def
proof (rule safe_update_execution [OF assms(1,2)])
  fix w' :: world and now y
  assume w': "evolves w w'" "sys_inv e w'" and y: "y \<in> set (db_executions (w_db w'))" "x_ID y = x_ID x"
  obtain z where z: "z \<in> set (db_executions (w_db w'))" "x_ID z = x_ID x" "x_SignedTxHash z \<noteq> None"
    using signed_row_stable [OF w'(1) s] by (auto simp: signed_row_def same_execution_def)
  have "distinct (map x_ID (db_executions (w_db w')))" using keys_okD [OF w'(2)] by (simp add: keys_ok_def)
  with y z have "x_SignedTxHash y \<noteq> None" by (metis distinct_map_eqD)
  moreover have "exec_ok e w' y" using w'(2) y(1) by (simp add: sys_inv_def)
  ultimately show "exec_le y (y\<lparr>x_BroadcastAt := Some now, x_UpdatedAt := now\<rparr>) \<and>
      exec_ok e w' (y\<lparr>x_BroadcastAt := Some now, x_UpdatedAt := now\<rparr>)"
    by (auto simp: exec_le_def exec_ok_def tx_for_def)
next
  fix w' w'' :: world and now
  assume w': "evolves w w'" and w'': "w'' = w'\<lparr>w_db := (w_db w')\<lparr>db_executions := sql_update (\<lambda>y. x_ID y = x_ID x)
    (\<lambda>y. y\<lparr>x_BroadcastAt := Some now, x_UpdatedAt := now\<rparr>) (db_executions (w_db w'))\<rparr>\<rparr>"
  obtain y where y: "y \<in> set (db_executions (w_db w'))" "same_execution x y" "x_SignedTxHash y \<noteq> None"
    using signed_row_stable [OF w' s] by (auto simp: signed_row_def)
  then have "y\<lparr>x_BroadcastAt := Some now, x_UpdatedAt := now\<rparr> \<in> set (db_executions (w_db w''))"
    unfolding w'' by (auto intro!: in_sql_update_key simp: same_execution_def)
  with y show "broadcast_row w'' x"
    unfolding broadcast_row_def by (intro bexI [of _ "y\<lparr>x_BroadcastAt := Some now, x_UpdatedAt := now\<rparr>"]) (auto simp: same_execution_def)
qed (rule broadcast_row_stable; assumption)

lemma safe_UpdateExecutionExternalStatus:
  assumes "sys_inv e w" "uuid_in xid = Some xid"
  shows "keeps e (UpdateExecutionExternalStatus xid st raw (Some t)) (\<lambda>_ _. True) w"
proof -
  have "keeps e (UpdateExecutionExternalStatus xid st raw (Some t)) (\<lambda>r w. \<forall>a. r = Inr a \<longrightarrow> True) w"
    unfolding UpdateExecutionExternalStatus_def
  proof (rule safe_update_execution [OF assms])
    fix w' :: world and now y
    assume "sys_inv e w'" "y \<in> set (db_executions (w_db w'))"
    then have "exec_ok e w' y" by (simp add: sys_inv_def)
    then show "exec_le y (y\<lparr>x_ExternalStatus := st, x_RawExternalStatus := Some raw, x_ConfirmedAt := Some t, x_UpdatedAt := now\<rparr>) \<and>
      exec_ok e w' (y\<lparr>x_ExternalStatus := st, x_RawExternalStatus := Some raw, x_ConfirmedAt := Some t, x_UpdatedAt := now\<rparr>)"
      by (auto simp: exec_le_def exec_ok_def tx_for_def)
  qed auto
  then show ?thesis by simp
qed

lemma safe_SeedWalletNonce:
  assumes "sys_inv e w"
  shows "keeps e (SeedWalletNonce a n) (\<lambda>_ _. True) w"
  unfolding SeedWalletNonce_def
proof (intro safe_wrapp_any [OF assms] life.safe_sql)
  fix w' :: world and i r d'
  assume w': "evolves w w'" "sys_inv e w'" and t: "(if \<not> int8_fits n then Inl (PgError ''22003'' '''')
      else Inr ((), case db_wallet_nonces (w_db w') a of None \<Rightarrow>
          (w_db w')\<lparr>db_wallet_nonces := (db_wallet_nonces (w_db w'))(a \<mapsto> n)\<rparr> | Some _ \<Rightarrow> w_db w')) = Inr (r, d')"
  have "sys_inv e (w'\<lparr>w_db := d'\<rparr>) \<and> evolves w' (w'\<lparr>w_db := d'\<rparr>)"
  proof (cases "db_wallet_nonces (w_db w') a")
    case None
    with t inv_seed [OF w'(2) None] show ?thesis by (auto split: if_splits)
  next
    case (Some k)
    with t w' show ?thesis by (auto split: if_splits)
  qed
  then show "sys_inv e (w'\<lparr>w_db := d'\<rparr>) \<and> evolves w' (w'\<lparr>w_db := d'\<rparr>) \<and>
    (\<forall>w''. evolves (w'\<lparr>w_db := d'\<rparr>) w'' \<longrightarrow> sys_inv e w'' \<longrightarrow> True)" by simp
qed simp

text \<open>Creating payments and publishing events.\<close>

lemma safe_findByIdempotencyKey: "sys_inv e w \<Longrightarrow> keeps e (findByIdempotencyKey p) (\<lambda>_ _. True) w"
  unfolding findByIdempotencyKey_def Let_def by (intro safe_wrapp_any safe_query_any)

lemma safe_resolve_existing: "sys_inv e w \<Longrightarrow> keeps e (resolve_existing x m) (\<lambda>_ _. True) w"
  unfolding resolve_existing_def by (auto intro!: life.safe_try_any safe_hopsForPayment)

lemma safe_create_tx: "keeps e (sql (create_tx p)) (\<lambda>_ _. True) w"
  by (rule life.safe_sql) (use inv_create_tx in blast)+

lemma safe_CreateOrGetPayment:
  assumes "sys_inv e w"
  shows "keeps e (CreateOrGetPayment p) (\<lambda>_ _. True) w"
  unfolding CreateOrGetPayment_def Let_def
  by (auto intro!: life.safe_try_any safe_findByIdempotencyKey safe_resolve_existing safe_create_tx
        safe_wrapp_any safe_query_any assms split: option.splits prod.splits)

lemma safe_LookupByIdempotencyKey:
  assumes "sys_inv e w"
  shows "keeps e (LookupByIdempotencyKey p) (\<lambda>_ _. True) w"
  unfolding LookupByIdempotencyKey_def
  by (auto intro!: life.safe_try_any safe_findByIdempotencyKey safe_resolve_existing assms split: option.splits prod.splits)

text \<open>A claimed outbox event is a row of the table, and its acknowledgement is in the history.\<close>

definition known_event :: "world \<Rightarrow> OutboxEvent \<Rightarrow> bool" where
  "known_event w evt \<longleftrightarrow> (\<exists>x \<in> set (db_outbox (w_db w)).
     ob_id x = oe_ID evt \<and> ob_payment_id x = oe_PaymentID evt \<and> ob_payload x = oe_Payload evt)"

lemma known_event_stable: "evolves w w' \<Longrightarrow> known_event w evt \<Longrightarrow> known_event w' evt"
  unfolding known_event_def by (elim bexE, drule (1) evolves_outbox, force simp: out_le_def)

lemma safe_claim_outbox:
  "keeps e (sql claim_outbox) (\<lambda>r w. \<forall>evt tx. r = Inr (Some (evt, tx)) \<longrightarrow> known_event w evt) w"
proof (rule life.safe_sql)
  fix w' :: world and i a d'
  assume w': "evolves w w'" "sys_inv e w'" and c: "claim_outbox i (w_db w') = Inr (a, d')"
  have "sys_inv e (w'\<lparr>w_db := d'\<rparr>) \<and> evolves w' (w'\<lparr>w_db := d'\<rparr>) \<and> (\<forall>evt tx. a = Some (evt, tx) \<longrightarrow> known_event w' evt)"
  proof (cases "sql_row (sort_key ob_created_at (shuffle (e_order i) (sql_select
            (\<lambda>x. ob_published_at x = None \<and> db_outbox_locks (w_db w') (ob_id x) = None) (db_outbox (w_db w')))))")
    case None
    with c have "a = None" "d' = w_db w'" by (simp_all add: claim_outbox_def)
    with w' show ?thesis by simp
  next
    case (Some x)
    then have "x \<in> set (db_outbox (w_db w'))" by (auto dest!: sql_row_Some_in simp: sql_select_def)
    then have "known_event w' (scan_outbox x)" by (auto simp: known_event_def scan_outbox_def)
    with c Some inv_locks [OF w'(2)] show ?thesis by (auto simp: claim_outbox_def)
  qed
  then show "sys_inv e (w'\<lparr>w_db := d'\<rparr>) \<and> evolves w' (w'\<lparr>w_db := d'\<rparr>) \<and>
    (\<forall>w''. evolves (w'\<lparr>w_db := d'\<rparr>) w'' \<longrightarrow> sys_inv e w'' \<longrightarrow>
      (\<forall>evt tx. Inr a = Inr (Some (evt, tx)) \<longrightarrow> known_event w'' evt))"
    by (auto intro: known_event_stable evolves_trans)
qed simp

lemma safe_rollback_outbox:
  assumes "\<And>w'. evolves w w' \<Longrightarrow> sys_inv e w' \<Longrightarrow> keeps e p Q w'"
  shows "keeps e (Act (rollback_outbox oid tx) p) Q w"
proof (rule life.safe_Act)
  fix w' assume w': "evolves w w'" "sys_inv e w'"
  have "sys_inv e (rollback_outbox oid tx w') \<and> evolves w' (rollback_outbox oid tx w')"
  proof (cases "db_outbox_locks (w_db w') oid = Some tx")
    case True
    then have "rollback_outbox oid tx w' = w'\<lparr>w_db := (w_db w')\<lparr>
        db_outbox_locks := (db_outbox_locks (w_db w'))(oid := None), db_next_tx := db_next_tx (w_db w')\<rparr>\<rparr>"
      by (simp add: rollback_outbox_def)
    then show ?thesis by (rule inv_locks [OF w'(2)])
  qed (simp add: rollback_outbox_def w')
  with assms w'(1) show "sys_inv e (rollback_outbox oid tx w') \<and> evolves w' (rollback_outbox oid tx w') \<and>
      keeps e p Q (rollback_outbox oid tx w')" by (blast intro: evolves_trans)
qed

lemma safe_publish_event:
  assumes "sys_inv e w" "known_event w evt"
  shows "keeps e (publish_event evt) (\<lambda>r w. r = Inr () \<longrightarrow> EvPublish (oe_PaymentID evt) (oe_Payload evt) (Inr ()) \<in> set (w_trace w)) w"
  unfolding publish_event_def
proof (rule life.safe_call_out)
  fix w' i assume w': "evolves w w'" "sys_inv e w'"
  let ?ev = "EvPublish (oe_PaymentID evt) (oe_Payload evt) (e_publish i)"
  let ?w = "w'\<lparr>w_trace := ?ev # w_trace w'\<rparr>"
  have "event_ok e ?w ?ev" using known_event_stable [OF w'(1) assms(2)] by (auto simp: event_ok_def known_event_def)
  then have "sys_inv e ?w" by (rule inv_event [OF w'(2)])
  then show "sys_inv e ?w \<and> evolves w' ?w \<and> (\<forall>w''. evolves ?w w'' \<longrightarrow> sys_inv e w'' \<longrightarrow>
      e_publish i = Inr () \<longrightarrow> EvPublish (oe_PaymentID evt) (oe_Payload evt) (Inr ()) \<in> set (w_trace w''))"
    using evolves_trace by fastforce
qed

lemma safe_commit_outbox:
  assumes "known_event w evt" "EvPublish (oe_PaymentID evt) (oe_Payload evt) (Inr ()) \<in> set (w_trace w)"
  shows "keeps e (sql (commit_outbox (oe_ID evt) tx)) (\<lambda>_ _. True) w"
proof (rule life.safe_sql)
  fix w' :: world and i a d'
  assume w': "evolves w w'" "sys_inv e w'" and c: "commit_outbox (oe_ID evt) tx i (w_db w') = Inr (a, d')"
  have d: "distinct (map ob_id (db_outbox (w_db w')))" using keys_okD [OF w'(2)] by (simp add: keys_ok_def)
  obtain y where y: "y \<in> set (db_outbox (w_db w'))" "ob_id y = oe_ID evt" "ob_payment_id y = oe_PaymentID evt" "ob_payload y = oe_Payload evt"
    using known_event_stable [OF w'(1) assms(1)] by (auto simp: known_event_def)
  have "EvPublish (ob_payment_id x) (ob_payload x) (Inr ()) \<in> set (w_trace w')"
    if "x \<in> set (db_outbox (w_db w'))" "ob_id x = oe_ID evt" for x
    using distinct_map_eqD [OF d that(1) y(1)] that(2) y evolves_trace [OF w'(1) assms(2)] by simp
  from inv_publish [OF w'(2) this] c
  have "sys_inv e (w'\<lparr>w_db := d'\<rparr>) \<and> evolves w' (w'\<lparr>w_db := d'\<rparr>)"
    by (auto simp: commit_outbox_def split: if_splits)
  then show "sys_inv e (w'\<lparr>w_db := d'\<rparr>) \<and> evolves w' (w'\<lparr>w_db := d'\<rparr>) \<and>
    (\<forall>w''. evolves (w'\<lparr>w_db := d'\<rparr>) w'' \<longrightarrow> sys_inv e w'' \<longrightarrow> True)" by simp
qed simp

lemma safe_PublishNextOutboxEvent:
  assumes "sys_inv e w"
  shows "keeps e (PublishNextOutboxEvent publish_event) (\<lambda>_ _. True) w"
  unfolding PublishNextOutboxEvent_def
proof (rule life.safe_tryp [OF safe_claim_outbox assms])
  fix c :: "(OutboxEvent \<times> nat) option" and w'
  assume w': "sys_inv e w'" and c: "\<forall>evt tx. Inr c = Inr (Some (evt, tx)) \<longrightarrow> known_event w' evt"
  show "keeps e (case c of None \<Rightarrow> Done (Inr False)
       | Some (evt, tx) \<Rightarrow>
           tryp (publish_event evt)
             (\<lambda>e. Act (rollback_outbox (oe_ID evt) tx) (Done (Inl (Wrap ''publish outbox event'' e))))
             (\<lambda>_. tryp (sql (commit_outbox (oe_ID evt) tx))
                (\<lambda>e. Act (rollback_outbox (oe_ID evt) tx) (Done (Inl (Wrap ''commit outbox publish'' e))))
                (\<lambda>_. Done (Inr True)))) (\<lambda>_ _. True) w'"
  proof (cases c)
    case (Some a)
    then obtain evt tx where a: "c = Some (evt, tx)" by (cases a) auto
    with c have k: "known_event w' evt" by simp
    show ?thesis unfolding a
      by simp (rule life.safe_tryp [OF safe_publish_event [OF w' k] w'],
        auto intro!: safe_rollback_outbox life.safe_try_any safe_commit_outbox intro: known_event_stable [OF _ k])
  qed simp
qed simp

lemma safe_PollOnce:
  assumes "sys_inv e w"
  shows "keeps e PollOnce (\<lambda>_ _. True) w"
  unfolding PollOnce_def
  by (intro life.safe_then safe_PublishNextOutboxEvent life.safe_calls assms)

section \<open>Triples of the executor\<close>

text \<open>
  What the executor relies on outside the repository: go-ethereum's signing and encoding, and that
  an available quote echoes the amount it was asked for.
\<close>

definition executor_ok :: "Executor \<Rightarrow> bool" where
  "executor_ok e \<longleftrightarrow> geth_ok (ex_Geth e) \<and>
     (\<forall>name pv i req q. ex_QuoteProviders e name = Some pv \<longrightarrow> pv_GetQuote pv i req = Inr q \<longrightarrow> b_Available q \<longrightarrow>
        b_InputAmountBaseUnits q = Some (rq_AmountBaseUnits req))"

lemma safe_silent_call:
  assumes "\<And>w. event_ok e w (ev (reply i))" "\<And>i w. event_ok e w (ev (reply i))"
  shows "keeps e (call_out reply ev) (\<lambda>r _. \<exists>i. r = reply i) w"
  by (rule life.safe_call_out) (auto intro: inv_event assms)

lemma safe_get_quote: "keeps e (get_quote pv req) (\<lambda>r _. \<exists>i. r = pv_GetQuote pv i req) w"
  unfolding get_quote_def by (rule safe_silent_call) (simp_all add: event_ok_def)

lemma safe_lookup: "keeps e (call_out e_lookup (EvLookup h)) (\<lambda>_ _. True) w"
  by (rule life.safe_any [OF safe_silent_call]) (simp_all add: event_ok_def)

lemma safe_receipt: "keeps e (call_out e_receipt (EvReceipt h)) (\<lambda>_ _. True) w"
  by (rule life.safe_any [OF safe_silent_call]) (simp_all add: event_ok_def)

lemma safe_send:
  assumes "copy_of w x" "tx_for e w x stx"
  shows "keeps e (call_out e_send (EvSend stx)) (\<lambda>_ _. True) w"
proof (rule life.safe_call_out)
  fix w' i assume w': "evolves w w'" "sys_inv e w'"
  let ?w = "w'\<lparr>w_trace := EvSend stx (e_send i) # w_trace w'\<rparr>"
  have ev: "evolves w ?w" using w'(1) evolves_trans by (metis evolves_event)
  obtain y where y: "y \<in> set (db_executions (w_db ?w))" "same_execution x y"
    using copy_of_stable [OF ev assms(1)] by (auto simp: copy_of_def)
  have "tx_for e ?w y stx"
    using tx_for_stable [OF ev assms(2) exec_le_refl] same_execution_tx_for [OF y(2)] by blast
  with y have "event_ok e ?w (EvSend stx (e_send i))" by (auto simp: event_ok_def)
  then show "sys_inv e ?w \<and> evolves w' ?w \<and> (\<forall>w''. evolves ?w w'' \<longrightarrow> sys_inv e w'' \<longrightarrow> True)"
    using inv_event [OF w'(2)] by simp
qed

lemma safe_broadcastWithRecovery:
  assumes "sys_inv e w" "copy_of w x" "raw_ok e w x"
  shows "keeps e (broadcastWithRecovery e x) (\<lambda>_ _. True) w"
proof -
  have "keeps e (tryp (call_out e_send (EvSend stx)) (\<lambda>err. Done (Inl (Wrap ''send transaction'' err))) (\<lambda>_. Done (Inr True)))
      (\<lambda>_ _. True) w'"
    if "x_RawSignedTx x = Some raw" "g_UnmarshalBinary (ex_Geth e) raw = Inr stx" "evolves w w'" "sys_inv e w'" for raw stx w'
  proof -
    from raw_ok_stable [OF that(3) assms(3)] that(1,2) have "tx_for e w' x stx" unfolding raw_ok_def by fastforce
    then show ?thesis using that(3,4) copy_of_stable [OF that(3) assms(2)]
      by (auto intro!: life.safe_try_any safe_send)
  qed
  then show ?thesis
    unfolding broadcastWithRecovery_def Let_def
    by (auto split: option.splits sum.splits if_splits intro!: life.safe_then safe_lookup assms(1))
qed

lemma safe_mark_broadcast_submitted:
  assumes "sys_inv e w" "signed_row w x" "uuid_in (x_ID x) = Some (x_ID x)"
    "known_mode w (x_PaymentID x) ExecutionModeTestnet" "uuid_in (x_PaymentID x) = Some (x_PaymentID x)"
  shows "keeps e (mark_broadcast_submitted f x) (\<lambda>_ _. True) w"
  unfolding mark_broadcast_submitted_def
proof (rule life.safe_tryp [OF safe_MarkExecutionBroadcast [OF assms(1,3,2)] assms(1)])
  fix a w' assume w': "evolves w w'" "sys_inv e w'" "\<forall>b. Inr a = Inr b \<longrightarrow> broadcast_row w' x"
  show "keeps e (tryp (MarkSubmitted (x_PaymentID x)) (\<lambda>err. Done (Inl (f err))) (\<lambda>_. Done (Inr ()))) (\<lambda>_ _. True) w'"
    by (rule life.safe_try_any [OF safe_MarkSubmitted])
       (use w' assms(5) known_mode_stable [OF w'(1) assms(4)] in auto)
qed simp

lemma safe_fail_payment:
  assumes "sys_inv e w" "\<And>u. uuid_in pid = Some u \<Longrightarrow> known_mode w u ExecutionModeTestnet"
  shows "keeps e (fail_payment pid l c reason) (\<lambda>_ _. True) w"
  unfolding fail_payment_def
  by (rule life.safe_then [OF life.safe_Inc assms(1)], rule life.safe_try_any [OF safe_MarkProcessingFailed])
     (auto intro: stable assms(2))

lemma safe_signAndBroadcastFresh:
  assumes ok: "executor_ok e" and inv: "sys_inv e w" and x: "copy_of w x" "uuid_in (x_ID x) = Some (x_ID x)"
    "known_mode w (x_PaymentID x) ExecutionModeTestnet" "uuid_in (x_PaymentID x) = Some (x_PaymentID x)"
    and env: "te_ChainID t = ex_OriginChainID e" "ex_ExpectedContractByProvider e (x_BridgeProvider x) = Some (te_To t)"
    "te_Value t = Some v" and v: "known_amount w (x_PaymentID x) v"
  shows "keeps e (signAndBroadcastFresh e x t fq l) (\<lambda>_ _. True) w"
proof -
  have persist: "keeps e (tryp (PersistSignedExecution (x_ID x) raw h ref) (\<lambda>err. Done (Inl (Wrap ''persist signed execution'' err)))
      (\<lambda>_. let exec' = x\<lparr>x_SignedTxHash := Some h, x_RawSignedTx := Some raw\<rparr> in
        tryp (broadcastWithRecovery e exec') (\<lambda>err. Done (Inl (Wrap ''broadcast execution'' err))) (\<lambda>sent.
        bindp (if sent then Inc ''Broadcasts'' [l] else Done ()) (\<lambda>_. mark_broadcast_submitted (Wrap ''mark payment submitted'') exec')))) (\<lambda>_ _. True) w'"
    if w': "evolves w w'" "sys_inv e w'" and sg: "SignTx (ex_Geth e) (ex_Wallet e) (unsigned_tx x t gl gp) (te_ChainID t) = Inr stx"
      and m: "g_MarshalBinary (ex_Geth e) stx = Inr raw" and h: "h = g_HashHex (ex_Geth e) (g_Hash (ex_Geth e) stx)"
    for w' gl gp stx raw h ref
  proof -
    have g: "geth_ok (ex_Geth e)" using ok by (simp add: executor_ok_def)
    have un: "g_UnmarshalBinary (ex_Geth e) raw = Inr stx" using g m by (simp add: geth_ok_def)
    have tx: "tx_for e w' x stx"
      using SignTx_content [OF g sg] env known_amount_stable [OF w'(1) v]
      by (auto simp: tx_for_def unsigned_tx_def known_amount_def)
    have c: "copy_of w' x" by (rule copy_of_stable [OF w'(1) x(1)])
    let ?x = "x\<lparr>x_SignedTxHash := Some h, x_RawSignedTx := Some raw\<rparr>"
    have same: "same_execution x = same_execution ?x" by (auto simp: same_execution_def fun_eq_iff)
    show ?thesis
    proof (rule life.safe_tryp [OF safe_PersistSignedExecution [OF w'(2) x(2) c un tx h] w'(2)])
      fix a w'' assume w'': "evolves w' w''" "sys_inv e w''" "\<forall>b. Inr a = Inr b \<longrightarrow> signed_row w'' x"
      have ev: "evolves w w''" by (rule evolves_trans [OF w'(1) w''(1)])
      have 1: "copy_of w'' ?x" using copy_of_stable [OF ev x(1)] same by (simp add: copy_of_def)
      have "tx_for e w'' ?x stx" using tx_for_stable [OF w''(1) tx exec_le_refl] by (simp add: tx_for_def)
      then have 2: "raw_ok e w'' ?x" using un by (auto simp: raw_ok_def)
      have 3: "signed_row w'' ?x" using w''(3) same by (simp add: signed_row_def)
      have 4: "known_mode w'' (x_PaymentID ?x) ExecutionModeTestnet" using known_mode_stable [OF ev x(3)] by simp
      show "keeps e (let exec' = ?x in
        tryp (broadcastWithRecovery e exec') (\<lambda>err. Done (Inl (Wrap ''broadcast execution'' err))) (\<lambda>sent.
        bindp (if sent then Inc ''Broadcasts'' [l] else Done ()) (\<lambda>_. mark_broadcast_submitted (Wrap ''mark payment submitted'') exec'))) (\<lambda>_ _. True) w''"
        unfolding Let_def
        by (rule life.safe_try_any [OF safe_broadcastWithRecovery [OF w''(2) 1 2] w''(2)])
           (auto intro!: life.safe_then life.safe_Inc safe_mark_broadcast_submitted x(2,4)
                    signed_row_stable [OF _ 3] known_mode_stable [OF _ 4] intro: evolves_trans)
    qed simp
  qed
  note persist = persist [unfolded Let_def]
  show ?thesis
    unfolding signAndBroadcastFresh_def Let_def
    by (rule life.safe_try_any [OF life.safe_ask_env inv], simp, rule life.safe_then [OF life.safe_ask_env], assumption)
       (auto split: sum.splits intro!: persist intro: evolves_trans)
qed

text \<open>What a validated envelope guarantees.\<close>

lemma buildValidatedEnvelope_Inr:
  assumes "buildValidatedEnvelope e i q fq = Inr t"
  shows "te_ChainID t = ex_OriginChainID e \<and> ex_ExpectedContractByProvider e (q_Provider q) = Some (te_To t) \<and>
    te_Value t = b_InputAmountBaseUnits fq \<and> te_Value t \<noteq> None \<and> b_ProviderName fq = q_Provider q"
  using assms
  by (auto simp: buildValidatedEnvelope_def validateEnvelope_def split: option.splits sum.splits if_splits)

lemma safe_run_signed:
  assumes "sys_inv e w" "keeps e (signAndBroadcastFresh e x t fq l) (\<lambda>_ _. True) w"
  shows "keeps e (run_signed e x t fq l) (\<lambda>_ _. True) w"
  unfolding run_signed_def
  by (intro life.safe_then [OF assms(2,1)] life.safe_then life.safe_calls)
     (auto split: sum.splits intro!: life.safe_then life.safe_calls)

lemma safe_run_signed_for:
  assumes ok: "executor_ok e" and inv: "sys_inv e w" and x: "exec_known e w x"
    and t: "buildValidatedEnvelope e i q fq = Inr t" and p: "q_Provider q = x_BridgeProvider x"
    and v: "b_InputAmountBaseUnits fq = Some v" "known_amount w (x_PaymentID x) v"
  shows "keeps e (run_signed e x t fq l) (\<lambda>_ _. True) w"
  using buildValidatedEnvelope_Inr [OF t] x p v
  by (auto intro!: safe_run_signed [OF inv] safe_signAndBroadcastFresh [OF ok inv] simp: exec_known_def)

lemma safe_execute_fresh:
  assumes ok: "executor_ok e" and inv: "sys_inv e w" and u: "uuid_in pid = Some pid"
    and m: "known_mode w pid ExecutionModeTestnet" and q: "known_quote w pid (q_Provider q)"
    and v: "b_Available fq \<Longrightarrow> b_InputAmountBaseUnits fq = Some v" "known_amount w pid v"
  shows "keeps e (execute_fresh e pid q v fq) (\<lambda>_ _. True) w"
proof -
  have fail: "keeps e (fail_payment pid l c r) (\<lambda>_ _. True) w" for l c r
    by (rule safe_fail_payment [OF inv]) (use u m in auto)
  have run: "keeps e (tryp (TryCreateExecution cp) (\<lambda>err. Done (Inl (Wrap ''try create execution'' err)))
      (\<lambda>created. case created of None \<Rightarrow> Done (Inr ())
         | Some x \<Rightarrow> bindp (Inc ''ExecutionAttempts'' [l]) (\<lambda>_. run_signed e x t fq l))) (\<lambda>_ _. True) w"
    if t: "buildValidatedEnvelope e pid q fq = Inr t" and av: "b_Available fq"
      and cp: "cp_PaymentID cp = pid" "cp_BridgeProvider cp = q_Provider q" "cp_WalletAddress cp = wallet_hex e" for cp t l
  proof (rule life.safe_tryp [OF safe_TryCreateExecution inv])
    fix c w' assume w': "evolves w w'" "sys_inv e w'" and c: "\<forall>x. Inr c = Inr (Some x) \<longrightarrow>
      exec_known e w' x \<and> x_PaymentID x = cp_PaymentID cp \<and> x_BridgeProvider x = cp_BridgeProvider cp"
    show "keeps e (case c of None \<Rightarrow> Done (Inr ())
        | Some x \<Rightarrow> bindp (Inc ''ExecutionAttempts'' [l]) (\<lambda>_. run_signed e x t fq l)) (\<lambda>_ _. True) w'"
    proof (cases c)
      case (Some x)
      with c cp have x: "exec_known e w' x" "x_PaymentID x = pid" "x_BridgeProvider x = q_Provider q" by auto
      have "keeps e (run_signed e x t fq l) (\<lambda>_ _. True) w''" if w'': "evolves w' w''" "sys_inv e w''" for w''
        using x known_amount_stable [OF evolves_trans [OF w'(1) w''(1)] v(2)] v(1) av
        by (intro safe_run_signed_for [OF ok w''(2) exec_known_stable [OF w''(1) x(1)] t]) auto
      then show ?thesis using Some w' by (auto intro!: life.safe_then life.safe_Inc)
    qed simp
  qed (use u m q cp inv in auto)
  show ?thesis unfolding execute_fresh_def Let_def
    by (auto split: option.splits sum.splits intro!: fail run life.safe_then life.safe_Inc inv simp: wallet_hex_def)
qed

lemma safe_with_fresh_quote:
  assumes ok: "executor_ok e" and inv: "sys_inv e w" and pv: "ex_QuoteProviders e name = Some pv"
    and k: "\<And>v fq w' u. evolves w w' \<Longrightarrow> sys_inv e w' \<Longrightarrow> uuid_in pid = Some u \<Longrightarrow> known_amount w' u v \<Longrightarrow>
      (b_Available fq \<Longrightarrow> b_InputAmountBaseUnits fq = Some v) \<Longrightarrow> keeps e (k v fq) (\<lambda>_ _. True) w'"
  shows "keeps e (with_fresh_quote pid q pv k) (\<lambda>_ _. True) w"
  unfolding with_fresh_quote_def
proof (rule life.safe_tryp [OF safe_GetPayment [OF inv] inv])
  fix r w' assume w': "evolves w w'" "sys_inv e w'"
    and r: "\<forall>p. Inr r = Inr (Some p) \<longrightarrow> (\<exists>u v. uuid_in pid = Some u \<and> known_amount w' u v \<and> 0 < v \<and> p_Amount p = numeric_text 18 v)"
  show "keeps e (case r of None \<Rightarrow> Done (Inl (Err ''payment not found''))
       | Some p \<Rightarrow> (case DecimalToBaseUnits (p_Amount p) wethDecimals of
             Inl err \<Rightarrow> Done (Inl (Wrap ''convert amount'' err))
           | Inr inputAmount \<Rightarrow>
               tryp (get_quote pv (quote_request q inputAmount))
                 (\<lambda>err. Done (Inl (Wrap ''fetch fresh quote'' err)))
                 (\<lambda>freshQuote. k inputAmount freshQuote))) (\<lambda>_ _. True) w'"
  proof (cases r)
    case (Some p)
    with r obtain u v where u: "uuid_in pid = Some u" "known_amount w' u v" "0 < v" "p_Amount p = numeric_text 18 v" by auto
    have d: "DecimalToBaseUnits (p_Amount p) wethDecimals = Inr v"
      using DecimalToBaseUnits_numeric_text [of v 18] u(3,4) by simp
    have "keeps e (tryp (get_quote pv (quote_request q v)) (\<lambda>err. Done (Inl (Wrap ''fetch fresh quote'' err)))
        (\<lambda>fq. k v fq)) (\<lambda>_ _. True) w'"
    proof (rule life.safe_tryp [OF safe_get_quote w'(2)])
      fix fq w'' assume w'': "evolves w' w''" "sys_inv e w''" and "\<exists>i. Inr fq = pv_GetQuote pv i (quote_request q v)"
      then obtain i where "pv_GetQuote pv i (quote_request q v) = Inr fq" by metis
      with ok pv have "b_Available fq \<Longrightarrow> b_InputAmountBaseUnits fq = Some v"
        by (fastforce simp: executor_ok_def quote_request_def)
      with u w'' w' show "keeps e (k v fq) (\<lambda>_ _. True) w''"
        by (intro k) (auto intro: evolves_trans stable)
    qed simp
    then show ?thesis by (simp add: Some d)
  qed simp
qed simp

lemma safe_ExecuteTestnetPayment:
  assumes ok: "executor_ok e" and inv: "sys_inv e w" and u: "uuid_in pid = Some pid"
    and m: "known_mode w pid ExecutionModeTestnet"
  shows "keeps e (ExecuteTestnetPayment e pid) (\<lambda>_ _. True) w"
  unfolding ExecuteTestnetPayment_def
proof (rule life.safe_tryp [OF safe_GetQuoteByPaymentID [OF inv] inv])
  fix r :: "Quote option" and w' assume w': "evolves w w'" "sys_inv e w'"
    and r: "\<forall>a. Inr r = Inr a \<longrightarrow> (\<forall>q. a = Some q \<longrightarrow> (\<exists>u. uuid_in pid = Some u \<and> known_quote w' u (q_Provider q)))"
  have 1: "keeps e (fail_payment pid l c reason) (\<lambda>_ _. True) w''" if "evolves w' w''" "sys_inv e w''" for l c reason w''
    by (rule safe_fail_payment [OF that(2)]) (use u known_mode_stable [OF evolves_trans [OF w'(1) that(1)] m] in auto)
  have 2: "keeps e (with_fresh_quote pid q pv (execute_fresh e pid q)) (\<lambda>_ _. True) w''"
    if "r = Some q" "ex_QuoteProviders e name = Some pv" "evolves w' w''" "sys_inv e w''" for q pv w'' name
  proof (rule safe_with_fresh_quote [OF ok that(4,2)])
    fix v and fq :: BQuote and w3 u'
    assume w3: "evolves w'' w3" "sys_inv e w3" and "uuid_in pid = Some u'" "known_amount w3 u' v"
      and av: "b_Available fq \<Longrightarrow> b_InputAmountBaseUnits fq = Some v"
    then have "known_amount w3 pid v" using u by simp
    moreover have ev: "evolves w' w3" by (rule evolves_trans [OF that(3) w3(1)])
    moreover have "known_quote w' pid (q_Provider q)" using r that(1) u by simp
    ultimately show "keeps e (execute_fresh e pid q v fq) (\<lambda>_ _. True) w3"
      using av known_mode_stable [OF evolves_trans [OF w'(1) ev] m] known_quote_stable [OF ev]
      by (intro safe_execute_fresh [OF ok w3(2) u]) auto
  qed
  show "keeps e (case r of None \<Rightarrow> Done (Inl (Err ''payment has no payment_quotes row -- cannot execute without a selected route''))
       | Some quoteRow \<Rightarrow>
           bindp Now (\<lambda>now.
           if q_ExpiresAt quoteRow < now
           then fail_payment pid (SanitizeProviderLabel (q_Provider quoteRow)) ''quote_expired'' ''routing_quote_expired''
           else case ex_QuoteProviders e (q_Provider quoteRow) of
             None \<Rightarrow> Done (Inl (Err ''payment uses a provider this worker has no configured client for -- refusing to substitute a different provider''))
           | Some provider \<Rightarrow>
               with_fresh_quote pid quoteRow provider (execute_fresh e pid quoteRow))) (\<lambda>_ _. True) w'"
    by (cases r) (auto intro!: life.safe_then life.safe_Now w'(2) 1 2 split: option.splits)
qed simp

text \<open>Resuming an execution.\<close>

lemma safe_drive_signed:
  assumes "sys_inv e w" "exec_known e w x" "x_SignedTxHash x \<noteq> None"
  shows "keeps e (drive_signed e x) (\<lambda>_ _. True) w"
proof -
  have x: "copy_of w x" "raw_ok e w x" "signed_row w x" "uuid_in (x_ID x) = Some (x_ID x)"
    "known_mode w (x_PaymentID x) ExecutionModeTestnet" "uuid_in (x_PaymentID x) = Some (x_PaymentID x)"
    using assms(2,3) by (auto simp: exec_known_def)
  have mark: "keeps e (mark_broadcast_submitted (\<lambda>err. err) x) (\<lambda>_ _. True) w'" if "evolves w w'" "sys_inv e w'" for w'
    using safe_mark_broadcast_submitted [OF that(2) signed_row_stable [OF that(1) x(3)] x(4) known_mode_stable [OF that(1) x(5)] x(6)] .
  show ?thesis unfolding drive_signed_def Let_def
    by (rule life.safe_try_any [OF safe_broadcastWithRecovery [OF assms(1) x(1,2)] assms(1)])
       (auto intro!: life.safe_then life.safe_Inc life.safe_Observe mark intro: evolves_trans)
qed

lemma safe_drive_fresh:
  assumes ok: "executor_ok e" and inv: "sys_inv e w" and x: "exec_known e w x"
    and q: "known_quote w (x_PaymentID x) (q_Provider q)"
    and v: "b_Available fq \<Longrightarrow> b_InputAmountBaseUnits fq = Some v" "known_amount w (x_PaymentID x) v"
  shows "keeps e (drive_fresh e x q v fq) (\<lambda>_ _. True) w"
proof -
  have "q_Provider q = x_BridgeProvider x"
    using known_quote_unique [OF inv q] x by (simp add: exec_known_def)
  then have run: "keeps e (run_signed e x t fq l) (\<lambda>_ _. True) w"
    if "buildValidatedEnvelope e (x_ID x) q fq = Inr t" "b_Available fq" for t l
    using safe_run_signed_for [OF ok inv x that(1)] v that(2) by blast
  have fail: "keeps e (fail_payment (x_PaymentID x) l c r) (\<lambda>_ _. True) w" for l c r
    by (rule safe_fail_payment [OF inv]) (use x in \<open>auto simp: exec_known_def\<close>)
  show ?thesis unfolding drive_fresh_def Let_def
    by (auto split: option.splits sum.splits intro!: fail run life.safe_then life.safe_Inc inv)
qed

lemma safe_drive_unsigned:
  assumes ok: "executor_ok e" and inv: "sys_inv e w" and x: "exec_known e w x"
  shows "keeps e (drive_unsigned e x) (\<lambda>_ _. True) w"
  unfolding drive_unsigned_def
proof (rule life.safe_tryp [OF safe_GetQuoteByPaymentID [OF inv] inv])
  fix r :: "Quote option" and w' assume w': "evolves w w'" "sys_inv e w'"
    and r: "\<forall>a. Inr r = Inr a \<longrightarrow> (\<forall>q. a = Some q \<longrightarrow>
      (\<exists>u. uuid_in (x_PaymentID x) = Some u \<and> known_quote w' u (q_Provider q)))"
  have u: "uuid_in (x_PaymentID x) = Some (x_PaymentID x)" using x by (simp add: exec_known_def)
  have 1: "keeps e (fail_payment (x_PaymentID x) l c reason) (\<lambda>_ _. True) w''" if "evolves w' w''" "sys_inv e w''" for l c reason w''
    using exec_known_stable [OF evolves_trans [OF w'(1) that(1)] x] u
    by (auto intro!: safe_fail_payment [OF that(2)] simp: exec_known_def)
  have 2: "keeps e (with_fresh_quote (x_PaymentID x) q pv (drive_fresh e x q)) (\<lambda>_ _. True) w''"
    if "r = Some q" "ex_QuoteProviders e name = Some pv" "evolves w' w''" "sys_inv e w''" for q pv w'' name
  proof (rule safe_with_fresh_quote [OF ok that(4,2)])
    fix v and fq :: BQuote and w3 u'
    assume w3: "evolves w'' w3" "sys_inv e w3" and "uuid_in (x_PaymentID x) = Some u'" "known_amount w3 u' v"
      and av: "b_Available fq \<Longrightarrow> b_InputAmountBaseUnits fq = Some v"
    then have "known_amount w3 (x_PaymentID x) v" using u by simp
    moreover have ev: "evolves w' w3" by (rule evolves_trans [OF that(3) w3(1)])
    moreover have "known_quote w' (x_PaymentID x) (q_Provider q)" using r that(1) u by simp
    ultimately show "keeps e (drive_fresh e x q v fq) (\<lambda>_ _. True) w3"
      using av exec_known_stable [OF evolves_trans [OF w'(1) ev] x] known_quote_stable [OF ev]
      by (intro safe_drive_fresh [OF ok w3(2)]) auto
  qed
  show "keeps e (case r of None \<Rightarrow> Done (Inl (Err ''payment has no payment_quotes row -- cannot resume execution without a selected route''))
       | Some quoteRow \<Rightarrow>
           bindp Now (\<lambda>now.
           if q_ExpiresAt quoteRow < now
           then fail_payment (x_PaymentID x) (SanitizeProviderLabel (x_BridgeProvider x)) ''quote_expired'' ''routing_quote_expired''
           else case ex_QuoteProviders e (q_Provider quoteRow) of
             None \<Rightarrow> Done (Inl (Err ''payment uses a provider this worker has no configured client for''))
           | Some provider \<Rightarrow>
               with_fresh_quote (x_PaymentID x) quoteRow provider (drive_fresh e x quoteRow))) (\<lambda>_ _. True) w'"
    by (cases r) (auto intro!: life.safe_then life.safe_Now w'(2) 1 2 split: option.splits)
qed simp

lemma safe_DriveExecutionForward:
  assumes "executor_ok e" "sys_inv e w" "exec_known e w x"
  shows "keeps e (DriveExecutionForward e x) (\<lambda>_ _. True) w"
  unfolding DriveExecutionForward_def using safe_drive_signed safe_drive_unsigned assms by simp

section \<open>Triples of the worker goroutines\<close>

lemma safe_count_finished: "sys_inv e w \<Longrightarrow> keeps e (count_finished m s c) (\<lambda>_ _. True) w"
  unfolding count_finished_def by (auto intro!: life.safe_then life.safe_Observe life.safe_Inc)

lemma safe_HandleRoutedPayment:
  assumes ok: "executor_ok e" and inv: "sys_inv e w"
    and p: "po_Executor p = None \<or> po_Executor p = Some e" and u: "uuid_in (ev_PaymentID evt) = Some (ev_PaymentID evt)"
  shows "keeps e (HandleRoutedPayment p evt) (\<lambda>_ _. True) w"
  unfolding HandleRoutedPayment_def
proof (rule life.safe_then [OF life.safe_Inc inv], rule life.safe_tryp [OF safe_ClaimPayment], assumption)
  fix w0 er w' assume "sys_inv e w'"
  then show "keeps e (bindp (Inc ''ProcessingFailures'' [''unknown'', ''claim_conflict''])
         (\<lambda>_. Done (Inl (Wrap ''claim payment'' er)))) (\<lambda>_ _. True) w'"
    by (auto intro!: life.safe_then life.safe_Inc)
next
  fix w0 a w'
  let ?pid = "ev_PaymentID evt"
  assume w': "sys_inv e w'" and a: "\<forall>mode. Inr a = Inr (True, mode) \<longrightarrow> (\<exists>u. uuid_in ?pid = Some u \<and> known_mode w' u mode)"
  obtain claimed mode where am: "a = (claimed, mode)" by force
  have test: "keeps e (ExecuteTestnetPayment e ?pid) (\<lambda>_ _. True) w'" if "claimed" "mode = ExecutionModeTestnet"
    by (rule safe_ExecuteTestnetPayment [OF ok w' u]) (use a am that u in auto)
  have sim: "keeps e (CompletePayment ?pid (outcome_status ?pid)) (\<lambda>_ _. True) w'" if "claimed" "mode \<noteq> ExecutionModeTestnet"
  proof (rule safe_CompletePayment [OF w'])
    fix v assume "uuid_in ?pid = Some v"
    with u have v: "v = ?pid" by simp
    from a am that(1) u have k: "known_mode w' ?pid mode" by simp
    then obtain r where "r \<in> set (db_payments (w_db w'))" "pr_execution_mode r = mode" by (auto simp: known_mode_def)
    with inv_row [OF w'] that(2) have "mode = ExecutionModeSimulated" by (auto simp: row_ok_def)
    with k v show "known_mode w' v ExecutionModeSimulated \<and> outcome_status ?pid = outcome_status v" by simp
  qed
  show "keeps e ((\<lambda>(claimed, mode).
        if \<not> claimed then Done (Inr ())
        else if mode = ExecutionModeTestnet then
          (case po_Executor p of
             None \<Rightarrow> bindp (Inc ''ProcessingFailures'' [mode, ''execution_error''])
                (\<lambda>_. Done (Inl (Err ''payment is execution_mode=testnet but this worker has no Executor configured'')))
           | Some e \<Rightarrow>
               bindp (ExecuteTestnetPayment e (ev_PaymentID evt)) (\<lambda>r.
               bindp (Observe ''ProcessingDuration'' [mode]) (\<lambda>_.
               bindp (case r of Inl _ \<Rightarrow> Inc ''ProcessingFailures'' [mode, ''execution_error''] | Inr _ \<Rightarrow> Done ()) (\<lambda>_.
               Done r))))
        else
          (let s = outcome_status (ev_PaymentID evt) in
           bindp (CompletePayment (ev_PaymentID evt) s) (\<lambda>r.
           bindp (Observe ''ProcessingDuration'' [mode]) (\<lambda>_.
           case r of
             Inl err \<Rightarrow> bindp (Inc ''ProcessingFailures'' [mode, ''execution_error''])
                (\<lambda>_. Done (Inl (Wrap ''complete payment'' err)))
           | Inr None \<Rightarrow> Done (Inr ())
           | Inr (Some createdAt) \<Rightarrow> bindp (count_finished mode s ''execution'') (\<lambda>_. Done (Inr ())))))) a) (\<lambda>_ _. True) w'"
    using p unfolding am Let_def
    by (auto intro!: test sim life.safe_then life.safe_Inc life.safe_Observe
        safe_count_finished w' split: sum.splits option.splits)
qed

lemma safe_recover_one:
  assumes "sys_inv e w" "uuid_in pid = Some pid" "known_mode w pid ExecutionModeSimulated"
  shows "keeps e (recover_one pid n) (\<lambda>_ _. True) w"
  unfolding recover_one_def Let_def
  by (rule life.safe_try_any [OF safe_CompletePayment])
     (use assms in \<open>auto intro!: life.safe_then life.safe_Inc safe_count_finished split: option.splits\<close>)

lemma safe_Recovery_SweepOnce:
  assumes "sys_inv e w"
  shows "keeps e (Recovery_SweepOnce st) (\<lambda>_ _. True) w"
  unfolding Recovery_SweepOnce_def
proof (rule life.safe_tryp [OF safe_StalePaymentIDs [OF assms] assms])
  fix ids w' assume w': "sys_inv e w'" and ids: "\<forall>a. Inr ids = Inr a \<longrightarrow>
    (\<forall>u \<in> set a. uuid_in u = Some u \<and> known_mode w' u ExecutionModeSimulated)"
  have "keeps e (foldp recover_one ids 0) (\<lambda>_ _. True) w'"
    by (rule life.safe_foldp [OF _ w']) (use ids in \<open>blast intro: safe_recover_one known_mode_stable\<close>)
  then show "keeps e (bindp (foldp recover_one ids 0) (\<lambda>n. Done (Inr n))) (\<lambda>_ _. True) w'"
    by (rule life.safe_then [OF _ w']) simp
qed simp

lemma safe_recoverStale:
  assumes ok: "executor_ok (rc_Executor r)" and inv: "sys_inv (rc_Executor r) w"
  shows "keeps (rc_Executor r) (recoverStaleProcessingWithoutExecution r) (\<lambda>_ _. True) w"
  unfolding recoverStaleProcessingWithoutExecution_def
proof (rule life.safe_tryp [OF safe_StaleTestnetProcessingWithoutExecutionIDs [OF inv] inv])
  fix ids w' assume w': "sys_inv (rc_Executor r) w'" and ids: "\<forall>a. Inr ids = Inr a \<longrightarrow>
    (\<forall>u \<in> set a. uuid_in u = Some u \<and> known_mode w' u ExecutionModeTestnet)"
  show "keeps (rc_Executor r) (forp ids (\<lambda>pid. tryp (ExecuteTestnetPayment (rc_Executor r) pid) (\<lambda>err. Done ())
          (\<lambda>_. Inc ''StaleRecoveries'' [''reconciler'']))) (\<lambda>_ _. True) w'"
  proof (rule life.safe_forp [OF _ w'])
    fix u w'' assume u: "u \<in> set ids" and w'': "evolves w' w''" "sys_inv (rc_Executor r) w''"
    have "keeps (rc_Executor r) (ExecuteTestnetPayment (rc_Executor r) u) (\<lambda>_ _. True) w''"
      by (rule safe_ExecuteTestnetPayment [OF ok w''(2)]) (use ids u known_mode_stable [OF w''(1)] in auto)
    then show "keeps (rc_Executor r) (tryp (ExecuteTestnetPayment (rc_Executor r) u) (\<lambda>err. Done ())
          (\<lambda>_. Inc ''StaleRecoveries'' [''reconciler''])) (\<lambda>_ _. True) w''"
      by (rule life.safe_try_any [OF _ w''(2)]) (auto intro: life.safe_Inc)
  qed
qed simp

lemma safe_driveStale:
  assumes ok: "executor_ok (rc_Executor r)" and inv: "sys_inv (rc_Executor r) w"
  shows "keeps (rc_Executor r) (driveStaleNotYetBroadcast r) (\<lambda>_ _. True) w"
  unfolding driveStaleNotYetBroadcast_def
proof (rule life.safe_try_any [OF life.safe_any [OF safe_ReconciliationCandidates [OF inv]] inv])
  fix cs :: "Execution list" and w' assume w': "sys_inv (rc_Executor r) w'"
  show "keeps (rc_Executor r) (forp cs (\<lambda>c.
        if x_BroadcastAt c \<noteq> None then Done ()
        else tryp (GetExecutionByPaymentID (x_PaymentID c)) (\<lambda>err. Done ())
          (\<lambda>found. case found of
             None \<Rightarrow> Done ()
           | Some fresh \<Rightarrow>
               if x_BroadcastAt fresh \<noteq> None then Done ()
               else voidp (DriveExecutionForward (rc_Executor r) fresh)))) (\<lambda>_ _. True) w'"
  proof (rule life.safe_forp [OF _ w'])
    fix c :: Execution and w'' assume w'': "sys_inv (rc_Executor r) w''"
    have "keeps (rc_Executor r) (tryp (GetExecutionByPaymentID (x_PaymentID c)) (\<lambda>err. Done ())
          (\<lambda>found. case found of None \<Rightarrow> Done ()
           | Some fresh \<Rightarrow> if x_BroadcastAt fresh \<noteq> None then Done ()
               else voidp (DriveExecutionForward (rc_Executor r) fresh))) (\<lambda>_ _. True) w''"
      by (rule life.safe_tryp [OF safe_GetExecutionByPaymentID [OF w''] w''])
         (auto split: option.splits intro!: life.safe_voidp safe_DriveExecutionForward ok)
    then show "keeps (rc_Executor r) (if x_BroadcastAt c \<noteq> None then Done ()
        else tryp (GetExecutionByPaymentID (x_PaymentID c)) (\<lambda>err. Done ())
          (\<lambda>found. case found of None \<Rightarrow> Done ()
           | Some fresh \<Rightarrow> if x_BroadcastAt fresh \<noteq> None then Done ()
               else voidp (DriveExecutionForward (rc_Executor r) fresh))) (\<lambda>_ _. True) w''" by simp
  qed
qed simp

lemma safe_markTerminal:
  assumes "sys_inv e w" "exec_known e w x" "x_BroadcastAt x \<noteq> None"
    and s: "s = FAILED \<or> s = COMPLETED \<and> filled_seen e w x"
  shows "keeps e (markTerminal x res s) (\<lambda>_ _. True) w"
proof -
  have x: "broadcast_row w x" "known_mode w (x_PaymentID x) ExecutionModeTestnet" "uuid_in (x_ID x) = Some (x_ID x)"
    "uuid_in (x_PaymentID x) = Some (x_PaymentID x)" using assms(2,3) by (auto simp: exec_known_def)
  have "keeps e (CompleteSubmittedPayment (x_PaymentID x) s) (\<lambda>_ _. True) w'" if "evolves w w'" "sys_inv e w'" for w'
    by (rule safe_CompleteSubmittedPayment [OF that(2), of _ x])
       (use x s known_mode_stable [OF that(1)] broadcast_row_stable [OF that(1)] filled_seen_stable [OF that(1) _ exec_le_refl] in auto)
  then show ?thesis unfolding markTerminal_def Let_def
    by (intro life.safe_then [OF life.safe_Now assms(1)] life.safe_try_any [OF safe_UpdateExecutionExternalStatus])
       (auto intro!: x(3) life.safe_try_any life.safe_then life.safe_Inc life.safe_Observe intro: evolves_trans split: option.splits)
qed

lemma safe_check_status:
  assumes "hash_ok e w x" "x_SignedTxHash x = Some (sr_OriginTxHash req)"
  shows "keeps e (check_status (x_BridgeProvider x) ch req)
    (\<lambda>r w. \<forall>res. r = Inr res \<longrightarrow> sr_State res = StateFilled \<longrightarrow> filled_seen e w x) w"
  unfolding check_status_def
proof (rule life.safe_call_out)
  fix w' i assume w': "evolves w w'" "sys_inv e w'"
  let ?w = "w'\<lparr>w_trace := EvStatus (x_BridgeProvider x) req (sc_CheckStatus ch i req) # w_trace w'\<rparr>"
  have "hash_ok e ?w x" by (rule hash_ok_stable [OF evolves_trans [OF w'(1) evolves_event] assms(1)])
  then obtain stx where "tx_for e ?w x stx" "sr_OriginTxHash req = g_HashHex (ex_Geth e) (g_Hash (ex_Geth e) stx)"
    using assms(2) by (auto simp: hash_ok_def)
  then have "filled_seen e ?w x" if "sc_CheckStatus ch i req = Inr res" "sr_State res = StateFilled" for res
    using that unfolding filled_seen_def by (intro exI conjI) auto
  moreover have "sys_inv e ?w" by (rule inv_event [OF w'(2)]) (simp add: event_ok_def)
  ultimately show "sys_inv e ?w \<and> evolves w' ?w \<and> (\<forall>w''. evolves ?w w'' \<longrightarrow> sys_inv e w'' \<longrightarrow>
      (\<forall>res. sc_CheckStatus ch i req = Inr res \<longrightarrow> sr_State res = StateFilled \<longrightarrow> filled_seen e w'' x))"
    using filled_seen_stable [OF _ _ exec_le_refl] by auto
qed

lemma terminal_of_state_cases:
  "terminal_of_state st = Some s \<Longrightarrow> s = FAILED \<or> s = COMPLETED \<and> st = StateFilled"
  by (cases st) auto

lemma safe_checkAndUpdateOutcome:
  assumes inv: "sys_inv (rc_Executor r) w" and x: "exec_known (rc_Executor r) w x" "x_BroadcastAt x \<noteq> None"
  shows "keeps (rc_Executor r) (checkAndUpdateOutcome r x) (\<lambda>_ _. True) w"
proof -
  let ?e = "rc_Executor r"
  have sub: "keeps ?e (MarkSubmitted (x_PaymentID x)) (\<lambda>_ _. True) w"
    by (rule safe_MarkSubmitted [OF inv, of _ x]) (use x in \<open>auto simp: exec_known_def\<close>)
  have mt: "keeps ?e (markTerminal x res s) (\<lambda>_ _. True) w'"
    if "evolves w w'" "sys_inv ?e w'" "s = FAILED \<or> s = COMPLETED \<and> filled_seen ?e w' x" for res s w'
    by (rule safe_markTerminal [OF that(2) exec_known_stable [OF that(1) x(1)] x(2) that(3)])
  have status: "keeps ?e (tryp (check_status (x_BridgeProvider x) ch req) (\<lambda>err. Done (Inr ())) (\<lambda>result.
                 bindp (Inc ''Reconciliations'' [l]) (\<lambda>_.
                 bindp (Observe ''ReconciliationDuration'' [l]) (\<lambda>_.
                 case terminal_of_state (sr_State result) of
                   Some s \<Rightarrow> markTerminal x result s
                 | None \<Rightarrow> Done (Inr ()))))) (\<lambda>_ _. True) w'"
    if w': "evolves w w'" "sys_inv ?e w'" "x_SignedTxHash x = Some (sr_OriginTxHash req)" for w' ch req l
  proof (rule life.safe_tryp [OF safe_check_status [OF hash_ok_stable [OF w'(1)] w'(3)] w'(2)])
    show "hash_ok ?e w x" using x(1) by (simp add: exec_known_def)
  next
    fix result :: StatusResult and w'' assume w'': "evolves w' w''" "sys_inv ?e w''"
      and res: "\<forall>a. Inr result = Inr a \<longrightarrow> sr_State a = StateFilled \<longrightarrow> filled_seen ?e w'' x"
    have "keeps ?e (markTerminal x result s) (\<lambda>_ _. True) w3"
      if "terminal_of_state (sr_State result) = Some s" "evolves w'' w3" "sys_inv ?e w3" for s w3
      using terminal_of_state_cases [OF that(1)] res filled_seen_stable [OF that(2) _ exec_le_refl]
      by (intro mt [OF evolves_trans [OF w'(1) evolves_trans [OF w''(1) that(2)]] that(3)]) auto
    then show "keeps ?e (bindp (Inc ''Reconciliations'' [l]) (\<lambda>_.
                 bindp (Observe ''ReconciliationDuration'' [l]) (\<lambda>_.
                 case terminal_of_state (sr_State result) of
                   Some s \<Rightarrow> markTerminal x result s
                 | None \<Rightarrow> Done (Inr ())))) (\<lambda>_ _. True) w''"
      by (auto intro!: life.safe_then life.safe_Inc life.safe_Observe w'' intro: evolves_trans split: option.splits)
  qed simp
  show ?thesis unfolding checkAndUpdateOutcome_def Let_def
    by (cases "x_SignedTxHash x")
       (auto intro!: life.safe_try_any [OF sub] life.safe_try_any [OF safe_receipt] inv mt status
          intro: evolves_trans split: option.splits)
qed

lemma lowest_step_subset:
  "set (map snd (lowest_step m c)) \<subseteq> set (map snd m) \<union> (if x_BroadcastAt c = None then {} else {c})"
  by (auto simp: lowest_step_def split: option.splits if_splits)

lemma lowestByWallet_subset: "set (map snd (lowestByWallet cs)) \<subseteq> {c \<in> set cs. x_BroadcastAt c \<noteq> None}"
proof -
  have "set (map snd (foldl lowest_step m cs)) \<subseteq> set (map snd m) \<union> {c \<in> set cs. x_BroadcastAt c \<noteq> None}" for m
  proof (induction cs arbitrary: m)
    case (Cons c cs)
    from Cons [of "lowest_step m c"] lowest_step_subset [of m c] show ?case by (auto split: if_splits)
  qed simp
  from this [of "[]"] show ?thesis by (simp add: lowestByWallet_def)
qed

lemma safe_checkBroadcastOutcomes:
  assumes inv: "sys_inv (rc_Executor r) w"
  shows "keeps (rc_Executor r) (checkBroadcastOutcomes r) (\<lambda>_ _. True) w"
  unfolding checkBroadcastOutcomes_def
proof (rule life.safe_tryp [OF safe_ReconciliationCandidates [OF inv] inv])
  let ?e = "rc_Executor r"
  fix cs w' assume w': "sys_inv ?e w'" and cs: "\<forall>a. Inr cs = Inr a \<longrightarrow> (\<forall>x \<in> set a. exec_known ?e w' x)"
  have one: "keeps ?e (voidp (checkAndUpdateOutcome r x)) (\<lambda>_ _. True) w2"
    if "x \<in> set (shuffle f (map snd (lowestByWallet cs)))" "evolves w' w1" "evolves w1 w2" "sys_inv ?e w2" for x f w1 w2
  proof -
    from that(1) lowestByWallet_subset [of cs] have "x \<in> set cs" "x_BroadcastAt x \<noteq> None" by auto
    then have "keeps ?e (checkAndUpdateOutcome r x) (\<lambda>_ _. True) w2"
      using cs exec_known_stable [OF evolves_trans [OF that(2,3)]] by (intro safe_checkAndUpdateOutcome [OF that(4)]) auto
    then show ?thesis by (rule life.safe_voidp [OF that(4)])
  qed
  show "keeps ?e (bindp (ask_env e_order) (\<lambda>order. forp (shuffle order (map snd (lowestByWallet cs)))
          (\<lambda>exec. voidp (checkAndUpdateOutcome r exec)))) (\<lambda>_ _. True) w'"
    by (rule life.safe_then [OF life.safe_ask_env w'], rule life.safe_forp) (use one in blast)+
qed simp

lemma safe_Reconciler_SweepOnce:
  assumes "executor_ok (rc_Executor r)" "sys_inv (rc_Executor r) w"
  shows "keeps (rc_Executor r) (Reconciler_SweepOnce r) (\<lambda>_ _. True) w"
  unfolding Reconciler_SweepOnce_def
  by (rule life.safe_then [OF safe_recoverStale [OF assms] assms(2)],
      rule life.safe_then [OF safe_driveStale [OF assms(1)]])
     (auto intro: safe_checkBroadcastOutcomes)

lemma safe_checkNonceDivergence:
  assumes "sys_inv e w"
  shows "keeps e (checkNonceDivergence r) (\<lambda>_ _. True) w"
  unfolding checkNonceDivergence_def LowestUnconfirmedNonce_def
  by (auto intro!: life.safe_try_any life.safe_ask_env safe_wrapp_any safe_query_any assms split: option.splits)

lemma safe_seed_wallet:
  assumes "sys_inv e w"
  shows "keeps e (seed_wallet e') (\<lambda>_ _. True) w"
  unfolding seed_wallet_def
  by (auto intro!: life.safe_try_any life.safe_ask_env safe_SeedWalletNonce assms)

lemma safe_consume_message:
  assumes "executor_ok e" "sys_inv e w" "po_Executor p = None \<or> po_Executor p = Some e"
    "\<And>evt. msg = Some evt \<Longrightarrow> uuid_in (ev_PaymentID evt) = Some (ev_PaymentID evt)"
  shows "keeps e (consume_message p msg) (\<lambda>_ _. True) w"
  unfolding consume_message_def
  using assms by (auto intro!: life.safe_try_any safe_HandleRoutedPayment split: option.splits)

end
