(* ===== verification/Cursor.thy ===== *)
theory Cursor
  imports Go_Lib
begin

text \<open>
  Pagination cursors (\<open>internal/payment/cursor.go\<close>): the URL-safe base64 encoding of
  \<open>createdAt,id\<close>. The base64 layer is Go's \<open>base64.URLEncoding\<close>: padded, lenient about line breaks
  and about the unused low bits of the last character. The results: decoding inverts encoding, and
  every decoding failure wraps \<open>ErrInvalidCursor\<close>.
\<close>

section \<open>base64.URLEncoding\<close>

definition b64_alphabet :: string where
  "b64_alphabet = ''ABCDEFGHIJKLMNOPQRSTUVWXYZabcdefghijklmnopqrstuvwxyz0123456789-_''"

definition b64_char :: "nat \<Rightarrow> char" where
  "b64_char n = b64_alphabet ! n"

definition b64_val :: "char \<Rightarrow> nat option" where
  "b64_val c = IndexByte b64_alphabet c"

definition byte :: "char \<Rightarrow> nat" where
  "byte c = of_char c"

fun EncodeToString :: "string \<Rightarrow> string" where
  "EncodeToString [] = []"
| "EncodeToString [a] =
    [b64_char (byte a div 4), b64_char (byte a mod 4 * 16), CHR ''='', CHR ''='']"
| "EncodeToString [a, b] =
    [b64_char (byte a div 4), b64_char (byte a mod 4 * 16 + byte b div 16),
     b64_char (byte b mod 16 * 4), CHR ''='']"
| "EncodeToString (a # b # c # rest) =
    [b64_char (byte a div 4), b64_char (byte a mod 4 * 16 + byte b div 16),
     b64_char (byte b mod 16 * 4 + byte c div 64), b64_char (byte c mod 64)] @ EncodeToString rest"

text \<open>One quantum of four characters at a time; padding only in the last quantum.\<close>

fun decode_quanta :: "string \<Rightarrow> string option" where
  "decode_quanta [] = Some []"
| "decode_quanta (a # b # c # d # rest) =
    (case (b64_val a, b64_val b) of
       (Some x, Some y) \<Rightarrow>
         if c = CHR ''='' then
           (if d = CHR ''='' \<and> rest = [] then Some [char_of (x * 4 + y div 16)] else None)
         else (case b64_val c of
             None \<Rightarrow> None
           | Some z \<Rightarrow>
               if d = CHR ''='' then
                 (if rest = [] then Some [char_of (x * 4 + y div 16), char_of (y mod 16 * 16 + z div 4)]
                  else None)
               else (case b64_val d of
                   None \<Rightarrow> None
                 | Some w \<Rightarrow>
                     map_option (\<lambda>r. [char_of (x * 4 + y div 16), char_of (y mod 16 * 16 + z div 4),
                                      char_of (z mod 4 * 64 + w)] @ r) (decode_quanta rest)))
     | _ \<Rightarrow> None)"
| "decode_quanta _ = None"

definition DecodeString :: "string \<Rightarrow> string option" where
  "DecodeString s = decode_quanta (filter (\<lambda>c. c \<noteq> CHR 0x0A \<and> c \<noteq> CHR 0x0D) s)"

section \<open>Cursors\<close>

definition ErrInvalidCursor :: err where
  "ErrInvalidCursor = Err ''invalid cursor''"

definition EncodeCursor :: "string \<Rightarrow> string \<Rightarrow> string" where
  "EncodeCursor createdAt i = EncodeToString (createdAt @ '','' @ i)"

definition DecodeCursor :: "string \<Rightarrow> (string \<times> string) res" where
  "DecodeCursor cursor =
    (case DecodeString cursor of
       None \<Rightarrow> Inl (Wrap ''invalid cursor'' ErrInvalidCursor)
     | Some raw \<Rightarrow>
         let parts = SplitN2 raw (CHR '','')
         in if length parts \<noteq> 2 then Inl (Wrap ''malformed cursor format'' ErrInvalidCursor)
            else Inr (parts ! 0, parts ! 1))"

section \<open>Lemmas\<close>

lemma distinct_b64_alphabet: "distinct b64_alphabet"
  unfolding b64_alphabet_def by code_simp

lemma length_b64_alphabet: "length b64_alphabet = 64"
  unfolding b64_alphabet_def by code_simp

lemma IndexByte_nth: "distinct xs \<Longrightarrow> n < length xs \<Longrightarrow> IndexByte xs (xs ! n) = Some n"
proof (induction xs arbitrary: n)
  case (Cons x xs)
  then show ?case by (cases n) auto
qed simp

lemma b64_val_char [simp]: "n < 64 \<Longrightarrow> b64_val (b64_char n) = Some n"
  unfolding b64_val_def b64_char_def
  by (simp add: IndexByte_nth distinct_b64_alphabet length_b64_alphabet)

lemma b64_char_plain:
  assumes "n < 64"
  shows "b64_char n \<noteq> CHR ''=''" "b64_char n \<noteq> CHR 0x0A" "b64_char n \<noteq> CHR 0x0D"
proof -
  have "CHR ''='' \<notin> set b64_alphabet" "CHR 0x0A \<notin> set b64_alphabet" "CHR 0x0D \<notin> set b64_alphabet"
    by (code_simp, code_simp, code_simp)
  then show "b64_char n \<noteq> CHR ''=''" "b64_char n \<noteq> CHR 0x0A" "b64_char n \<noteq> CHR 0x0D"
    using assms unfolding b64_char_def by (metis length_b64_alphabet nth_mem)+
qed

lemma byte_less: "byte c < 256"
  by (simp add: byte_def)

lemma char_of_byte: "char_of (byte c) = c"
  by (simp add: byte_def)

text \<open>The sextets of three bytes, and the quotients of a byte that reading them back meets.\<close>

lemma sextet_bounds:
  "byte a div 4 < 64" "byte a mod 4 * 16 + byte b div 16 < 64"
  "byte b mod 16 * 4 + byte c div 64 < 64" "byte c mod 64 < 64"
  "byte a mod 4 * 16 < 64" "byte b mod 16 * 4 < 64"
proof -
  have "byte a mod 4 < 4" "byte b div 16 < 16" "byte b mod 16 < 16" "byte c div 64 < 4"
    using byte_less [of b] byte_less [of c] by auto
  then show "byte a div 4 < 64" "byte a mod 4 * 16 + byte b div 16 < 64"
    "byte b mod 16 * 4 + byte c div 64 < 64" "byte c mod 64 < 64"
    "byte a mod 4 * 16 < 64" "byte b mod 16 * 4 < 64"
    using byte_less [of a] by linarith+
qed

lemma byte_quotients:
  "byte b div 16 div 16 = 0" "byte b div 16 mod 16 = byte b div 16"
  "byte c div 64 div 4 = 0" "byte c div 64 mod 4 = byte c div 64"
  using byte_less [of b] byte_less [of c] by simp_all

lemma encode_no_newline: "filter (\<lambda>c. c \<noteq> CHR 0x0A \<and> c \<noteq> CHR 0x0D) (EncodeToString s) = EncodeToString s"
  by (induction s rule: EncodeToString.induct) (simp_all add: b64_char_plain sextet_bounds)

lemma decode_quanta_encode: "decode_quanta (EncodeToString s) = Some s"
  by (induction s rule: EncodeToString.induct)
     (simp_all add: b64_char_plain sextet_bounds byte_quotients char_of_byte)

lemma DecodeString_EncodeToString: "DecodeString (EncodeToString s) = Some s"
  by (simp add: DecodeString_def encode_no_newline decode_quanta_encode)

section \<open>Properties\<close>

lemma DecodeCursor_EncodeCursor:
  assumes "CHR '','' \<notin> set createdAt"
  shows "DecodeCursor (EncodeCursor createdAt i) = Inr (createdAt, i)"
  using assms by (simp add: DecodeCursor_def EncodeCursor_def DecodeString_EncodeToString SplitN2_append)

lemma cursor_errors_are_invalid_cursor:
  "DecodeCursor s = Inl e \<Longrightarrow> err_is e ErrInvalidCursor"
  by (auto simp: DecodeCursor_def Let_def ErrInvalidCursor_def split: option.splits if_splits)

end
