(* ===== verification/Go_Time.thy ===== *)
theory Go_Time
  imports Go_Lib
begin

text \<open>
  Package \<open>time\<close>: \<open>t.UTC().Format(time.RFC3339Nano)\<close> and \<open>Format(time.RFC3339)\<close>, which write the cursors
  and the timestamps of the API, on times in microseconds since 1970 (the resolution of the
  database). The calendar is the proleptic Gregorian one, computed from the day number in cycles of
  400, 100, 4 and 1 years, as the library does. \<open>parse_rfc3339\<close> reads such a text back: it inverts
  \<open>Format\<close> on the years 0 to 9999, so a database that reads RFC 3339 timestamps can exist.
\<close>

section \<open>The calendar\<close>

text \<open>Days before the first of January of a year, counted from the first of January of the year 1.\<close>

definition days_before_year :: "int \<Rightarrow> int" where
  "days_before_year y = (let k = y - 1 in 365 * k + k div 4 - k div 100 + k div 400)"

definition is_leap :: "int \<Rightarrow> bool" where
  "is_leap y \<longleftrightarrow> y mod 4 = 0 \<and> (y mod 100 \<noteq> 0 \<or> y mod 400 = 0)"

text \<open>Days before a month (\<open>daysBefore\<close>); the months count from 1.\<close>

definition days_before_month :: "bool \<Rightarrow> nat \<Rightarrow> int" where
  "days_before_month leap m =
     [0, 31, 59, 90, 120, 151, 181, 212, 243, 273, 304, 334] ! (m - 1) + (if leap \<and> m > 2 then 1 else 0)"

definition days_of_civil :: "int \<Rightarrow> nat \<Rightarrow> int \<Rightarrow> int" where
  "days_of_civil y m d = days_before_year y + days_before_month (is_leap y) m + d - 1"

text \<open>The year of a day and the days before it in that year.\<close>

definition year_of_day :: "int \<Rightarrow> int \<times> int" where
  "year_of_day n =
    (let a = n div 146097; d = n mod 146097;
         b = min 3 (d div 36524); d = d - 36524 * b;
         c = d div 1461; d = d mod 1461;
         e = min 3 (d div 365); d = d - 365 * e
     in (400 * a + 100 * b + 4 * c + e + 1, d))"

definition month_of_yday :: "bool \<Rightarrow> int \<Rightarrow> nat" where
  "month_of_yday leap yday = length (takeWhile (\<lambda>m. days_before_month leap m \<le> yday) [1..<13])"

definition civil_of_days :: "int \<Rightarrow> int \<times> nat \<times> int" where
  "civil_of_days n =
    (let (y, yday) = year_of_day n; m = month_of_yday (is_leap y) yday
     in (y, m, yday - days_before_month (is_leap y) m + 1))"

text \<open>The first of January 1970.\<close>

abbreviation unix_day :: int where
  "unix_day \<equiv> 719162"

section \<open>Format\<close>

definition pad :: "nat \<Rightarrow> nat \<Rightarrow> string" where
  "pad n k = (let s = digits_of k in replicate (n - length s) (CHR ''0'') @ s)"

definition year_text :: "int \<Rightarrow> string" where
  "year_text y = (if y < 0 then CHR ''-'' # pad 4 (nat (- y)) else pad 4 (nat y))"

text \<open>Everything up to the seconds.\<close>

definition clock_text :: "int \<Rightarrow> string" where
  "clock_text t =
    (let secs = t div 1000000; sod = secs mod 86400; (y, m, d) = civil_of_days (secs div 86400 + unix_day)
     in year_text y @ ''-'' @ pad 2 m @ ''-'' @ pad 2 (nat d) @ ''T'' @
        pad 2 (nat (sod div 3600)) @ '':'' @ pad 2 (nat (sod mod 3600 div 60)) @ '':'' @ pad 2 (nat (sod mod 60)))"

definition frac_text :: "int \<Rightarrow> string" where
  "frac_text t = (let f = TrimRight (pad 6 (nat (t mod 1000000))) (CHR ''0'') in if f = [] then [] else CHR ''.'' # f)"

definition FormatRFC3339Nano :: "int \<Rightarrow> string" where
  "FormatRFC3339Nano t = clock_text t @ frac_text t @ ''Z''"

definition FormatRFC3339 :: "int \<Rightarrow> string" where
  "FormatRFC3339 t = clock_text t @ ''Z''"

section \<open>Reading back\<close>

definition digits_at :: "nat \<Rightarrow> nat \<Rightarrow> string \<Rightarrow> nat" where
  "digits_at i n s = nat_of_digits (take n (drop i s))"

definition parse_rfc3339 :: "string \<Rightarrow> int option" where
  "parse_rfc3339 s =
    (if length s < 20 \<or> last s \<noteq> CHR ''Z'' then None
     else
       let frac = butlast (drop 19 s); f = (case frac of [] \<Rightarrow> [] | _ # ds \<Rightarrow> ds);
           days = days_of_civil (int (digits_at 0 4 s)) (digits_at 5 2 s) (int (digits_at 8 2 s));
           secs = int (3600 * digits_at 11 2 s + 60 * digits_at 14 2 s + digits_at 17 2 s)
       in Some (((days - unix_day) * 86400 + secs) * 1000000 + int (nat_of_digits (f @ replicate (6 - length f) (CHR ''0'')))))"

section \<open>The round trip\<close>

lemma cycles_div:
  assumes "0 \<le> b" "b \<le> 3" "0 \<le> c" "c \<le> 24" "0 \<le> e" "e \<le> (3::int)"
  shows "(400 * a + 100 * b + 4 * c + e) div 4 = 100 * a + 25 * b + c"
    "(400 * a + 100 * b + 4 * c + e) div 100 = 4 * a + b"
    "(400 * a + 100 * b + 4 * c + e) div 400 = a"
  using assms by linarith+

lemma year_of_day_bounds:
  assumes "year_of_day n = (y, yday)"
  shows "days_before_year y + yday = n" "0 \<le> yday" "yday \<le> 365"
proof -
  define a d0 where "a = n div 146097" and "d0 = n mod 146097"
  define b d1 where "b = min 3 (d0 div 36524)" and "d1 = d0 - 36524 * b"
  define c d2 where "c = d1 div 1461" and "d2 = d1 mod 1461"
  define e d3 where "e = min 3 (d2 div 365)" and "d3 = d2 - 365 * e"
  have "(400 * a + 100 * b + 4 * c + e + 1, d3) = (y, yday)"
    using assms unfolding year_of_day_def Let_def d3_def e_def d2_def c_def d1_def b_def d0_def a_def .
  then have y: "y = 400 * a + 100 * b + 4 * c + e + 1" "yday = d3" by simp_all
  have d0: "0 \<le> d0" "d0 \<le> 146096" by (auto simp: d0_def)
  have b: "0 \<le> b" "b \<le> 3" using d0 by (auto simp: b_def)
  have d1: "0 \<le> d1" "d1 \<le> 36524" using d0 by (auto simp: d1_def b_def min_def)
  have c: "0 \<le> c" "c \<le> 24" using d1 by (auto simp: c_def)
  have d2: "0 \<le> d2" "d2 \<le> 1460" by (auto simp: d2_def)
  have e: "0 \<le> e" "e \<le> 3" using d2 by (auto simp: e_def)
  show "0 \<le> yday" "yday \<le> 365" using d2 by (auto simp: y d3_def e_def min_def)
  have "n = 146097 * a + d0" "d0 = 36524 * b + d1" "d1 = 1461 * c + d2" "d2 = 365 * e + d3"
    by (simp_all add: a_def d0_def d1_def c_def d2_def d3_def)
  then show "days_before_year y + yday = n"
    using cycles_div [OF b c e, of a] by (simp add: days_before_year_def y Let_def)
qed

lemma days_before_month_1: "days_before_month l 1 = 0"
  by (simp add: days_before_month_def)

lemma month_of_yday_bounds:
  assumes "0 \<le> yday" "yday \<le> 365"
  shows "1 \<le> month_of_yday l yday" "month_of_yday l yday \<le> 12"
    "0 \<le> yday - days_before_month l (month_of_yday l yday)" "yday - days_before_month l (month_of_yday l yday) < 99"
proof -
  let ?P = "\<lambda>m. days_before_month l m \<le> yday"
  have ms: "[1..<13] = [1, 2, 3, 4, 5, 6, 7, 8, 9, 10, 11, 12::nat]" by (simp add: upt_rec)
  show "1 \<le> month_of_yday l yday" "month_of_yday l yday \<le> 12"
    "0 \<le> yday - days_before_month l (month_of_yday l yday)" "yday - days_before_month l (month_of_yday l yday) < 99"
    unfolding month_of_yday_def ms using assms by (auto simp: days_before_month_def nth_Cons' split: if_splits)
qed

lemma civil_of_days_inverse:
  assumes "civil_of_days n = (y, m, d)"
  shows "days_of_civil y m d = n" "1 \<le> m" "m \<le> 12" "1 \<le> d" "d < 100"
proof -
  obtain y' yday where y: "year_of_day n = (y', yday)" by (cases "year_of_day n")
  with assms have eq: "y = y'" "m = month_of_yday (is_leap y') yday" "d = yday - days_before_month (is_leap y') m + 1"
    by (auto simp: civil_of_days_def Let_def)
  note b = year_of_day_bounds [OF y]
  note mb = month_of_yday_bounds [OF b(2,3), of "is_leap y'"]
  show "days_of_civil y m d = n" using b(1) by (simp add: days_of_civil_def eq)
  show "1 \<le> m" "m \<le> 12" "1 \<le> d" "d < 100" using mb by (simp_all add: eq)
qed

lemma length_digits_of: "0 < n \<Longrightarrow> k < 10 ^ n \<Longrightarrow> length (digits_of k) \<le> n"
proof (induction n arbitrary: k)
  case (Suc n)
  show ?case
  proof (cases "k < 10")
    case True
    then show ?thesis by (simp add: digits_of.simps)
  next
    case False
    with Suc.prems have "n > 0" by (cases n) auto
    moreover from Suc.prems have "k div 10 < 10 ^ n" by (simp add: div_less_iff_less_mult)
    ultimately have "length (digits_of (k div 10)) \<le> n" by (rule Suc.IH)
    with False show ?thesis by (subst digits_of.simps) simp
  qed
qed simp

lemma length_pad: "0 < n \<Longrightarrow> k < 10 ^ n \<Longrightarrow> length (pad n k) = n"
  using length_digits_of [of n k] by (simp add: pad_def Let_def)

lemma nat_of_digits_pad [simp]: "nat_of_digits (pad n k) = k"
  by (simp add: pad_def Let_def nat_of_digits_append)

lemma pad_digits: "list_all is_digit (pad n k)"
  using digits_of_digits [of k] by (auto simp: pad_def Let_def list_all_iff)

lemma digits_at_append: "i = length a \<Longrightarrow> n = length b \<Longrightarrow> digits_at i n (a @ b @ c) = nat_of_digits b"
  by (simp add: digits_at_def)

text \<open>The fixed part of the text has 19 characters, and each group of digits is at its place.\<close>

lemma clock_text_parts:
  assumes "civil_of_days (t div 1000000 div 86400 + unix_day) = (y, m, d)" "0 \<le> y" "y \<le> 9999"
  shows "length (clock_text t) = 19" "digits_at 0 4 (clock_text t @ r) = nat y" "digits_at 5 2 (clock_text t @ r) = m"
    "digits_at 8 2 (clock_text t @ r) = nat d" "digits_at 11 2 (clock_text t @ r) = nat (t div 1000000 mod 86400 div 3600)"
    "digits_at 14 2 (clock_text t @ r) = nat (t div 1000000 mod 86400 mod 3600 div 60)"
    "digits_at 17 2 (clock_text t @ r) = nat (t div 1000000 mod 86400 mod 60)"
proof -
  define sod where "sod = t div 1000000 mod 86400"
  note civ = civil_of_days_inverse [OF assms(1)]
  have sod: "0 \<le> sod" "sod < 86400" by (simp_all add: sod_def)
  define Y M D H N S where "Y = pad 4 (nat y)" and "M = pad 2 m" and "D = pad 2 (nat d)" and "H = pad 2 (nat (sod div 3600))"
    and "N = pad 2 (nat (sod mod 3600 div 60))" and "S = pad 2 (nat (sod mod 60))"
  have len: "length Y = 4" "length M = 2" "length D = 2" "length H = 2" "length N = 2" "length S = 2"
    unfolding Y_def M_def D_def H_def N_def S_def using assms(2,3) civ sod by (intro length_pad; auto simp: nat_less_iff)+
  have c: "clock_text t = Y @ CHR ''-'' # M @ CHR ''-'' # D @ CHR ''T'' # H @ CHR '':'' # N @ CHR '':'' # S"
    using assms by (simp add: clock_text_def Let_def year_text_def Y_def M_def D_def H_def N_def S_def sod_def)
  have v: "nat_of_digits Y = nat y" "nat_of_digits M = m" "nat_of_digits D = nat d" "nat_of_digits H = nat (sod div 3600)"
      "nat_of_digits N = nat (sod mod 3600 div 60)" "nat_of_digits S = nat (sod mod 60)"
    by (simp_all add: Y_def M_def D_def H_def N_def S_def)
  show "length (clock_text t) = 19" using len by (simp add: c)
  have 1: "clock_text t @ r = [] @ Y @ (CHR ''-'' # M @ CHR ''-'' # D @ CHR ''T'' # H @ CHR '':'' # N @ CHR '':'' # S @ r)"
    and 2: "clock_text t @ r = (Y @ ''-'') @ M @ (CHR ''-'' # D @ CHR ''T'' # H @ CHR '':'' # N @ CHR '':'' # S @ r)"
    and 3: "clock_text t @ r = (Y @ ''-'' @ M @ ''-'') @ D @ (CHR ''T'' # H @ CHR '':'' # N @ CHR '':'' # S @ r)"
    and 4: "clock_text t @ r = (Y @ ''-'' @ M @ ''-'' @ D @ ''T'') @ H @ (CHR '':'' # N @ CHR '':'' # S @ r)"
    and 5: "clock_text t @ r = (Y @ ''-'' @ M @ ''-'' @ D @ ''T'' @ H @ '':'') @ N @ (CHR '':'' # S @ r)"
    and 6: "clock_text t @ r = (Y @ ''-'' @ M @ ''-'' @ D @ ''T'' @ H @ '':'' @ N @ '':'') @ S @ r"
    by (simp_all add: c)
  show "digits_at 0 4 (clock_text t @ r) = nat y" unfolding 1 v(1) [symmetric] by (rule digits_at_append) (simp_all add: len)
  show "digits_at 5 2 (clock_text t @ r) = m" unfolding 2 v(2) [symmetric] by (rule digits_at_append) (simp_all add: len)
  show "digits_at 8 2 (clock_text t @ r) = nat d" unfolding 3 v(3) [symmetric] by (rule digits_at_append) (simp_all add: len)
  show "digits_at 11 2 (clock_text t @ r) = nat (t div 1000000 mod 86400 div 3600)"
    unfolding 4 sod_def [symmetric] v(4) [symmetric] by (rule digits_at_append) (simp_all add: len)
  show "digits_at 14 2 (clock_text t @ r) = nat (t div 1000000 mod 86400 mod 3600 div 60)"
    unfolding 5 sod_def [symmetric] v(5) [symmetric] by (rule digits_at_append) (simp_all add: len)
  show "digits_at 17 2 (clock_text t @ r) = nat (t div 1000000 mod 86400 mod 60)"
    unfolding 6 sod_def [symmetric] v(6) [symmetric] by (rule digits_at_append) (simp_all add: len)
qed

lemma frac_text_value:
  assumes "f = (case frac_text t of [] \<Rightarrow> [] | _ # ds \<Rightarrow> ds)"
  shows "nat_of_digits (f @ replicate (6 - length f) (CHR ''0'')) = nat (t mod 1000000)"
proof -
  let ?p = "pad 6 (nat (t mod 1000000))"
  have f: "f = TrimRight ?p (CHR ''0'')" using assms by (simp add: frac_text_def Let_def)
  obtain k where k: "?p = f @ replicate k (CHR ''0'')" using TrimRight_append_replicate unfolding f by blast
  have "length ?p = 6" by (rule length_pad) (simp_all add: nat_less_iff)
  with k have "k = 6 - length f" by (metis add_diff_cancel_left' length_append length_replicate)
  with k show ?thesis by (metis nat_of_digits_pad)
qed

lemma hms_sum:
  fixes v :: int
  assumes "0 \<le> v"
  shows "3600 * (v div 3600) + 60 * (v mod 3600 div 60) + v mod 60 = v"
proof -
  have "v mod 3600 mod 60 = v mod 60" by (rule mod_mod_cancel) simp
  then have "60 * (v mod 3600 div 60) + v mod 60 = v mod 3600" using mult_div_mod_eq [of 60 "v mod 3600"] by simp
  then show ?thesis using mult_div_mod_eq [of 3600 v] by linarith
qed

definition year_of :: "int \<Rightarrow> int" where
  "year_of t = fst (civil_of_days (t div 1000000 div 86400 + unix_day))"

lemma parse_rfc3339_Format:
  assumes "0 \<le> year_of t" "year_of t \<le> 9999"
  shows "parse_rfc3339 (FormatRFC3339Nano t) = Some t"
proof -
  obtain y m d where civ: "civil_of_days (t div 1000000 div 86400 + unix_day) = (y, m, d)" by (cases "civil_of_days (t div 1000000 div 86400 + unix_day)")
  with assms have y: "0 \<le> y" "y \<le> 9999" by (simp_all add: year_of_def)
  note inv = civil_of_days_inverse [OF civ]
  note parts = clock_text_parts(1) [OF civ y] clock_text_parts(2-) [OF civ y, of "frac_text t @ ''Z''"]
  define f where "f = (case frac_text t of [] \<Rightarrow> [] | _ # ds \<Rightarrow> ds)"
  have f: "nat_of_digits (f @ replicate (6 - length f) (CHR ''0'')) = nat (t mod 1000000)" by (rule frac_text_value [OF f_def])
  let ?S = "FormatRFC3339Nano t"
  have s: "?S = clock_text t @ frac_text t @ ''Z''" by (simp add: FormatRFC3339Nano_def)
  note P = parts(2-) [folded s]
  define u where "u = t div 1000000"
  have ok: "(length ?S < 20 \<or> last ?S \<noteq> CHR ''Z'') = False" and fr: "butlast (drop 19 ?S) = frac_text t"
    using parts(1) by (simp_all add: s)
  have secs: "int (3600 * nat (u mod 86400 div 3600) + 60 * nat (u mod 86400 mod 3600 div 60) + nat (u mod 86400 mod 60)) = u mod 86400"
    using hms_sum [of "u mod 86400"] pos_imp_zdiv_nonneg_iff [of 3600 "u mod 86400"] pos_imp_zdiv_nonneg_iff [of 60 "u mod 86400 mod 3600"]
    by (simp del: mod_mod_cancel)
  have "int (nat y) = y" "int (nat d) = d" using y inv by simp_all
  then have "parse_rfc3339 ?S = Some (((u div 86400 + unix_day - unix_day) * 86400 + u mod 86400) * 1000000 + int (nat (t mod 1000000)))"
    by (simp only: parse_rfc3339_def Let_def ok if_False P fr f_def [symmetric] f inv(1) secs u_def [symmetric])
  moreover have "u div 86400 * 86400 + u mod 86400 = u" "u * 1000000 + t mod 1000000 = t" by (simp_all add: u_def)
  ultimately show ?thesis by (simp add: algebra_simps)
qed

lemma Format_no_comma: "CHR '','' \<notin> set (FormatRFC3339Nano t)"
proof -
  have p: "CHR '','' \<notin> set (pad n k)" for n k using pad_digits [of n k] by (auto simp: list_all_iff)
  have "CHR '','' \<notin> set (frac_text t)"
    using p set_TrimRight [of "pad 6 (nat (t mod 1000000))" "CHR ''0''"] by (auto simp: frac_text_def Let_def)
  moreover have "CHR '','' \<notin> set (year_text y)" for y using p by (simp add: year_text_def)
  ultimately show ?thesis using p by (auto simp: FormatRFC3339Nano_def clock_text_def Let_def split: prod.splits)
qed

end
