(* ===== verification/Go_Float.thy ===== *)
theory Go_Float
  imports Payment_Model Go_Lib "HOL-Library.Log_Nat"
begin

text \<open>
  The conversions to \<open>float64\<close> that the HTTP handlers make: \<open>strconv.ParseFloat\<close> on decimal literals
  and \<open>float64(n)\<close>. A float is its IEEE 754 bit pattern. \<open>float_of\<close> rounds a fraction to the nearest
  float, ties to even; subnormal results and overflow to infinity included.
\<close>

text \<open>The quotient of natural numbers, rounded to the nearest integer, ties to even.\<close>

definition round_even :: "nat \<Rightarrow> nat \<Rightarrow> nat" where
  "round_even a b =
    (let q = a div b; r = a mod b in
     if 2 * r > b \<or> (2 * r = b \<and> odd q) then Suc q else q)"

text \<open>
  \<open>num / den\<close> for positive arguments: with \<open>2 ^ k \<le> num / den < 2 ^ (k + 1)\<close>, the result has the
  precision \<open>2 ^ q\<close> where \<open>q = k - 52\<close>, at least \<open>-1074\<close>. The bits are the rounded multiple plus the
  exponent; a carry moves into the exponent by itself.
\<close>

definition scaled :: "nat \<Rightarrow> nat \<Rightarrow> int \<Rightarrow> nat" where
  "scaled num den q = (if q \<ge> 0 then round_even num (den * 2 ^ nat q) else round_even (num * 2 ^ nat (- q)) den)"

definition magnitude_exponent :: "nat \<Rightarrow> nat \<Rightarrow> int" where
  "magnitude_exponent num den =
    (let k = bitlen (int num) - bitlen (int den) in
     if (if k \<ge> 0 then num < den * 2 ^ nat k else num * 2 ^ nat (- k) < den) then k - 1 else k)"

definition float_bits :: "nat \<Rightarrow> nat \<Rightarrow> nat" where
  "float_bits num den =
    (if num = 0 then 0
     else let q = max (magnitude_exponent num den - 52) (-1074);
              bits = nat (q + 1074) * 2 ^ 52 + scaled num den q
          in min bits (2047 * 2 ^ 52))"

definition float_of :: "bool \<Rightarrow> nat \<Rightarrow> nat \<Rightarrow> float64" where
  "float_of neg num den = of_nat ((if neg then 2 ^ 63 else 0) + float_bits num den)"

text \<open>\<open>float64(n)\<close> for an \<open>int64\<close>.\<close>

definition float_of_int :: "int \<Rightarrow> float64" where
  "float_of_int n = float_of (n < 0) (nat \<bar>n\<bar>) 1"

text \<open>The value of a finite float, as a fraction; used for the product with a constant.\<close>

definition float_fraction :: "float64 \<Rightarrow> bool \<times> nat \<times> nat" where
  "float_fraction f =
    (let b = unat f; m = b mod 2 ^ 52; x = b div 2 ^ 52 mod 2048;
         mant = (if x = 0 then m else m + 2 ^ 52); e = int (max x 1) - 1075
     in (b \<ge> 2 ^ 63, mant * 2 ^ nat e, 2 ^ nat (- e)))"

definition float_times :: "float64 \<Rightarrow> nat \<Rightarrow> float64" where
  "float_times f k = (case float_fraction f of (neg, num, den) \<Rightarrow> float_of neg (num * k) den)"

text \<open>\<open>f <= 0\<close> for a float that is not a NaN.\<close>

definition float_le_zero :: "float64 \<Rightarrow> bool" where
  "float_le_zero f \<longleftrightarrow> unat f \<ge> 2 ^ 63 \<or> f = 0"

text \<open>
  \<open>strconv.ParseFloat(s, 64)\<close> on a literal \<open>[-]digits[.digits][(e|E)[+|-]digits]\<close>, the only texts it is
  called with: the value and whether the error is nil. A literal that overflows gives an infinity and
  an error, any other text zero and an error.
\<close>

definition exponent_at :: "string \<Rightarrow> nat option" where
  "exponent_at s = (case IndexByte s (CHR ''e'') of Some i \<Rightarrow> Some i | None \<Rightarrow> IndexByte s (CHR ''E''))"

definition parse_exponent :: "string \<Rightarrow> int option" where
  "parse_exponent s = (case exponent_at s of None \<Rightarrow> Some 0 | Some i \<Rightarrow> SetString10 (drop (Suc i) s))"

definition parse_mantissa :: "string \<Rightarrow> (nat \<times> nat) option" where
  "parse_mantissa s =
    (case IndexByte s (CHR ''.'') of
       None \<Rightarrow> if s \<noteq> [] \<and> list_all is_digit s then Some (nat_of_digits s, 0) else None
     | Some i \<Rightarrow>
         let a = take i s; f = drop (Suc i) s
         in if a @ f \<noteq> [] \<and> list_all is_digit (a @ f) then Some (nat_of_digits (a @ f), length f) else None)"

definition ParseFloat :: "string \<Rightarrow> float64 \<times> bool" where
  "ParseFloat s =
    (let neg = (s \<noteq> [] \<and> hd s = CHR ''-''); u = (if neg then tl s else s) in
     case (parse_mantissa (case exponent_at u of None \<Rightarrow> u | Some i \<Rightarrow> take i u), parse_exponent u) of
       (Some (n, k), Some x) \<Rightarrow>
         let e = x - int k; num = n * 10 ^ nat e; den = 10 ^ nat (- e)
         in (float_of neg num den, float_bits num den < 2047 * 2 ^ 52)
     | _ \<Rightarrow> (0, False))"

text \<open>
  The rounding is to a nearest integer: off by at most half of the divisor.
\<close>

lemma round_even_nearest:
  assumes "0 < b"
  shows "2 * \<bar>int a - int (round_even a b) * int b\<bar> \<le> int b"
proof -
  have r: "a mod b < b" using assms by simp
  have a: "int a = int (a div b) * int b + int (a mod b)" by (simp flip: of_nat_mult of_nat_add)
  show ?thesis
  proof (cases "2 * (a mod b) > b \<or> (2 * (a mod b) = b \<and> odd (a div b))")
    case True
    then have "round_even a b = Suc (a div b)" by (simp add: round_even_def Let_def)
    with a have "int a - int (round_even a b) * int b = int (a mod b) - int b" by (simp add: algebra_simps)
    with True r show ?thesis by auto
  next
    case False
    then have "round_even a b = a div b" by (simp add: round_even_def Let_def)
    with a have "int a - int (round_even a b) * int b = int (a mod b)" by simp
    with False show ?thesis by auto
  qed
qed

end
