(* ===== verification/Listing.thy ===== *)
theory Listing
  imports Store Cursor Go_Time Go_Float "HOL-Library.Product_Lexorder" "HOL-Library.List_Lexorder" "HOL-Library.Char_ord"
begin

text \<open>
  The read-only queries of \<open>internal/postgres/store.go\<close>: the keyset-paginated payment list and the
  dashboard aggregates. The functions of PostgreSQL they apply to values (reading a timestamp,
  truncating it, subtracting days in the session's time zone, the floating-point average) are
  parameters, the record \<open>Pg\<close>. UUIDs compare as their canonical texts do.
\<close>

record Pg =
  pg_timestamptz_in :: "string \<Rightarrow> time option"
  pg_date_trunc :: "string \<Rightarrow> time \<Rightarrow> time"
  pg_minus_days :: "time \<Rightarrow> int \<Rightarrow> time"
  pg_avg :: "float64 list \<Rightarrow> float64"

text \<open>What the cursor relies on: PostgreSQL reads the RFC 3339 timestamps of the years 0 to 9999.\<close>

definition pg_ok :: "Pg \<Rightarrow> bool" where
  "pg_ok pg \<longleftrightarrow> (\<forall>t. 0 \<le> year_of t \<longrightarrow> year_of t \<le> 9999 \<longrightarrow> pg_timestamptz_in pg (FormatRFC3339Nano t) = Some t)"

section \<open>ListPayments\<close>

text \<open>Go's zero \<open>time.Time\<close>, the first of January of the year 1.\<close>

definition zero_time :: time where
  "zero_time = -62135596800000000"

text \<open>The selected columns; the other fields keep their zero values.\<close>

definition scan_list_row :: "payment_row \<Rightarrow> Payment" where
  "scan_list_row r = \<lparr>
     p_ID = pr_id r, p_IdempotencyKey = '''', p_SourceChain = pr_source_chain r, p_DestinationChain = pr_destination_chain r,
     p_Asset = pr_asset r, p_Amount = numeric_text 18 (pr_amount r), p_Status = pr_status r, p_TotalFee = pr_total_fee r,
     p_Hops = [], p_ExecutionMode = pr_execution_mode r, p_BridgeProvider = pr_bridge_provider r, p_FailureReason = None,
     p_Quotes = [], p_CreatedAt = pr_created_at r, p_UpdatedAt = zero_time, p_CompletedAt = None\<rparr>"

definition list_key :: "payment_row \<Rightarrow> time \<times> string" where
  "list_key r = (pr_created_at r, pr_id r)"

text \<open>The \<open>AND ...\<close> clauses of the optional filters.\<close>

definition filter_matches :: "ListFilter \<Rightarrow> payment_row \<Rightarrow> bool" where
  "filter_matches f r \<longleftrightarrow>
     (\<forall>s \<in> set_option (f_Status f). status_text (pr_status r) = s) \<and>
     (\<forall>p \<in> set_option (f_Provider f). pr_bridge_provider r = Some p) \<and>
     (\<forall>c \<in> set_option (f_SourceChain f). pr_source_chain r = c) \<and>
     (\<forall>c \<in> set_option (f_DestinationChain f). pr_destination_chain r = c) \<and>
     (\<forall>m \<in> set_option (f_ExecutionMode f). pr_execution_mode r = m)"

text \<open>The two arguments of \<open>(created_at, id) < ($1, $2)\<close>, as the server reads them.\<close>

definition cursor_bound :: "Pg \<Rightarrow> (string \<times> string) option \<Rightarrow> (time \<times> string) option res" where
  "cursor_bound pg cur =
    (case cur of
       None \<Rightarrow> Inr None
     | Some (createdAt, i) \<Rightarrow>
        (case pg_timestamptz_in pg createdAt of
           None \<Rightarrow> Inl (PgError ''22007'' '''')
         | Some t \<Rightarrow> uuid_arg i (\<lambda>u. Inr (Some (t, u)))))"

definition decode_cursor_arg :: "string \<Rightarrow> (string \<times> string) option res" where
  "decode_cursor_arg c = (if c = '''' then Inr None else map_sum id Some (DecodeCursor c))"

definition effective_limit :: "ListFilter \<Rightarrow> int" where
  "effective_limit f = (if f_Limit f \<le> 0 then 25 else f_Limit f)"

definition list_query :: "Pg \<Rightarrow> ListFilter \<Rightarrow> (string \<times> string) option \<Rightarrow> db \<Rightarrow> payment_row list res" where
  "list_query pg f cur d =
    (case cursor_bound pg cur of
       Inl e \<Rightarrow> Inl e
     | Inr bound \<Rightarrow> Inr (take (nat (effective_limit f + 1)) (rev (sort_key list_key (sql_select
         (\<lambda>r. (\<forall>b \<in> set_option bound. list_key r < b) \<and> filter_matches f r) (db_payments d))))))"

definition next_page :: "int \<Rightarrow> Payment list \<Rightarrow> Payment list \<times> string" where
  "next_page limit results =
    (if int (length results) > limit
     then let last = results ! nat (limit - 1)
          in (take (nat limit) results, EncodeCursor (FormatRFC3339Nano (p_CreatedAt last)) (p_ID last))
     else (results, ''''))"

definition ListPayments :: "Pg \<Rightarrow> ListFilter \<Rightarrow> (Payment list \<times> string) res pr" where
  "ListPayments pg f =
    (case decode_cursor_arg (f_Cursor f) of
       Inl e \<Rightarrow> Done (Inl e)
     | Inr cur \<Rightarrow>
         tryp (wrapp ''list payments'' (sql_query (\<lambda>i d. list_query pg f cur d))) (\<lambda>e. Done (Inl e))
           (\<lambda>rows. Done (Inr (next_page (effective_limit f) (map scan_list_row rows)))))"

section \<open>GetDashboardStats\<close>

definition count_rows :: "(payment_row \<Rightarrow> bool) \<Rightarrow> db \<Rightarrow> nat" where
  "count_rows c d = length (sql_select c (db_payments d))"

text \<open>\<open>COALESCE(AVG(total_fee), 0)\<close>.\<close>

definition average_fee :: "Pg \<Rightarrow> payment_row list \<Rightarrow> float64" where
  "average_fee pg rows = (if rows = [] then 0 else pg_avg pg (map pr_total_fee rows))"

text \<open>\<open>GROUP BY bridge_provider\<close> into a map: a provider without rows is absent.\<close>

definition provider_usage :: "db \<Rightarrow> string \<rightharpoonup> nat" where
  "provider_usage d p = (let n = count_rows (\<lambda>r. pr_bridge_provider r = Some p) d in if n = 0 then None else Some n)"

definition corridor :: "payment_row \<Rightarrow> string \<times> string" where
  "corridor r = (pr_source_chain r, pr_destination_chain r)"

definition network_usage :: "db \<Rightarrow> NetworkUsageEntry list" where
  "network_usage d =
     map (\<lambda>(n, s, t). \<lparr>n_SourceChain = s, n_DestinationChain = t, n_Count = nat (- n)\<rparr>)
       (sort (map (\<lambda>k. (- int (count_rows (\<lambda>r. corridor r = k) d), fst k, snd k))
          (remdups (map corridor (db_payments d)))))"

definition GetDashboardStats :: "Pg \<Rightarrow> DashboardStats res pr" where
  "GetDashboardStats pg =
    tryp (wrapp ''get dashboard stats'' (sql_query (\<lambda>i d. Inr
        (length (db_payments d), count_rows (\<lambda>r. pr_status r = COMPLETED) d, count_rows in_flight d,
         count_rows (\<lambda>r. pr_status r = FAILED) d, average_fee pg (shuffle (e_order i) (db_payments d))))))
      (\<lambda>e. Done (Inl e)) (\<lambda>(total, completed, processing, failed, avg).
    tryp (wrapp ''get provider usage'' (sql_query (\<lambda>i d. Inr (provider_usage d))))
      (\<lambda>e. Done (Inl e)) (\<lambda>usage.
    tryp (wrapp ''get network usage'' (sql_query (\<lambda>i d. Inr (network_usage d))))
      (\<lambda>e. Done (Inl e)) (\<lambda>network.
    Done (Inr \<lparr>d_TotalPayments = total, d_CompletedPayments = completed, d_ProcessingPayments = processing,
      d_FailedPayments = failed, d_ProviderUsage = usage, d_AverageRoutingCost = avg, d_NetworkUsage = network\<rparr>))))"

section \<open>GetTimeseries\<close>

definition timeseries_rows :: "Pg \<Rightarrow> string \<Rightarrow> string \<Rightarrow> int \<Rightarrow> env \<Rightarrow> db \<Rightarrow> TimeseriesPoint list" where
  "timeseries_rows pg metric interval days i d =
    (let rows = sql_select (\<lambda>r. pg_minus_days pg (e_now i) days < pr_created_at r) (db_payments d);
         bucket = (\<lambda>r. pg_date_trunc pg interval (pr_created_at r))
     in map (\<lambda>b. let rs = filter (\<lambda>r. bucket r = b) rows in
          \<lparr>t_Bucket = b,
           t_Value = (if metric = ''routing_cost'' then average_fee pg (shuffle (e_order i) rs) else float_of_int (int (length rs))),
           t_Count = length rs\<rparr>)
        (sort (remdups (map bucket rows))))"

definition GetTimeseries :: "Pg \<Rightarrow> string \<Rightarrow> string \<Rightarrow> int \<Rightarrow> TimeseriesPoint list res pr" where
  "GetTimeseries pg metric interval days =
    wrapp ''get timeseries'' (sql_query (\<lambda>i d. Inr (timeseries_rows pg metric interval days i d)))"

end
