(* ===== verification/Handler.thy ===== *)
theory Handler
  imports Executor Listing Money
begin

text \<open>
  The HTTP API (\<open>internal/handler\<close>): creating and reading payments, the payment list, the dashboard
  and the route preview. A handler is a process that ends with its response; \<open>Inl\<close> is a panic, which
  the HTTP server turns into a dropped connection. A request body is the JSON document it starts
  with (\<open>None\<close> when it does not parse). The routing service is the environment's \<open>e_route\<close>. The quote
  requests of one payment run in parallel; the model makes them in index order, and their results
  are independent answers of the environment. An error text inside a message is left out.
\<close>

section \<open>Strings\<close>

text \<open>The white space \<open>strings.TrimSpace\<close> removes, in UTF-8.\<close>

definition white_space :: "string list" where
  "white_space = map (\<lambda>c. [c]) [CHR 0x09, CHR 0x0A, CHR 0x0B, CHR 0x0C, CHR 0x0D, CHR 0x20] @
     [[CHR 0xC2, CHR 0x85], [CHR 0xC2, CHR 0xA0], [CHR 0xE1, CHR 0x9A, CHR 0x80]] @
     map (\<lambda>c. [CHR 0xE2, CHR 0x80, c]) [CHR 0x80, CHR 0x81, CHR 0x82, CHR 0x83, CHR 0x84, CHR 0x85, CHR 0x86, CHR 0x87,
       CHR 0x88, CHR 0x89, CHR 0x8A, CHR 0xA8, CHR 0xA9, CHR 0xAF] @
     [[CHR 0xE2, CHR 0x81, CHR 0x9F], [CHR 0xE3, CHR 0x80, CHR 0x80]]"

function trim_prefixes :: "string list \<Rightarrow> string \<Rightarrow> string" where
  "trim_prefixes ps s =
    (case find (\<lambda>p. p \<noteq> [] \<and> take (length p) s = p) ps of
       None \<Rightarrow> s
     | Some p \<Rightarrow> trim_prefixes ps (drop (length p) s))"
  by pat_completeness auto
termination
proof (relation "measure (\<lambda>(ps, s). length s)")
  fix ps s p assume "find (\<lambda>p. p \<noteq> [] \<and> take (length p) s = p) ps = Some p"
  then have "p \<noteq> []" "take (length p) s = p" by (auto simp: find_Some_iff)
  then show "((ps, drop (length p) s), (ps, s)) \<in> measure (\<lambda>(ps, s). length s)" by (cases s) auto
qed simp

declare trim_prefixes.simps [simp del]

definition TrimSpace :: "string \<Rightarrow> string" where
  "TrimSpace s = rev (trim_prefixes (map rev white_space) (rev (trim_prefixes white_space s)))"

text \<open>
  \<open>strings.ToLower\<close> for a map lookup with an ASCII key: ASCII letters, and the two other runes whose
  lower case is an ASCII letter (U+0130 and the Kelvin sign). Other runes never match a key.
\<close>

fun lower_key :: "string \<Rightarrow> string" where
  "lower_key (a # b # c # cs) =
    (if a = CHR 0xC4 \<and> b = CHR 0xB0 then CHR ''i'' # lower_key (c # cs)
     else if a = CHR 0xE2 \<and> b = CHR 0x84 \<and> c = CHR 0xAA then CHR ''k'' # lower_key cs
     else lower_char a # lower_key (b # c # cs))"
| "lower_key [a, b] = (if a = CHR 0xC4 \<and> b = CHR 0xB0 then ''i'' else [lower_char a, lower_char b])"
| "lower_key s = ToLower s"

section \<open>routes.go: tables\<close>

definition chainByName :: "string \<rightharpoonup> Chain" where
  "chainByName = [''ethereum'' \<mapsto> CHAIN_ETHEREUM, ''base'' \<mapsto> CHAIN_BASE, ''arbitrum'' \<mapsto> CHAIN_ARBITRUM,
     ''optimism'' \<mapsto> CHAIN_OPTIMISM, ''polygon'' \<mapsto> CHAIN_POLYGON]"

text \<open>A lookup of a missing key in a Go map gives the zero value.\<close>

fun chainNameByValue :: "Chain \<Rightarrow> string" where
  "chainNameByValue CHAIN_ETHEREUM = ''ethereum''"
| "chainNameByValue CHAIN_BASE = ''base''"
| "chainNameByValue CHAIN_ARBITRUM = ''arbitrum''"
| "chainNameByValue CHAIN_OPTIMISM = ''optimism''"
| "chainNameByValue CHAIN_POLYGON = ''polygon''"
| "chainNameByValue (CHAIN_OTHER _) = ''''"

definition assetByName :: "string \<rightharpoonup> Asset" where
  "assetByName = [''usdc'' \<mapsto> ASSET_USDC, ''eth'' \<mapsto> ASSET_ETH]"

fun assetNameByValue :: "Asset \<Rightarrow> string" where
  "assetNameByValue ASSET_USDC = ''USDC''"
| "assetNameByValue ASSET_ETH = ''ETH''"
| "assetNameByValue (ASSET_OTHER _) = ''''"

definition testnetChainIDByChain :: "Chain \<rightharpoonup> int" where
  "testnetChainIDByChain = [CHAIN_ETHEREUM \<mapsto> 11155111, CHAIN_BASE \<mapsto> 84532]"

definition bridgedAssetSymbol :: "string \<rightharpoonup> string" where
  "bridgedAssetSymbol = [''eth'' \<mapsto> ''WETH'']"

text \<open>The configuration of the server. A nil ceiling or registry is \<open>None\<close>.\<close>

record Handler =
  hd_BlockchainEnv :: string
  hd_MaxTestnetAmountWei :: "int option"
  hd_QuoteRegistry :: "env Registry option"
  hd_Pg :: Pg

section \<open>Responses\<close>

record hopResponse =
  hp_HopIndex :: int
  hp_FromChain :: string
  hp_ToChain :: string
  hp_BridgeName :: string
  hp_Fee :: float64
  hp_LatencyMs :: float64
  hp_Liquidity :: float64
  hp_Reliability :: float64

record paymentResponse =
  pp_ID :: string
  pp_SourceChain :: string
  pp_DestinationChain :: string
  pp_Asset :: string
  pp_Amount :: string
  pp_Status :: string
  pp_TotalFee :: float64
  pp_Hops :: "hopResponse list"
  pp_ExecutionMode :: string
  pp_BridgeProvider :: "string option"
  pp_FailureReason :: "string option"
  pp_ExternalTxHash :: "string option"
  pp_SubmittedAt :: "string option"
  pp_CreatedAt :: string
  pp_UpdatedAt :: string
  pp_CompletedAt :: "string option"
  pp_ProviderReferenceID :: "string option"
  pp_ExternalStatus :: "string option"
  pp_RawExternalStatus :: "string option"

record paymentListItem =
  li_ID :: string
  li_SourceChain :: string
  li_DestinationChain :: string
  li_Asset :: string
  li_Amount :: string
  li_Status :: string
  li_ExecutionMode :: string
  li_BridgeProvider :: "string option"
  li_TotalFee :: float64
  li_CreatedAt :: string

record quoteItem =
  qi_Provider :: string
  qi_InputAmount :: string
  qi_OutputAmount :: string
  qi_FeeAmount :: string
  qi_EstimatedFillTimeSec :: int
  qi_Selected :: bool
  qi_QuotedAt :: string

record routeHop =
  ro_FromChain :: string
  ro_ToChain :: string
  ro_BridgeName :: string
  ro_Fee :: float64
  ro_LatencyMs :: float64
  ro_Liquidity :: float64
  ro_Reliability :: float64

record timeseriesPoint =
  ti_Bucket :: string
  ti_Value :: float64
  ti_Count :: nat

record networkUsageEntry =
  ne_SourceChain :: string
  ne_DestinationChain :: string
  ne_Count :: nat

record dashboardStats =
  ds_TotalPayments :: nat
  ds_CompletedPayments :: nat
  ds_ProcessingPayments :: nat
  ds_FailedPayments :: nat
  ds_ProviderUsage :: "string \<rightharpoonup> nat"
  ds_AverageRoutingCost :: float64
  ds_NetworkUsage :: "networkUsageEntry list"

datatype response_body =
    ErrorBody string
  | PaymentBody paymentResponse
  | PaymentListBody "paymentListItem list" "string option"
  | QuotesBody "quoteItem list"
  | StatsBody dashboardStats
  | TimeseriesBody string "timeseriesPoint list"
  | RouteBody bool "routeHop list" float64
  | NoBody

record http_response =
  hs_Status :: int
  hs_Location :: "string option"
  hs_Body :: response_body

definition writeJSON :: "int \<Rightarrow> response_body \<Rightarrow> http_response" where
  "writeJSON st b = \<lparr>hs_Status = st, hs_Location = None, hs_Body = b\<rparr>"

definition writeError :: "int \<Rightarrow> string \<Rightarrow> http_response" where
  "writeError st msg = writeJSON st (ErrorBody msg)"

definition hop_response :: "Hop \<Rightarrow> hopResponse" where
  "hop_response h = \<lparr>hp_HopIndex = h_HopIndex h, hp_FromChain = h_FromChain h, hp_ToChain = h_ToChain h,
     hp_BridgeName = h_BridgeName h, hp_Fee = h_Fee h, hp_LatencyMs = h_LatencyMs h, hp_Liquidity = h_Liquidity h,
     hp_Reliability = h_Reliability h\<rparr>"

definition toPaymentResponse :: "Payment \<Rightarrow> Execution option \<Rightarrow> paymentResponse" where
  "toPaymentResponse p exec = \<lparr>
     pp_ID = p_ID p, pp_SourceChain = p_SourceChain p, pp_DestinationChain = p_DestinationChain p,
     pp_Asset = p_Asset p, pp_Amount = p_Amount p, pp_Status = status_text (p_Status p), pp_TotalFee = p_TotalFee p,
     pp_Hops = map hop_response (p_Hops p), pp_ExecutionMode = p_ExecutionMode p, pp_BridgeProvider = p_BridgeProvider p,
     pp_FailureReason = p_FailureReason p,
     pp_ExternalTxHash = Option.bind exec x_SignedTxHash,
     pp_SubmittedAt = map_option FormatRFC3339Nano (Option.bind exec x_BroadcastAt),
     pp_CreatedAt = FormatRFC3339Nano (p_CreatedAt p), pp_UpdatedAt = FormatRFC3339Nano (p_UpdatedAt p),
     pp_CompletedAt = map_option FormatRFC3339Nano (p_CompletedAt p),
     pp_ProviderReferenceID = Option.bind exec x_ProviderReferenceID,
     pp_ExternalStatus = map_option (\<lambda>x. external_status_text (x_ExternalStatus x)) exec,
     pp_RawExternalStatus = Option.bind exec x_RawExternalStatus\<rparr>"

section \<open>payments.go: the request\<close>

abbreviation maxIdempotencyKeyLength :: nat where
  "maxIdempotencyKeyLength \<equiv> 255"

record createPaymentRequest =
  cr_SourceChain :: string
  cr_DestinationChain :: string
  cr_Asset :: string
  cr_Amount :: string
  cr_ExecutionMode :: string

definition dec_createPaymentRequest :: "createPaymentRequest decoder" where
  "dec_createPaymentRequest = dec_struct [
     (''source_chain'', fld cr_SourceChain cr_SourceChain_update dec_string),
     (''destination_chain'', fld cr_DestinationChain cr_DestinationChain_update dec_string),
     (''asset'', fld cr_Asset cr_Asset_update dec_string),
     (''amount'', fld cr_Amount cr_Amount_update dec_string),
     (''execution_mode'', fld cr_ExecutionMode cr_ExecutionMode_update dec_string)]"

definition create_request_zero :: createPaymentRequest where
  "create_request_zero = \<lparr>cr_SourceChain = '''', cr_DestinationChain = '''', cr_Asset = '''', cr_Amount = '''', cr_ExecutionMode = ''''\<rparr>"

text \<open>\<open>^\d{1,20}(\.\d{1,18})?$\<close>.\<close>

definition digits_between :: "nat \<Rightarrow> nat \<Rightarrow> string \<Rightarrow> bool" where
  "digits_between lo hi s \<longleftrightarrow> lo \<le> length s \<and> length s \<le> hi \<and> list_all is_digit s"

definition amountPattern :: "string \<Rightarrow> bool" where
  "amountPattern s =
    (case IndexByte s (CHR ''.'') of
       None \<Rightarrow> digits_between 1 20 s
     | Some i \<Rightarrow> digits_between 1 20 (take i s) \<and> digits_between 1 18 (drop (Suc i) s))"

definition isZeroAmount :: "string \<Rightarrow> bool" where
  "isZeroAmount amount = list_all (\<lambda>r. r = CHR ''0'' \<or> r = CHR ''.'') amount"

text \<open>The request after validation.\<close>

record valid_create =
  vc_key :: string
  vc_source :: Chain
  vc_dest :: Chain
  vc_asset :: Asset
  vc_assetKey :: string
  vc_amount :: string
  vc_mode :: ExecutionMode
  vc_amountForRouting :: float64

definition check_create :: "string \<Rightarrow> json option \<Rightarrow> http_response + valid_create" where
  "check_create header doc =
    (let key = TrimSpace header in
     if key = '''' then Inl (writeError 400 ''Idempotency-Key header is required'')
     else if length key > maxIdempotencyKeyLength then Inl (writeError 400 ''Idempotency-Key exceeds maximum length'')
     else case Option.bind doc (\<lambda>j. case dec_createPaymentRequest j create_request_zero of Inl _ \<Rightarrow> None | Inr r \<Rightarrow> Some r) of
       None \<Rightarrow> Inl (writeError 400 ''invalid JSON body'')
     | Some req \<Rightarrow>
        (case chainByName (lower_key (cr_SourceChain req)) of
           None \<Rightarrow> Inl (writeError 400 (''invalid chain: '' @ cr_SourceChain req))
         | Some sourceChain \<Rightarrow>
        (case chainByName (lower_key (cr_DestinationChain req)) of
           None \<Rightarrow> Inl (writeError 400 (''invalid chain: '' @ cr_DestinationChain req))
         | Some destChain \<Rightarrow>
        (case assetByName (lower_key (cr_Asset req)) of
           None \<Rightarrow> Inl (writeError 400 (''invalid asset: '' @ cr_Asset req))
         | Some asset \<Rightarrow>
             if \<not> amountPattern (cr_Amount req) \<or> isZeroAmount (cr_Amount req)
             then Inl (writeError 400 ''amount must be a positive decimal with at most 20 integer digits and 18 fractional digits'')
             else
               let mode = (if cr_ExecutionMode req \<noteq> '''' then cr_ExecutionMode req else ExecutionModeSimulated) in
               if mode \<noteq> ExecutionModeSimulated \<and> mode \<noteq> ExecutionModeTestnet
               then Inl (writeError 400 ''execution_mode must be \"simulated\" or \"testnet\"'')
               else if sourceChain = destChain then Inl (writeError 400 ''source and destination must differ'')
               else case ParseFloat (cr_Amount req) of
                 (_, False) \<Rightarrow> Inl (writeError 400 ''invalid amount'')
               | (amountForRouting, True) \<Rightarrow>
                   Inr \<lparr>vc_key = key, vc_source = sourceChain, vc_dest = destChain, vc_asset = asset,
                        vc_assetKey = lower_key (cr_Asset req), vc_amount = cr_Amount req, vc_mode = mode,
                        vc_amountForRouting = amountForRouting\<rparr>))))"

text \<open>
  The payment that is looked up, and later created with its route. The store writes ROUTED whatever
  status the candidate has, so the zero value of the status field is not modelled.
\<close>

definition lookup_candidate :: "valid_create \<Rightarrow> Payment" where
  "lookup_candidate v = \<lparr>
     p_ID = '''', p_IdempotencyKey = vc_key v, p_SourceChain = chainNameByValue (vc_source v),
     p_DestinationChain = chainNameByValue (vc_dest v), p_Asset = assetNameByValue (vc_asset v), p_Amount = vc_amount v,
     p_Status = ROUTED, p_TotalFee = 0, p_Hops = [], p_ExecutionMode = vc_mode v, p_BridgeProvider = None,
     p_FailureReason = None, p_Quotes = [], p_CreatedAt = zero_time, p_UpdatedAt = zero_time, p_CompletedAt = None\<rparr>"

definition existing_response :: "int \<Rightarrow> Payment \<Rightarrow> http_response" where
  "existing_response st p = \<lparr>hs_Status = st, hs_Location = Some (''/payments/'' @ p_ID p), hs_Body = PaymentBody (toPaymentResponse p None)\<rparr>"

definition conflict_response :: http_response where
  "conflict_response = writeError 409 ''Idempotency-Key already used with a different request''"

section \<open>payments.go: quotes\<close>

text \<open>The checks of a testnet request before any quote is asked for.\<close>

definition testnet_request :: "Handler \<Rightarrow> valid_create \<Rightarrow> http_response + (Request \<times> env Provider list)" where
  "testnet_request h v =
    (if hd_BlockchainEnv h \<noteq> ''testnet'' then Inl (writeError 400 ''execution_mode=testnet is not enabled on this server'')
     else case (testnetChainIDByChain (vc_source v), testnetChainIDByChain (vc_dest v), bridgedAssetSymbol (vc_assetKey v)) of
       (Some originChainID, Some destChainID, Some bridgedAsset) \<Rightarrow>
        (let routeKey = \<lparr>rk_SourceChainID = originChainID, rk_DestinationChainID = destChainID, rk_Asset = bridgedAsset\<rparr>;
             providers = (case hd_QuoteRegistry h of None \<Rightarrow> [] | Some r \<Rightarrow> ProvidersFor r routeKey) in
         if providers = []
         then Inl (writeError 400 ''execution_mode=testnet does not support this source_chain/destination_chain/asset combination'')
         else case DecimalToBaseUnits (vc_amount v) 18 of
           Inl err \<Rightarrow> Inl (writeError 400 ''invalid amount for testnet execution'')
         | Inr amountWei \<Rightarrow>
             if (case hd_MaxTestnetAmountWei h of None \<Rightarrow> False | Some mx \<Rightarrow> amountWei > mx)
             then Inl (writeError 400 ''amount exceeds the configured maximum testnet execution amount'')
             else Inr (\<lparr>rq_SourceChainID = originChainID, rq_DestinationChainID = destChainID, rq_Asset = bridgedAsset,
                         rq_AmountBaseUnits = amountWei\<rparr>, providers))
     | _ \<Rightarrow> Inl (writeError 400 ''execution_mode=testnet does not support this source_chain/destination_chain/asset combination''))"

definition fetch_quote :: "Request \<Rightarrow> env Provider \<Rightarrow> BQuote res pr" where
  "fetch_quote req p =
    (let label = SanitizeProviderLabel (pv_Name p) in
     bindp (Inc ''QuoteRequests'' [label]) (\<lambda>_.
     bindp (get_quote p req) (\<lambda>r.
     bindp (Observe ''QuoteDuration'' [label]) (\<lambda>_.
     bindp (case r of
              Inl _ \<Rightarrow> Inc ''QuoteFailures'' [label, ''http_error'']
            | Inr q \<Rightarrow> Inc ''QuoteAvailable'' [label, if b_Available q then ''true'' else ''false''])
       (\<lambda>_. Done r)))))"

definition fetch_quotes :: "Request \<Rightarrow> env Provider list \<Rightarrow> (string \<times> BQuote res) list pr" where
  "fetch_quotes req providers =
     foldp (\<lambda>p acc. bindp (fetch_quote req p) (\<lambda>r. Done (acc @ [(pv_Name p, r)]))) providers []"

text \<open>The loop over the results; a nil fee is a panic in \<open>BaseUnitsToDecimal\<close>.\<close>

record quote_summary =
  qs_anySucceeded :: bool
  qs_anyAvailable :: bool
  qs_edges :: "CandidateEdge list"
  qs_quotes :: "(string \<times> BQuote) list"

definition no_quotes :: quote_summary where
  "no_quotes = \<lparr>qs_anySucceeded = False, qs_anyAvailable = False, qs_edges = [], qs_quotes = []\<rparr>"

definition add_quote :: "float64 \<Rightarrow> quote_summary \<Rightarrow> string \<times> BQuote res \<Rightarrow> quote_summary res" where
  "add_quote amountForRouting s res =
    (case snd res of
       Inl err \<Rightarrow> Inr s
     | Inr q \<Rightarrow>
         let s' = s\<lparr>qs_anySucceeded := True\<rparr> in
         if \<not> b_Available q then Inr s'
         else case b_FeeBaseUnits q of
           None \<Rightarrow> Inl nil_panic
         | Some fee \<Rightarrow> Inr (s'\<lparr>qs_anyAvailable := True,
             qs_edges := qs_edges s @ [\<lparr>ce_BridgeName = fst res, ce_Fee = fst (ParseFloat (BaseUnitsToDecimal fee 18)),
               ce_LatencyMs = float_times (float_of_int (b_EstimatedFillTimeSec q)) 1000, ce_Liquidity = amountForRouting,
               ce_Reliability = float_of_int 1\<rparr>],
             qs_quotes := filter (\<lambda>(n, _). n \<noteq> fst res) (qs_quotes s) @ [(fst res, q)]\<rparr>))"

primrec collect_quotes :: "float64 \<Rightarrow> (string \<times> BQuote res) list \<Rightarrow> quote_summary \<Rightarrow> quote_summary res" where
  "collect_quotes a [] s = Inr s"
| "collect_quotes a (x # xs) s = (case add_quote a s x of Inl e \<Rightarrow> Inl e | Inr s' \<Rightarrow> collect_quotes a xs s')"

section \<open>payments.go: routing and creation\<close>

definition route_failure :: "grpc_code \<Rightarrow> string \<Rightarrow> string \<times> http_response" where
  "route_failure code msg =
    (case code of
       InvalidArgument \<Rightarrow> (''invalid_request'', writeError 400 msg)
     | Unavailable \<Rightarrow> (''grpc_error'', writeError 503 ''routing service unavailable'')
     | DeadlineExceeded \<Rightarrow> (''grpc_error'', writeError 504 ''routing service timed out'')
     | OtherCode \<Rightarrow> (''grpc_error'', writeError 500 ''internal error''))"

definition hop_of :: "nat \<times> RouteHop \<Rightarrow> Hop" where
  "hop_of ih = (case ih of (i, hop) \<Rightarrow>
     \<lparr>h_HopIndex = int i, h_FromChain = chainNameByValue (rh_FromChain hop), h_ToChain = chainNameByValue (rh_ToChain hop),
      h_BridgeName = rh_BridgeName hop, h_Fee = rh_Fee hop, h_LatencyMs = rh_LatencyMs hop, h_Liquidity = rh_Liquidity hop,
      h_Reliability = rh_Reliability hop\<rparr>)"

text \<open>\<open>(*big.Int)(nil).String()\<close> is \<open><nil>\<close>.\<close>

definition big_text :: "int option \<Rightarrow> string" where
  "big_text n = (case n of None \<Rightarrow> ''<nil>'' | Some k \<Rightarrow> Int_String k)"

definition stored_quote :: "string \<Rightarrow> string \<times> BQuote \<Rightarrow> Quote" where
  "stored_quote winner nq = (case nq of (bridgeName, q) \<Rightarrow>
     \<lparr>q_ID = '''', q_PaymentID = '''', q_Provider = b_ProviderName q, q_OriginChainID = b_SourceChainID q,
      q_DestinationChainID = b_DestinationChainID q, q_Asset = b_Asset q, q_InputAmount = big_text (b_InputAmountBaseUnits q),
      q_OutputAmount = big_text (b_OutputAmountBaseUnits q), q_FeeAmount = big_text (b_FeeBaseUnits q),
      q_EstimatedFillTimeSec = b_EstimatedFillTimeSec q, q_QuotedAt = b_QuotedAt q, q_ExpiresAt = b_ExpiresAt q,
      q_RawProviderPayload = (case b_RawProviderPayload q of None \<Rightarrow> JNull | Some j \<Rightarrow> j),
      q_Selected = (bridgeName = winner), q_CreatedAt = zero_time\<rparr>)"

definition create_payment :: "valid_create \<Rightarrow> Payment \<Rightarrow> http_response res pr" where
  "create_payment v candidate =
    tryp (CreateOrGetPayment candidate) (\<lambda>err. Done (Inr (writeError 500 ''internal error'')))
      (\<lambda>(result, outcome).
        case (outcome, result) of
          (Created, Some p) \<Rightarrow> bindp (Inc ''PaymentsCreated'' [vc_mode v]) (\<lambda>_. Done (Inr (existing_response 201 p)))
        | (Replayed, Some p) \<Rightarrow> Done (Inr (existing_response 200 p))
        | _ \<Rightarrow> Done (Inr conflict_response))"

definition create_routed :: "valid_create \<Rightarrow> (string \<times> BQuote) list \<Rightarrow> FindRouteResponse \<Rightarrow> http_response res pr" where
  "create_routed v quotes resp =
    (let hops = map hop_of (enumerate 0 (fs_Hops resp));
         candidate = (lookup_candidate v)\<lparr>p_TotalFee := fs_TotalFee resp, p_Hops := hops\<rparr>
     in if vc_mode v = ExecutionModeTestnet \<and> hops \<noteq> [] then
          (let winner = h_BridgeName (hops ! 0) in
           case map_of quotes winner of
             None \<Rightarrow> Done (Inr (writeError 500 ''internal error''))
           | Some winningQuote \<Rightarrow>
              (let provider = b_ProviderName winningQuote; label = SanitizeProviderLabel provider in
               bindp (Inc ''RoutingSelectedProvider'' [label]) (\<lambda>_.
               bindp (Inc ''QuoteSelected'' [label]) (\<lambda>_.
               bindp (Observe ''RoutingSelectedFee'' [label]) (\<lambda>_.
               bindp (ask_env e_order) (\<lambda>order.
                 create_payment v (candidate\<lparr>p_BridgeProvider := Some provider,
                   p_Quotes := map (stored_quote winner) (shuffle order quotes)\<rparr>)))))))
        else create_payment v candidate)"

definition route_and_create :: "valid_create \<Rightarrow> CandidateEdge list \<Rightarrow> (string \<times> BQuote) list \<Rightarrow> http_response res pr" where
  "route_and_create v edges quotes =
    (let req = \<lparr>fr_SourceChain = vc_source v, fr_DestinationChain = vc_dest v, fr_Asset = vc_asset v,
                fr_Amount = vc_amountForRouting v, fr_CandidateEdges = edges\<rparr> in
     bindp (Inc ''RoutingRequests'' [vc_mode v]) (\<lambda>_.
     bindp (call_out (\<lambda>i. e_route i req) (EvRoute req)) (\<lambda>r.
     bindp (Observe ''RoutingDuration'' [vc_mode v]) (\<lambda>_.
     case r of
       Inl (code, msg) \<Rightarrow> bindp (Inc ''RoutingFailures'' [fst (route_failure code msg)]) (\<lambda>_. Done (Inr (snd (route_failure code msg))))
     | Inr resp \<Rightarrow>
         if \<not> fs_RouteFound resp
         then bindp (Inc ''RoutingFailures'' [''no_route'']) (\<lambda>_. Done (Inr (writeError 422 ''no route available for the requested payment'')))
         else create_routed v quotes resp))))"

definition PostPayments :: "Handler \<Rightarrow> string \<Rightarrow> json option \<Rightarrow> http_response res pr" where
  "PostPayments h header doc =
    (case check_create header doc of
       Inl resp \<Rightarrow> Done (Inr resp)
     | Inr v \<Rightarrow>
         tryp (LookupByIdempotencyKey (lookup_candidate v)) (\<lambda>err. Done (Inr (writeError 500 ''internal error'')))
           (\<lambda>found. case found of
              Some (existing, outcome) \<Rightarrow>
               (case (outcome, existing) of
                  (Replayed, Some p) \<Rightarrow> Done (Inr (existing_response 200 p))
                | _ \<Rightarrow> Done (Inr conflict_response))
            | None \<Rightarrow>
                if vc_mode v = ExecutionModeTestnet then
                 (case testnet_request h v of
                    Inl resp \<Rightarrow> Done (Inr resp)
                  | Inr (req, providers) \<Rightarrow>
                      bindp (fetch_quotes req providers) (\<lambda>results.
                      case collect_quotes (vc_amountForRouting v) results no_quotes of
                        Inl err \<Rightarrow> Done (Inl err)
                      | Inr s \<Rightarrow>
                          if \<not> qs_anySucceeded s then Done (Inr (writeError 503 ''bridge quote providers unavailable''))
                          else if \<not> qs_anyAvailable s then Done (Inr (writeError 422 ''no route available for the requested payment''))
                          else route_and_create v (qs_edges s) (qs_quotes s)))
                else route_and_create v [] []))"

definition Handler_GetPayment :: "string \<Rightarrow> http_response pr" where
  "Handler_GetPayment pid =
    tryp (GetPayment pid) (\<lambda>err. Done (writeError 500 ''internal error''))
      (\<lambda>found. case found of
         None \<Rightarrow> Done (writeError 404 ''payment not found'')
       | Some p \<Rightarrow>
           tryp (GetExecutionByPaymentID pid) (\<lambda>err. Done (writeError 500 ''internal error''))
             (\<lambda>exec. Done (writeJSON 200 (PaymentBody (toPaymentResponse p exec)))))"

section \<open>routes.go: PostRoutes\<close>

record findRouteRequest =
  rr_SourceChain :: string
  rr_DestinationChain :: string
  rr_Asset :: string
  rr_Amount :: float64

text \<open>A number literal into a \<open>float64\<close> field; one that overflows is an error.\<close>

fun dec_float64 :: "float64 decoder" where
  "dec_float64 (JNum lit) z = (case ParseFloat lit of (f, True) \<Rightarrow> Inr f | (_, False) \<Rightarrow> Inl type_error)"
| "dec_float64 JNull z = Inr z"
| "dec_float64 _ z = Inl type_error"

definition dec_findRouteRequest :: "findRouteRequest decoder" where
  "dec_findRouteRequest = dec_struct [
     (''source_chain'', fld rr_SourceChain rr_SourceChain_update dec_string),
     (''destination_chain'', fld rr_DestinationChain rr_DestinationChain_update dec_string),
     (''asset'', fld rr_Asset rr_Asset_update dec_string),
     (''amount'', fld rr_Amount rr_Amount_update dec_float64)]"

definition check_route :: "json option \<Rightarrow> http_response + FindRouteRequest" where
  "check_route doc =
    (case Option.bind doc (\<lambda>j. case dec_findRouteRequest j \<lparr>rr_SourceChain = '''', rr_DestinationChain = '''', rr_Asset = '''', rr_Amount = 0\<rparr> of
            Inl _ \<Rightarrow> None | Inr r \<Rightarrow> Some r) of
       None \<Rightarrow> Inl (writeError 400 ''invalid JSON body'')
     | Some req \<Rightarrow>
        (case chainByName (lower_key (rr_SourceChain req)) of
           None \<Rightarrow> Inl (writeError 400 (''invalid chain: '' @ rr_SourceChain req))
         | Some sourceChain \<Rightarrow>
        (case chainByName (lower_key (rr_DestinationChain req)) of
           None \<Rightarrow> Inl (writeError 400 (''invalid chain: '' @ rr_DestinationChain req))
         | Some destChain \<Rightarrow>
        (case assetByName (lower_key (rr_Asset req)) of
           None \<Rightarrow> Inl (writeError 400 (''invalid asset: '' @ rr_Asset req))
         | Some asset \<Rightarrow>
             if float_le_zero (rr_Amount req) then Inl (writeError 400 ''amount must be positive'')
             else if sourceChain = destChain then Inl (writeError 400 ''source and destination must differ'')
             else Inr \<lparr>fr_SourceChain = sourceChain, fr_DestinationChain = destChain, fr_Asset = asset,
                       fr_Amount = rr_Amount req, fr_CandidateEdges = []\<rparr>))))"

definition route_hop :: "RouteHop \<Rightarrow> routeHop" where
  "route_hop hop = \<lparr>ro_FromChain = chainNameByValue (rh_FromChain hop), ro_ToChain = chainNameByValue (rh_ToChain hop),
     ro_BridgeName = rh_BridgeName hop, ro_Fee = rh_Fee hop, ro_LatencyMs = rh_LatencyMs hop, ro_Liquidity = rh_Liquidity hop,
     ro_Reliability = rh_Reliability hop\<rparr>"

definition PostRoutes :: "json option \<Rightarrow> http_response pr" where
  "PostRoutes doc =
    (case check_route doc of
       Inl resp \<Rightarrow> Done resp
     | Inr req \<Rightarrow>
         bindp (call_out (\<lambda>i. e_route i req) (EvRoute req)) (\<lambda>r.
         case r of
           Inl (code, msg) \<Rightarrow> Done (snd (route_failure code msg))
         | Inr resp \<Rightarrow> Done (writeJSON 200 (RouteBody (fs_RouteFound resp) (map route_hop (fs_Hops resp)) (fs_TotalFee resp)))))"

section \<open>dashboard.go\<close>

text \<open>\<open>q\<close> is \<open>r.URL.Query().Get\<close>: an absent parameter is empty.\<close>

definition isValidStatus :: "string \<Rightarrow> bool" where
  "isValidStatus s \<longleftrightarrow> s \<in> {''ROUTED'', ''PROCESSING'', ''SUBMITTED'', ''COMPLETED'', ''FAILED''}"

definition optional_param :: "string \<Rightarrow> string option" where
  "optional_param s = (if s = '''' then None else Some s)"

text \<open>A positive \<open>strconv.Atoi\<close> with a default and a maximum.\<close>

definition bounded_param :: "string \<Rightarrow> int \<Rightarrow> int \<Rightarrow> int option" where
  "bounded_param raw def mx =
    (if raw = '''' then Some def
     else case ParseInt64 raw of
       None \<Rightarrow> None
     | Some n \<Rightarrow> if n < 1 then None else Some (min n mx))"

abbreviation defaultListLimit :: int where
  "defaultListLimit \<equiv> 25"

abbreviation maxListLimit :: int where
  "maxListLimit \<equiv> 100"

definition list_filter :: "(string \<Rightarrow> string) \<Rightarrow> http_response + ListFilter" where
  "list_filter q =
    (case bounded_param (q ''limit'') defaultListLimit maxListLimit of
       None \<Rightarrow> Inl (writeError 400 ''limit must be a positive integer'')
     | Some limit \<Rightarrow>
         if q ''status'' \<noteq> '''' \<and> \<not> isValidStatus (q ''status'') then Inl (writeError 400 (''invalid status: '' @ q ''status''))
         else if q ''execution_mode'' \<noteq> '''' \<and> q ''execution_mode'' \<noteq> ExecutionModeSimulated \<and> q ''execution_mode'' \<noteq> ExecutionModeTestnet
         then Inl (writeError 400 ''execution_mode must be \"simulated\" or \"testnet\"'')
         else Inr \<lparr>f_Limit = limit, f_Cursor = q ''cursor'', f_Status = optional_param (q ''status''),
                   f_Provider = optional_param (q ''provider''), f_SourceChain = optional_param (q ''source_chain''),
                   f_DestinationChain = optional_param (q ''destination_chain''),
                   f_ExecutionMode = optional_param (q ''execution_mode'')\<rparr>)"

definition list_item :: "Payment \<Rightarrow> paymentListItem" where
  "list_item p = \<lparr>li_ID = p_ID p, li_SourceChain = p_SourceChain p, li_DestinationChain = p_DestinationChain p,
     li_Asset = p_Asset p, li_Amount = p_Amount p, li_Status = status_text (p_Status p), li_ExecutionMode = p_ExecutionMode p,
     li_BridgeProvider = p_BridgeProvider p, li_TotalFee = p_TotalFee p, li_CreatedAt = FormatRFC3339Nano (p_CreatedAt p)\<rparr>"

definition Handler_ListPayments :: "Handler \<Rightarrow> (string \<Rightarrow> string) \<Rightarrow> http_response pr" where
  "Handler_ListPayments h q =
    (case list_filter q of
       Inl resp \<Rightarrow> Done resp
     | Inr f \<Rightarrow>
         tryp (ListPayments (hd_Pg h) f)
           (\<lambda>err. Done (if err_is err ErrInvalidCursor then writeError 400 ''invalid cursor'' else writeError 500 ''internal error''))
           (\<lambda>(payments, nextCursor). Done (writeJSON 200 (PaymentListBody (map list_item payments) (optional_param nextCursor)))))"

definition quote_item :: "Quote \<Rightarrow> quoteItem" where
  "quote_item q = \<lparr>qi_Provider = q_Provider q, qi_InputAmount = q_InputAmount q, qi_OutputAmount = q_OutputAmount q,
     qi_FeeAmount = q_FeeAmount q, qi_EstimatedFillTimeSec = q_EstimatedFillTimeSec q, qi_Selected = q_Selected q,
     qi_QuotedAt = FormatRFC3339Nano (q_QuotedAt q)\<rparr>"

definition GetPaymentQuotes :: "string \<Rightarrow> http_response pr" where
  "GetPaymentQuotes pid =
    tryp (GetPayment pid) (\<lambda>err. Done (writeError 500 ''internal error''))
      (\<lambda>found. case found of
         None \<Rightarrow> Done (writeError 404 ''payment not found'')
       | Some _ \<Rightarrow>
           tryp (GetQuotesByPaymentID pid) (\<lambda>err. Done (writeError 500 ''internal error''))
             (\<lambda>quotes. Done (writeJSON 200 (QuotesBody (map quote_item quotes)))))"

definition toDashboardStatsResponse :: "DashboardStats \<Rightarrow> dashboardStats" where
  "toDashboardStatsResponse s = \<lparr>
     ds_TotalPayments = d_TotalPayments s, ds_CompletedPayments = d_CompletedPayments s,
     ds_ProcessingPayments = d_ProcessingPayments s, ds_FailedPayments = d_FailedPayments s,
     ds_ProviderUsage = d_ProviderUsage s, ds_AverageRoutingCost = d_AverageRoutingCost s,
     ds_NetworkUsage = map (\<lambda>entry. \<lparr>ne_SourceChain = n_SourceChain entry, ne_DestinationChain = n_DestinationChain entry,
       ne_Count = n_Count entry\<rparr>) (d_NetworkUsage s)\<rparr>"

definition Handler_GetDashboardStats :: "Handler \<Rightarrow> http_response pr" where
  "Handler_GetDashboardStats h =
    tryp (GetDashboardStats (hd_Pg h)) (\<lambda>err. Done (writeError 500 ''internal error''))
      (\<lambda>stats. Done (writeJSON 200 (StatsBody (toDashboardStatsResponse stats))))"

definition validTimeseriesMetrics :: "string list" where
  "validTimeseriesMetrics = [''volume'', ''routing_cost'']"

definition validTimeseriesIntervals :: "string list" where
  "validTimeseriesIntervals = [''hour'', ''day'']"

abbreviation defaultTimeseriesDays :: int where
  "defaultTimeseriesDays \<equiv> 30"

abbreviation maxTimeseriesDays :: int where
  "maxTimeseriesDays \<equiv> 90"

definition GetDashboardTimeseries :: "Handler \<Rightarrow> (string \<Rightarrow> string) \<Rightarrow> http_response pr" where
  "GetDashboardTimeseries h q =
    (let metric = (if q ''metric'' = '''' then ''volume'' else q ''metric'');
         interval = (if q ''interval'' = '''' then ''day'' else q ''interval'') in
     if metric \<notin> set validTimeseriesMetrics then Done (writeError 400 ''metric must be \"volume\" or \"routing_cost\"'')
     else if interval \<notin> set validTimeseriesIntervals then Done (writeError 400 ''interval must be \"hour\" or \"day\"'')
     else case bounded_param (q ''days'') defaultTimeseriesDays maxTimeseriesDays of
       None \<Rightarrow> Done (writeError 400 ''days must be a positive integer'')
     | Some days \<Rightarrow>
         tryp (GetTimeseries (hd_Pg h) metric interval days) (\<lambda>err. Done (writeError 500 ''internal error''))
           (\<lambda>points. Done (writeJSON 200 (TimeseriesBody metric
              (map (\<lambda>p. \<lparr>ti_Bucket = FormatRFC3339 (t_Bucket p), ti_Value = t_Value p, ti_Count = t_Count p\<rparr>) points)))))"

section \<open>cors.go\<close>

text \<open>The middleware sets its headers and passes a request on, unless it is a preflight.\<close>

definition cors_headers :: "string list \<Rightarrow> string \<Rightarrow> (string \<times> string) list" where
  "cors_headers allowedOrigins origin =
    (''Vary'', ''Origin'') #
      (if origin \<noteq> '''' \<and> origin \<in> TrimSpace ` set allowedOrigins
       then [(''Access-Control-Allow-Origin'', origin), (''Access-Control-Allow-Methods'', ''GET, POST, OPTIONS''),
             (''Access-Control-Allow-Headers'', ''Content-Type, Idempotency-Key'')]
       else [])"

definition CORS :: "string list \<Rightarrow> string \<Rightarrow> string \<Rightarrow> http_response res pr \<Rightarrow> ((string \<times> string) list \<times> http_response res) pr" where
  "CORS allowedOrigins origin method next =
    (if method = ''OPTIONS'' then Done (cors_headers allowedOrigins origin, Inr (writeJSON 204 NoBody))
     else bindp next (\<lambda>resp. Done (cors_headers allowedOrigins origin, resp)))"

end
