(* ===== verification/Api_Guarantees.thy ===== *)
theory Api_Guarantees
  imports Guarantees Handler
begin

text \<open>
  The rely-guarantee triples of the HTTP handlers: each keeps the system invariant and lets the world
  only evolve, whatever the requests, the routing service and the other processes do.
\<close>

lemmas api_calls = life.safe_then life.safe_try_any life.safe_calls safe_wrapp_any safe_query_any

lemma safe_route_call: "keeps e (call_out (\<lambda>i. e_route i req) (EvRoute req)) (\<lambda>_ _. True) w"
  by (rule life.safe_any [OF safe_silent_call]) (simp_all add: event_ok_def)

lemma safe_fetch_quotes:
  assumes "sys_inv e w"
  shows "keeps e (fetch_quotes req ps) (\<lambda>_ _. True) w"
  unfolding fetch_quotes_def fetch_quote_def Let_def
  by (rule life.safe_foldp)
     (auto intro!: api_calls life.safe_any [OF safe_get_quote] assms split: sum.splits)

lemma safe_create_payment:
  assumes "sys_inv e w"
  shows "keeps e (create_payment v c) (\<lambda>_ _. True) w"
  unfolding create_payment_def
  by (auto intro!: api_calls safe_CreateOrGetPayment assms split: CreateResult.splits option.splits)

lemma safe_create_routed:
  assumes "sys_inv e w"
  shows "keeps e (create_routed v quotes resp) (\<lambda>_ _. True) w"
  unfolding create_routed_def Let_def
  by (auto intro!: api_calls safe_create_payment assms split: option.splits)

lemma safe_route_and_create:
  assumes "sys_inv e w"
  shows "keeps e (route_and_create v edges quotes) (\<lambda>_ _. True) w"
  unfolding route_and_create_def Let_def
  by (auto intro!: api_calls safe_route_call safe_create_routed assms split: sum.splits)

lemma safe_PostPayments:
  assumes "sys_inv e w"
  shows "keeps e (PostPayments h header doc) (\<lambda>_ _. True) w"
  unfolding PostPayments_def
  by (auto intro!: api_calls safe_LookupByIdempotencyKey safe_fetch_quotes safe_route_and_create assms
        split: sum.splits option.splits CreateResult.splits)

lemma safe_Handler_GetPayment:
  assumes "sys_inv e w"
  shows "keeps e (Handler_GetPayment pid) (\<lambda>_ _. True) w"
  unfolding Handler_GetPayment_def GetExecutionByPaymentID_def
  by (auto intro!: api_calls life.safe_any [OF safe_GetPayment] assms split: option.splits)

lemma safe_GetPaymentQuotes:
  assumes "sys_inv e w"
  shows "keeps e (GetPaymentQuotes pid) (\<lambda>_ _. True) w"
  unfolding GetPaymentQuotes_def GetQuotesByPaymentID_def
  by (auto intro!: api_calls life.safe_any [OF safe_GetPayment] assms split: option.splits)

lemma safe_Handler_ListPayments:
  assumes "sys_inv e w"
  shows "keeps e (Handler_ListPayments h q) (\<lambda>_ _. True) w"
  unfolding Handler_ListPayments_def ListPayments_def
  by (auto intro!: api_calls assms split: sum.splits)

lemma safe_Handler_GetDashboardStats:
  assumes "sys_inv e w"
  shows "keeps e (Handler_GetDashboardStats h) (\<lambda>_ _. True) w"
  unfolding Handler_GetDashboardStats_def GetDashboardStats_def
  by (auto intro!: api_calls assms)

lemma safe_GetDashboardTimeseries:
  assumes "sys_inv e w"
  shows "keeps e (GetDashboardTimeseries h q) (\<lambda>_ _. True) w"
  unfolding GetDashboardTimeseries_def GetTimeseries_def Let_def
  by (auto intro!: api_calls assms split: option.splits)

lemma safe_PostRoutes:
  assumes "sys_inv e w"
  shows "keeps e (PostRoutes doc) (\<lambda>_ _. True) w"
  unfolding PostRoutes_def
  by (auto intro!: api_calls safe_route_call assms split: sum.splits)

end
