(* ===== verification/Loops.thy ===== *)
theory Loops
  imports Guarantees
begin

text \<open>
  The endless loops of the worker: \<open>Run\<close> of the publisher, of the recovery sweep and of the reconciler, and
  \<open>runConsumeLoop\<close> of \<open>cmd/worker/main.go\<close>. A loop is given the number of turns it makes; every finite
  part of an endless run is one of these. \<open>ctx_done i\<close> is whether the context is done when the loop
  looks at it, and a \<open>select\<close> takes the branch the answer chooses.

  Kafka and its client library are outside: \<open>Kafka\<close> is what they answer. A message carries its
  partition, its offset and its decoded value (\<open>None\<close> when the bytes are not a routed-payment event). The loop
  relies on \<open>kafka_ok\<close>: the value of a fetched message was published before.
\<close>

section \<open>The loops\<close>

text \<open>\<open>time.NewTicker\<close> panics on an interval that is not positive.\<close>

definition NewTicker :: "int \<Rightarrow> unit res" where
  "NewTicker d = (if d \<le> 0 then Inl (Err ''non-positive interval for NewTicker'') else Inr ())"

primrec Publisher_Run :: "(env \<Rightarrow> bool) \<Rightarrow> nat \<Rightarrow> unit pr" where
  "Publisher_Run ctx_done 0 = Done ()"
| "Publisher_Run ctx_done (Suc n) =
    bindp (ask_env ctx_done) (\<lambda>stop.
    if stop then Done ()
    else bindp PollOnce (\<lambda>r.
      if r = Inr True then Publisher_Run ctx_done n
      else bindp (ask_env ctx_done) (\<lambda>stop. if stop then Done () else Publisher_Run ctx_done n)))"

primrec recovery_turns :: "(env \<Rightarrow> bool) \<Rightarrow> time \<Rightarrow> nat \<Rightarrow> unit pr" where
  "recovery_turns ctx_done staleness 0 = Done ()"
| "recovery_turns ctx_done staleness (Suc n) =
    bindp (ask_env ctx_done) (\<lambda>stop.
    if stop then Done ()
    else bindp (Recovery_SweepOnce staleness) (\<lambda>_. recovery_turns ctx_done staleness n))"

definition Recovery_Run :: "(env \<Rightarrow> bool) \<Rightarrow> time \<Rightarrow> int \<Rightarrow> nat \<Rightarrow> unit res pr" where
  "Recovery_Run ctx_done staleness interval n =
    tryp (Done (NewTicker interval)) (\<lambda>err. Done (Inl err))
      (\<lambda>_. bindp (recovery_turns ctx_done staleness n) (\<lambda>_. Done (Inr ())))"

text \<open>The three branches of the reconciler's \<open>select\<close>.\<close>

datatype turn = CtxDone | SweepTick | DivergenceTick

primrec reconciler_turns :: "(env \<Rightarrow> turn) \<Rightarrow> Reconciler \<Rightarrow> nat \<Rightarrow> unit pr" where
  "reconciler_turns pick r 0 = Done ()"
| "reconciler_turns pick r (Suc n) =
    bindp (ask_env pick) (\<lambda>t. case t of
      CtxDone \<Rightarrow> Done ()
    | SweepTick \<Rightarrow> bindp (Reconciler_SweepOnce r) (\<lambda>_. reconciler_turns pick r n)
    | DivergenceTick \<Rightarrow> bindp (checkNonceDivergence r) (\<lambda>_. reconciler_turns pick r n))"

definition Reconciler_Run :: "(env \<Rightarrow> turn) \<Rightarrow> Reconciler \<Rightarrow> int \<Rightarrow> int \<Rightarrow> nat \<Rightarrow> unit res pr" where
  "Reconciler_Run pick r sweepInterval divergenceInterval n =
    tryp (Done (NewTicker sweepInterval)) (\<lambda>err. Done (Inl err)) (\<lambda>_.
    tryp (Done (NewTicker divergenceInterval)) (\<lambda>err. Done (Inl err)) (\<lambda>_.
    bindp (reconciler_turns pick r n) (\<lambda>_. Done (Inr ()))))"

record kmessage =
  km_Partition :: nat
  km_Offset :: nat
  km_Value :: "RoutedPayment option"

record Kafka =
  k_FetchMessage :: "env \<Rightarrow> world \<Rightarrow> kmessage res"
  k_CommitMessages :: "env \<Rightarrow> kmessage \<Rightarrow> unit res"

definition FetchMessage :: "Kafka \<Rightarrow> kmessage res pr" where
  "FetchMessage k = Ask (\<lambda>i w. w) (\<lambda>i w. Done (k_FetchMessage k i w))"

definition CommitMessages :: "Kafka \<Rightarrow> kmessage \<Rightarrow> unit res pr" where
  "CommitMessages k msg = ask_env (\<lambda>i. k_CommitMessages k i msg)"

text \<open>The result is the list of the messages whose offset was committed, in order.\<close>

primrec runConsumeLoop :: "Kafka \<Rightarrow> (env \<Rightarrow> bool) \<Rightarrow> Processor \<Rightarrow> nat \<Rightarrow> kmessage list \<Rightarrow> kmessage list pr" where
  "runConsumeLoop k ctx_done p 0 committed = Done committed"
| "runConsumeLoop k ctx_done p (Suc n) committed =
    tryp (FetchMessage k)
      (\<lambda>err. bindp (ask_env ctx_done) (\<lambda>stop.
         if stop then Done committed
         else bindp (ask_env ctx_done) (\<lambda>stop.
           if stop then Done committed else runConsumeLoop k ctx_done p n committed)))
      (\<lambda>msg. bindp (consume_message p (km_Value msg)) (\<lambda>commit.
         if \<not> commit then runConsumeLoop k ctx_done p n committed
         else bindp (CommitMessages k msg) (\<lambda>r.
           runConsumeLoop k ctx_done p n (case r of Inl _ \<Rightarrow> committed | Inr _ \<Rightarrow> committed @ [msg]))))"

definition kafka_ok :: "Kafka \<Rightarrow> bool" where
  "kafka_ok k \<longleftrightarrow> (\<forall>i w msg evt. k_FetchMessage k i w = Inr msg \<and> km_Value msg = Some evt \<longrightarrow>
     (\<exists>pid r. EvPublish pid evt r \<in> set (w_trace w)))"

section \<open>The loops keep the invariant\<close>

text \<open>A published event carries the canonical identifier of its payment.\<close>

lemma published_canonical:
  assumes inv: "sys_inv e w" and ev: "EvPublish pid evt r \<in> set (w_trace w)"
  shows "uuid_in (ev_PaymentID evt) = Some (ev_PaymentID evt)"
proof -
  from inv ev have "event_ok e w (EvPublish pid evt r)" unfolding sys_inv_def by blast
  then obtain x where x: "x \<in> set (db_outbox (w_db w))" "ob_payload x = evt" by (auto simp: event_ok_def)
  with inv have "ev_PaymentID evt = ob_payment_id x" by (auto simp: sys_inv_def out_ok_def)
  moreover have "ob_payment_id x \<in> set (map pr_id (db_payments (w_db w)))"
    using keys_okD [OF inv] x(1) unfolding keys_ok_def by (metis image_eqI set_map)
  ultimately show ?thesis using uuid_in_idem [OF inv] by auto
qed

lemma safe_FetchMessage:
  assumes "kafka_ok k" "sys_inv e w"
  shows "keeps e (FetchMessage k)
    (\<lambda>r w. \<forall>msg evt. r = Inr msg \<longrightarrow> km_Value msg = Some evt \<longrightarrow> uuid_in (ev_PaymentID evt) = Some (ev_PaymentID evt)) w"
  unfolding FetchMessage_def
proof (rule life.safe_Ask, intro conjI)
  fix w' i assume w': "evolves w w'" "sys_inv e w'"
  show "sys_inv e w'" "evolves w' w'" using w'(2) by simp_all
  show "keeps e (Done (k_FetchMessage k i w')) (\<lambda>r w. \<forall>msg evt. r = Inr msg \<longrightarrow> km_Value msg = Some evt \<longrightarrow>
      uuid_in (ev_PaymentID evt) = Some (ev_PaymentID evt)) w'"
    using assms(1) published_canonical [OF w'(2)] unfolding kafka_ok_def by (auto intro!: life.safe_Done) blast
qed

lemma safe_runConsumeLoop:
  assumes "executor_ok e" "kafka_ok k" "po_Executor p = None \<or> po_Executor p = Some e"
  shows "sys_inv e w \<Longrightarrow> keeps e (runConsumeLoop k ctx_done p n committed) (\<lambda>_ _. True) w"
proof (induction n arbitrary: committed w)
  case (Suc n)
  show ?case unfolding runConsumeLoop.simps
    by (rule life.safe_tryp [OF safe_FetchMessage [OF assms(2) Suc.prems] Suc.prems])
       (auto intro!: life.safe_then life.safe_ask_env safe_consume_message Suc.IH assms simp: CommitMessages_def)
qed simp

lemma safe_Publisher_Run: "sys_inv e w \<Longrightarrow> keeps e (Publisher_Run ctx_done n) (\<lambda>_ _. True) w"
  by (induction n arbitrary: w) (auto intro!: life.safe_then life.safe_ask_env safe_PollOnce)

lemma safe_recovery_turns: "sys_inv e w \<Longrightarrow> keeps e (recovery_turns ctx_done st n) (\<lambda>_ _. True) w"
  by (induction n arbitrary: w) (auto intro!: life.safe_then life.safe_ask_env safe_Recovery_SweepOnce)

lemma safe_Recovery_Run: "sys_inv e w \<Longrightarrow> keeps e (Recovery_Run ctx_done st d n) (\<lambda>_ _. True) w"
  unfolding Recovery_Run_def by (auto intro!: life.safe_try_any life.safe_then safe_recovery_turns)

lemma safe_reconciler_turns:
  assumes "executor_ok (rc_Executor r)"
  shows "sys_inv (rc_Executor r) w \<Longrightarrow> keeps (rc_Executor r) (reconciler_turns pick r n) (\<lambda>_ _. True) w"
  using assms
  by (induction n arbitrary: w)
     (auto intro!: life.safe_then life.safe_ask_env safe_Reconciler_SweepOnce safe_checkNonceDivergence split: turn.split)

lemma safe_Reconciler_Run:
  assumes "executor_ok (rc_Executor r)" "sys_inv (rc_Executor r) w"
  shows "keeps (rc_Executor r) (voidp (Reconciler_Run pick r d d' n)) (\<lambda>_ _. True) w"
  unfolding Reconciler_Run_def using assms
  by (auto intro!: life.safe_voidp [OF assms(2)] life.safe_try_any life.safe_then safe_reconciler_turns)

end
