(* ===== verification/System.thy ===== *)
theory System
  imports Api_Guarantees Loops
begin

text \<open>
  The whole system: API requests, publishers, consumers, recovery sweeps, reconcilers and worker
  starts of any number of processes, interleaved call by call, with crashes at any point, database
  faults, lost replies and arbitrary answers of the remote services. The properties hold in every
  reachable state of it, for every executor configuration whose library functions and quote
  providers meet \<open>executor_ok\<close>.
\<close>

text \<open>
  The processes that are started: the store calls of an API server on their own, with any argument,
  and the HTTP handlers that compose them; the bodies of the workers' loops on their own, and the loops.
  A message handed to a consumer on its own carries a canonical payment identifier, as the events of the outbox do
  (\<open>event_ok\<close>); the consume loop fetches its messages from Kafka.
\<close>

inductive entry :: "Executor \<Rightarrow> unit pr \<Rightarrow> bool" for e where
  create: "entry e (voidp (CreateOrGetPayment p))"
| lookup: "entry e (voidp (LookupByIdempotencyKey p))"
| get: "entry e (voidp (GetPayment pid))"
| post_payments: "entry e (voidp (PostPayments h header doc))"
| get_payment: "entry e (voidp (Handler_GetPayment pid))"
| payment_quotes: "entry e (voidp (GetPaymentQuotes pid))"
| list_payments: "entry e (voidp (Handler_ListPayments h q))"
| dashboard_stats: "entry e (voidp (Handler_GetDashboardStats h))"
| dashboard_timeseries: "entry e (voidp (GetDashboardTimeseries h q))"
| post_routes: "entry e (voidp (PostRoutes doc))"
| poll: "entry e (voidp PollOnce)"
| consume: "po_Executor po = None \<or> po_Executor po = Some e \<Longrightarrow>
    (\<And>evt. msg = Some evt \<Longrightarrow> uuid_in (ev_PaymentID evt) = Some (ev_PaymentID evt)) \<Longrightarrow>
    entry e (voidp (consume_message po msg))"
| recover: "entry e (voidp (Recovery_SweepOnce st))"
| reconcile: "rc_Executor r = e \<Longrightarrow> entry e (Reconciler_SweepOnce r)"
| divergence: "entry e (voidp (checkNonceDivergence r))"
| seed: "entry e (voidp (seed_wallet e))"
| publisher_loop: "entry e (Publisher_Run ctx_done n)"
| recovery_loop: "entry e (voidp (Recovery_Run ctx_done st d n))"
| consume_loop: "kafka_ok k \<Longrightarrow> po_Executor po = None \<or> po_Executor po = Some e \<Longrightarrow>
    entry e (voidp (runConsumeLoop k ctx_done po n committed))"
| reconciler_loop: "rc_Executor r = e \<Longrightarrow> entry e (voidp (Reconciler_Run pick r d d' n))"

text \<open>The database server may end an open transaction at any time, which drops its locks.\<close>

definition lock_loss :: "world \<Rightarrow> world \<Rightarrow> bool" where
  "lock_loss w w' \<longleftrightarrow> (\<exists>l. l \<subseteq>\<^sub>m db_outbox_locks (w_db w) \<and> w' = w\<lparr>w_db := (w_db w)\<lparr>db_outbox_locks := l\<rparr>\<rparr>)"

abbreviation reach :: "Executor \<Rightarrow> (env, world) sys \<Rightarrow> bool" where
  "reach e \<equiv> reachable (entry e) lock_loss empty_world"

lemma entry_safe:
  assumes "executor_ok e" "entry e p" "sys_inv e w"
  shows "keeps e p (\<lambda>_ _. True) w"
  using assms(2,1,3)
  by cases
     (auto intro!: life.safe_voidp [OF assms(3)] safe_CreateOrGetPayment safe_LookupByIdempotencyKey
        life.safe_any [OF safe_GetPayment] safe_PollOnce safe_consume_message safe_Recovery_SweepOnce
        safe_PostPayments safe_Handler_GetPayment safe_GetPaymentQuotes safe_Handler_ListPayments
        safe_Handler_GetDashboardStats safe_GetDashboardTimeseries safe_PostRoutes
        safe_checkNonceDivergence safe_seed_wallet safe_Reconciler_SweepOnce safe_Publisher_Run safe_Recovery_Run
        safe_runConsumeLoop safe_Reconciler_Run)

lemma empty_world_inv: "sys_inv e empty_world"
  by (simp add: sys_inv_def empty_world_def empty_db_def keys_ok_def nonces_ok_def)

lemma lock_loss_safe: "lock_loss w w' \<Longrightarrow> sys_inv e w \<Longrightarrow> sys_inv e w' \<and> evolves w w'"
proof -
  assume "lock_loss w w'" and inv: "sys_inv e w"
  then obtain l where "w' = w\<lparr>w_db := (w_db w)\<lparr>db_outbox_locks := l\<rparr>\<rparr>" by (auto simp: lock_loss_def)
  then have "w' = w\<lparr>w_db := (w_db w)\<lparr>db_outbox_locks := l, db_next_tx := db_next_tx (w_db w)\<rparr>\<rparr>" by simp
  then show ?thesis by (rule inv_locks [OF inv])
qed

lemma reach_state_safe: "executor_ok e \<Longrightarrow> reach e s \<Longrightarrow> life.state_safe e s"
  using life.reachable_safe [OF _ lock_loss_safe empty_world_inv] entry_safe by blast

lemma reach_inv: "executor_ok e \<Longrightarrow> reach e s \<Longrightarrow> sys_inv e (fst s)"
  using reach_state_safe by (simp add: life.state_safe_def)

lemma reach_evolves:
  "executor_ok e \<Longrightarrow> reach e s \<Longrightarrow> (sys_step (entry e) lock_loss)\<^sup>*\<^sup>* s s' \<Longrightarrow> evolves (fst s) (fst s')"
  using life.steps_evolve [OF _ lock_loss_safe reach_state_safe] entry_safe by blast

section \<open>Nonces\<close>

lemma int8_word_inj:
  assumes "int8_fits a" "int8_fits b" "(word_of_int a :: 64 word) = word_of_int b"
  shows "a = b"
proof -
  have "sint (word_of_int c :: 64 word) = c" if "int8_fits c" for c
    using that by (simp add: int8_fits_def sint_sbintrunc' signed_take_bit_int_eq_self)
  with assms show ?thesis by metis
qed

lemma wallet_nonces:
  assumes "sys_inv e w"
  obtains (unseeded) "db_wallet_nonces (w_db w) (wallet_hex e) = None" "db_executions (w_db w) = []"
  | (seeded) n n0 where "db_wallet_nonces (w_db w) (wallet_hex e) = Some n" "int8_fits n" "int8_fits n0"
      "map x_Nonce (db_executions (w_db w)) = [n0..n - 1]"
proof -
  have all: "filter (\<lambda>x. x_WalletAddress x = wallet_hex e) (db_executions (w_db w)) = db_executions (w_db w)"
    using assms by (simp add: sys_inv_def exec_ok_def filter_id_conv)
  from nonces_okD [OF assms, of "wallet_hex e"] all that show ?thesis
    by (cases "db_wallet_nonces (w_db w) (wallet_hex e)") (auto simp: nonces_ok_def Let_def)
qed

lemma same_nonce_same_execution:
  assumes inv: "sys_inv e w" and x: "x \<in> set (db_executions (w_db w))" and y: "y \<in> set (db_executions (w_db w))"
    and n: "(word_of_int (x_Nonce x) :: 64 word) = word_of_int (x_Nonce y)"
  shows "x = y"
  using inv
proof (cases rule: wallet_nonces)
  case unseeded
  with x show ?thesis by simp
next
  case (seeded m m0)
  from x seeded(4) have "x_Nonce x \<in> set [m0..m - 1]" by (metis image_eqI set_map)
  moreover from y seeded(4) have "x_Nonce y \<in> set [m0..m - 1]" by (metis image_eqI set_map)
  ultimately have "int8_fits (x_Nonce x)" "int8_fits (x_Nonce y)" using seeded(2,3) by (auto simp: int8_fits_def)
  with n have "x_Nonce x = x_Nonce y" by (rule int8_word_inj [rotated 2])
  moreover have "distinct (map x_Nonce (db_executions (w_db w)))" by (simp add: seeded(4))
  ultimately show ?thesis using x y distinct_map_eqD by metis
qed

end
