(* ===== verification/Runs.thy ===== *)
theory Runs
  imports System
begin

text \<open>
  Running single operations: the rewrite rules that execute a process against a list of answers,
  and what each store operation does in a run without database faults. \<open>ok_env\<close> is such an answer.
\<close>

section \<open>Rules for runs\<close>

lemma replicate_numeral_step: "replicate (numeral k) x = x # replicate (pred_numeral k) x"
  by (simp add: numeral_eq_Suc)

lemmas run_ops = Let_def run_world_def voidp_def run_bindp tryp_def wrapp_def wrap_err_def sql_query_def run_sql ask_env_def Now_def
  call_out_def Observe_def Inc_def replicate_numeral_step sql_reply_def sql_effect_def uuid_arg_def transition_def
  update_execution_def sql_select_def sql_update_def

abbreviation ok_env :: "env \<Rightarrow> bool" where
  "ok_env i \<equiv> e_db i = NoFault"

abbreviation payments :: "world \<Rightarrow> payment_row list" where
  "payments w \<equiv> db_payments (w_db w)"

abbreviation executions :: "world \<Rightarrow> Execution list" where
  "executions w \<equiv> db_executions (w_db w)"

text \<open>A run of an operation of a process in the middle of the interleaved system keeps the other processes safe.\<close>

lemma run_in_system:
  assumes ok: "executor_ok e" and reach: "reach e (w, ts)" and keep: "keeps e p Q w"
    and run: "run p is w = (res, w', is')" and steps: "(sys_step (entry e) lock_loss)\<^sup>*\<^sup>* (w', ts) (w'', ts'')"
  shows "sys_inv e w'" "evolves w w'" "sys_inv e w''" "evolves w' w''" "\<And>a. res = Some a \<Longrightarrow> Q a w'"
proof -
  have s: "life.state_safe e (w, ts)" by (rule reach_state_safe [OF ok reach])
  then have inv: "sys_inv e w" by (simp add: life.state_safe_def)
  from life.safe_run [OF keep inv run]
  show w': "sys_inv e w'" "evolves w w'" "\<And>a. res = Some a \<Longrightarrow> Q a w'" by auto
  have "life.state_safe e (w', ts)"
    using s w' life.safe_thread_list [of ts e w w'] by (simp add: life.state_safe_def)
  from life.steps_evolve [OF _ lock_loss_safe this steps] entry_safe [OF ok]
  show "sys_inv e w''" "evolves w' w''" by (auto simp: life.state_safe_def)
qed

lemma run_sql_ok:
  "ok_env i \<Longrightarrow> run (sql q) (i # is) w =
    (Some (map_sum id fst (q i (w_db w))), w\<lparr>w_db := sql_effect q i (w_db w)\<rparr>, is)"
  by (simp add: run_sql sql_reply_def)

lemma run_tryp:
  "run (tryp p h k) is w = (case run p is w of
      (None, w', is') \<Rightarrow> (None, w', is')
    | (Some (Inl e), w', is') \<Rightarrow> run (h e) is' w'
    | (Some (Inr a), w', is') \<Rightarrow> run (k a) is' w')"
  by (simp add: tryp_def run_bindp split: option.splits sum.splits prod.splits)

lemma run_query_ok: "ok_env i \<Longrightarrow> run (sql_query q) (i # is) w = (Some (q i (w_db w)), w, is)"
  by (cases "q i (w_db w)") (simp_all add: sql_query_def run_sql_ok sql_effect_def)

text \<open>The row a guarded transition matches, and the table after it.\<close>

lemma run_transition_ok:
  assumes "ok_env i" "uuid_in pid = Some u"
  shows "run (sql (transition pid from upd)) (i # is) w =
    (Some (Inr (sql_row (sql_select (\<lambda>r. pr_id r = u \<and> pr_status r = from) (payments w)))),
     w\<lparr>w_db := (w_db w)\<lparr>db_payments := sql_update (\<lambda>r. pr_id r = u \<and> pr_status r = from) (upd (e_now i)) (payments w)\<rparr>\<rparr>, is)"
  using assms by (simp add: run_sql_ok transition_def uuid_arg_def Let_def sql_effect_def)

lemma payment_keys: "sys_inv e w \<Longrightarrow> distinct (map pr_id (payments w))"
  using keys_okD by (fastforce simp: keys_ok_def)

lemma transition_row:
  assumes "distinct (map pr_id t)" "r \<in> set t" "pr_status r = from"
  shows "sql_row (sql_select (\<lambda>q. pr_id q = pr_id r \<and> pr_status q = from) t) = Some r"
proof (cases "sql_row (sql_select (\<lambda>q. pr_id q = pr_id r \<and> pr_status q = from) t)")
  case None
  with assms(2,3) show ?thesis by (auto simp: sql_row_select_None simp del: sql_row_None_iff)
next
  case (Some q)
  from sql_row_select_Some [OF this] have "q \<in> set t" "pr_id q = pr_id r" by auto
  with assms(1,2) have "q = r" using distinct_map_eqD by metis
  with Some show ?thesis by simp
qed

lemma transition_no_row:
  assumes "distinct (map pr_id t)" "r \<in> set t" "pr_status r \<noteq> from"
  shows "sql_row (sql_select (\<lambda>q. pr_id q = pr_id r \<and> pr_status q = from) t) = None"
    "sql_update (\<lambda>q. pr_id q = pr_id r \<and> pr_status q = from) upd t = t"
proof -
  have no: "\<not> (pr_id q = pr_id r \<and> pr_status q = from)" if "q \<in> set t" for q
    using that assms distinct_map_eqD by metis
  then show "sql_row (sql_select (\<lambda>q. pr_id q = pr_id r \<and> pr_status q = from) t) = None"
    by (simp only: sql_row_select_None) blast
  show "sql_update (\<lambda>q. pr_id q = pr_id r \<and> pr_status q = from) upd t = t"
    by (rule sql_update_none) (rule no)
qed

text \<open>A transition by the identifier of a known row: it applies exactly when the row has the expected status.\<close>

lemma run_transition_row:
  assumes "ok_env i" "distinct (map pr_id (payments w))" "r \<in> set (payments w)" "uuid_in (pr_id r) = Some (pr_id r)"
  shows "run (sql (transition (pr_id r) from upd)) (i # is) w =
    (if pr_status r = from then (Some (Inr (Some r)),
       w\<lparr>w_db := (w_db w)\<lparr>db_payments := sql_update (\<lambda>q. pr_id q = pr_id r \<and> pr_status q = from) (upd (e_now i)) (payments w)\<rparr>\<rparr>, is)
     else (Some (Inr None), w, is))"
  using transition_row [OF assms(2,3), of "from"] transition_no_row [OF assms(2,3)]
  by (simp add: run_transition_ok [OF assms(1,4)])

lemma run_ClaimPayment_ok:
  assumes "ok_env i" "sys_inv e w" "r \<in> set (payments w)"
  shows "run (ClaimPayment (pr_id r)) (i # is) w =
    (if pr_status r = ROUTED then (Some (Inr (True, pr_execution_mode r)),
       w\<lparr>w_db := (w_db w)\<lparr>db_payments := sql_update (\<lambda>q. pr_id q = pr_id r \<and> pr_status q = ROUTED)
          (\<lambda>q. q\<lparr>pr_status := PROCESSING, pr_updated_at := e_now i\<rparr>) (payments w)\<rparr>\<rparr>, is)
     else (Some (Inr (False, '''')), w, is))"
  by (simp add: ClaimPayment_def run_tryp run_transition_row [OF assms(1) payment_keys [OF assms(2)] assms(3) uuid_in_idem [OF assms(2,3)]])

lemma run_CompletePayment_ok:
  assumes "ok_env i" "sys_inv e w" "r \<in> set (payments w)"
  shows "run (CompletePayment (pr_id r) s) (i # is) w =
    (if pr_status r = PROCESSING then (Some (Inr (Some (pr_created_at r))),
       w\<lparr>w_db := (w_db w)\<lparr>db_payments := sql_update (\<lambda>q. pr_id q = pr_id r \<and> pr_status q = PROCESSING)
          (\<lambda>q. q\<lparr>pr_status := s, pr_completed_at := Some (e_now i), pr_updated_at := e_now i\<rparr>) (payments w)\<rparr>\<rparr>, is)
     else (Some (Inr None), w, is))"
  by (simp add: CompletePayment_def run_tryp run_transition_row [OF assms(1) payment_keys [OF assms(2)] assms(3) uuid_in_idem [OF assms(2,3)]])

end
