(* ===== verification/Scenario.thy ===== *)
theory Scenario
  imports Runs
begin

text \<open>
  A concrete run of the system, on which the properties of the reachable states are exercised: a
  worker start seeds the wallet at nonce 7, a testnet and a simulated payment are created, the
  events of both are published and consumed, and a reconciler settles the testnet payment. The
  library functions and the bridge are the small instances below; they meet \<open>executor_ok\<close>.
\<close>

section \<open>The configuration\<close>

definition demo_tx :: SignedTx where
  "demo_tx = \<lparr>st_Tx = \<lparr>lt_Nonce = 7, lt_To = 17, lt_Value = 10000000000000000, lt_Gas = 21000, lt_GasPrice = 1, lt_Data = ''deposit''\<rparr>,
     st_ChainID = 84532, st_Signature = ''sig''\<rparr>"

definition demo_geth :: Geth where
  "demo_geth = \<lparr>
     g_SignTx = (\<lambda>tx cid key. Inr \<lparr>st_Tx = tx, st_ChainID = cid, st_Signature = ''sig''\<rparr>),
     g_MarshalBinary = (\<lambda>stx. if stx = demo_tx then Inr ''rlp'' else Inl (Err ''unsupported'')),
     g_UnmarshalBinary = (\<lambda>raw. if raw = ''rlp'' then Inr demo_tx else Inl (Err ''malformed'')),
     g_Hash = (\<lambda>stx. 99),
     g_HashHex = (\<lambda>h. Int_String (uint h)),
     g_HexToHash = (\<lambda>s. case SetString10 s of None \<Rightarrow> 0 | Some n \<Rightarrow> word_of_int n),
     g_AddressHex = (\<lambda>a. ''0xwallet''),
     g_HexToAddress = (\<lambda>s. 17),
     g_HexToECDSA = (\<lambda>s. Inr s),
     g_PubkeyToAddress = (\<lambda>k. 1),
     g_PackDepositV3 = (\<lambda>a. Inr ''deposit'')\<rparr>"

definition demo_provider :: "env Provider" where
  "demo_provider = \<lparr>pv_Name = ''across'', pv_GetQuote = (\<lambda>i rq. Inr \<lparr>
     b_ProviderName = ''across'', b_SourceChainID = rq_SourceChainID rq, b_DestinationChainID = rq_DestinationChainID rq,
     b_Asset = rq_Asset rq, b_InputAmountBaseUnits = Some (rq_AmountBaseUnits rq),
     b_OutputAmountBaseUnits = Some (rq_AmountBaseUnits rq - 1000), b_FeeBaseUnits = Some 1000,
     b_EstimatedFillTimeSec = 2, b_Available = True, b_QuotedAt = e_now i, b_ExpiresAt = e_now i + 30,
     b_RawProviderPayload = None\<rparr>)\<rparr>"

definition demo_signer :: "env Signer" where
  "demo_signer = Provider.extend demo_provider
     \<lparr>sg_BuildTransaction = (\<lambda>q. Inr \<lparr>te_To = 17, te_Value = b_InputAmountBaseUnits q, te_Data = ''deposit'', te_ChainID = 84532\<rparr>)\<rparr>"

definition demo_checker :: "env StatusChecker" where
  "demo_checker = Provider.extend demo_provider
     \<lparr>sc_CheckStatus = (\<lambda>i rq. Inr \<lparr>sr_State = StateFilled, sr_RawStatus = ''filled'', sr_DestinationTxHash = None\<rparr>)\<rparr>"

definition demo_executor :: Executor where
  "demo_executor = \<lparr>ex_Geth = demo_geth, ex_Wallet = \<lparr>wl_PrivateKey = ''key'', wl_Address = 1\<rparr>,
     ex_QuoteProviders = [''across'' \<mapsto> demo_provider], ex_Signers = [''across'' \<mapsto> demo_signer],
     ex_ExpectedContractByProvider = [''across'' \<mapsto> 17], ex_MaxFeeSlippageBps = 100,
     ex_OriginChainID = 84532, ex_DestChainID = 421614, ex_MaxAmountWei = Some (10 ^ 17)\<rparr>"

definition demo_processor :: Processor where
  "demo_processor = \<lparr>po_Executor = Some demo_executor\<rparr>"

definition demo_reconciler :: Reconciler where
  "demo_reconciler = \<lparr>rc_Executor = demo_executor, rc_StatusCheckers = [''across'' \<mapsto> demo_checker],
     rc_WalletAddress = 1, rc_Staleness = 30\<rparr>"

lemma demo_executor_ok: "executor_ok demo_executor"
  by (auto simp: executor_ok_def geth_ok_def demo_executor_def demo_geth_def demo_provider_def split: if_splits)

section \<open>The run\<close>

definition demo_quote :: Quote where
  "demo_quote = \<lparr>q_ID = '''', q_PaymentID = '''', q_Provider = ''across'', q_OriginChainID = 84532,
     q_DestinationChainID = 421614, q_Asset = ''WETH'', q_InputAmount = ''10000000000000000'',
     q_OutputAmount = ''9999999999999000'', q_FeeAmount = ''1000'', q_EstimatedFillTimeSec = 2,
     q_QuotedAt = 0, q_ExpiresAt = 30, q_RawProviderPayload = JNull, q_Selected = True, q_CreatedAt = 0\<rparr>"

definition demo_payment :: "string \<Rightarrow> ExecutionMode \<Rightarrow> Quote list \<Rightarrow> Payment" where
  "demo_payment key mode quotes = \<lparr>p_ID = '''', p_IdempotencyKey = key, p_SourceChain = ''base-sepolia'',
     p_DestinationChain = ''arbitrum-sepolia'', p_Asset = ''WETH'', p_Amount = ''0.01'', p_Status = ROUTED,
     p_TotalFee = 0, p_Hops = [], p_ExecutionMode = mode, p_BridgeProvider = None, p_FailureReason = None,
     p_Quotes = quotes, p_CreatedAt = 0, p_UpdatedAt = 0, p_CompletedAt = None\<rparr>"

definition demo_env :: "nat \<Rightarrow> env" where
  "demo_env k = env0\<lparr>e_uuid := (\<lambda>n. of_nat (k + n)), e_lookup := Inl NotFound, e_pending_nonce := Inr 7\<rparr>"

definition demo_id :: "nat \<Rightarrow> string" where
  "demo_id k = uuid_text (of_nat k)"

definition demo_event :: "string \<Rightarrow> RoutedPayment" where
  "demo_event pid = \<lparr>ev_PaymentID = pid, ev_EventType = RoutedPaymentEventType, ev_OccurredAt = 0\<rparr>"

definition demo_seeded :: world where
  "demo_seeded = run_world (voidp (seed_wallet demo_executor)) (replicate 20 (demo_env 0)) empty_world"

definition demo_created :: world where
  "demo_created = run_world (voidp (CreateOrGetPayment (demo_payment ''k2'' ExecutionModeSimulated [])))
     (replicate 20 (demo_env 16))
     (run_world (voidp (CreateOrGetPayment (demo_payment ''k1'' ExecutionModeTestnet [demo_quote])))
       (replicate 20 (demo_env 0)) demo_seeded)"

definition demo_published :: world where
  "demo_published = run_world (voidp PollOnce) (replicate 20 (demo_env 0)) demo_created"

definition demo_submitted :: world where
  "demo_submitted = run_world (voidp (consume_message demo_processor (Some (demo_event (demo_id 0)))))
     (replicate 40 (demo_env 0)) demo_published"

definition demo_settled :: world where
  "demo_settled = run_world (voidp (consume_message demo_processor (Some (demo_event (demo_id 16)))))
     (replicate 40 (demo_env 0))
     (run_world (Reconciler_SweepOnce demo_reconciler) (replicate 40 (demo_env 0)) demo_submitted)"


lemma demo_env_sel [simp]:
  "e_now (demo_env k) = 0" "e_db (demo_env k) = NoFault" "e_order (demo_env k) = (\<lambda>n. n)" "e_gas_price (demo_env k) = Inr 1"
  "e_gas_limit (demo_env k) = Inr 21000" "e_lookup (demo_env k) = Inl NotFound" "e_send (demo_env k) = Inr ()"
  "e_receipt (demo_env k) = Inr 1" "e_pending_nonce (demo_env k) = Inr 7" "e_publish (demo_env k) = Inr ()"
  by (simp_all add: demo_env_def env0_def)

lemmas demo_config = demo_executor_def demo_geth_def demo_processor_def demo_reconciler_def demo_provider_def
  demo_signer_def demo_checker_def Provider.defs

definition demo_db :: "payment_row list \<Rightarrow> quote_row list \<Rightarrow> Execution list \<Rightarrow> int \<Rightarrow> outbox_row list \<Rightarrow> nat \<Rightarrow> db" where
  "demo_db ps qs xs n ob tx = \<lparr>db_payments = ps, db_hops = [], db_quotes = qs, db_executions = xs,
     db_wallet_nonces = [''0xwallet'' \<mapsto> n], db_outbox = ob, db_outbox_locks = Map.empty, db_next_tx = tx\<rparr>"

lemma demo_seeded_eval: "\<exists>m. demo_seeded = \<lparr>w_db = demo_db [] [] [] 7 [] 0, w_trace = [], w_met = m\<rparr>"
  unfolding demo_seeded_def seed_wallet_def SeedWalletNonce_def
  by (simp add: run_ops demo_config int8_fits_def empty_world_def empty_db_def demo_db_def)

definition demo_row :: "nat \<Rightarrow> string \<Rightarrow> ExecutionMode \<Rightarrow> Status \<Rightarrow> payment_row" where
  "demo_row k key mode s = \<lparr>pr_id = demo_id k, pr_idempotency_key = key, pr_source_chain = ''base-sepolia'',
     pr_destination_chain = ''arbitrum-sepolia'', pr_asset = ''WETH'', pr_amount = 10000000000000000, pr_status = s, pr_total_fee = 0,
     pr_execution_mode = mode, pr_bridge_provider = None, pr_failure_reason = None,
     pr_completed_at = (if terminal s then Some 0 else None), pr_created_at = 0, pr_updated_at = 0\<rparr>"

definition demo_quote_row :: quote_row where
  "demo_quote_row = \<lparr>qr_id = demo_id (Suc (Suc 0)), qr_payment_id = demo_id 0, qr_provider = ''across'', qr_origin_chain_id = 84532,
     qr_destination_chain_id = 421614, qr_asset = ''WETH'', qr_input_amount = 10000000000000000, qr_output_amount = 9999999999999000, qr_fee_amount = 1000,
     qr_estimated_fill_time_sec = 2, qr_quoted_at = 0, qr_expires_at = 30, qr_raw_provider_payload = JNull,
     qr_selected = True, qr_created_at = 0\<rparr>"

definition demo_outbox :: "nat \<Rightarrow> time option \<Rightarrow> outbox_row" where
  "demo_outbox k t = \<lparr>ob_id = demo_id (Suc k), ob_payment_id = demo_id k, ob_event_type = RoutedPaymentEventType,
     ob_payload = demo_event (demo_id k), ob_created_at = 0, ob_published_at = t\<rparr>"

lemma demo_numbers [simp]:
  "numeric_in 18 ''0.01'' = Some 10000000000000000" "numeric_in 0 ''10000000000000000'' = Some 10000000000000000"
  "numeric_in 0 ''9999999999999000'' = Some 9999999999999000" "numeric_in 0 ''1000'' = Some 1000"
  "numeric_equal 10000000000000000 ''0.01'' = Some True"  "numeric_equal 0 ''0.01'' = Some False"
  by (simp_all add: numeric_equal_def numeric_in_def numeric_magnitude_def int_part_def frac_part_def Let_def is_digit_def digit_val_def
      nat_of_digits_def replicate_numeral_step)

lemma demo_ids [simp]: "demo_id 0 \<noteq> demo_id 16" "demo_id (Suc 0) \<noteq> demo_id 17"
  "demo_id 16 \<noteq> demo_id 0"  "demo_id 17 \<noteq> demo_id (Suc 0)"
  by (auto simp: demo_id_def dest: uuid_text_inj)

lemma demo_new_uuid [simp]: "new_uuid (demo_env k) n = demo_id (k + n)"
  by (simp add: new_uuid_def demo_env_def env0_def demo_id_def)


lemmas demo_rows = demo_db_def demo_row_def demo_quote_row_def demo_outbox_def demo_event_def

lemmas create_ops = CreateOrGetPayment_def findByIdempotencyKey_def create_tx_def new_payment_row_def new_outbox_row_def
  quote_row_of_def numeric_fits_def int4_fits_def normalizeExecutionMode_def demo_payment_def demo_quote_def

lemma demo_create_testnet:
  "\<exists>m'. run_world (voidp (CreateOrGetPayment (demo_payment ''k1'' ExecutionModeTestnet [demo_quote])))
       (replicate 20 (demo_env 0)) \<lparr>w_db = demo_db [] [] [] 7 [] 0, w_trace = [], w_met = m\<rparr> =
     \<lparr>w_db = demo_db [demo_row 0 ''k1'' ExecutionModeTestnet ROUTED] [demo_quote_row] [] 7 [demo_outbox 0 None] 0,
      w_trace = [], w_met = m'\<rparr>"
  by (simp add: run_ops create_ops demo_rows)

lemma demo_created_eval:
  "\<exists>m. demo_created = \<lparr>w_db = demo_db [demo_row 0 ''k1'' ExecutionModeTestnet ROUTED, demo_row 16 ''k2'' ExecutionModeSimulated ROUTED]
       [demo_quote_row] [] 7 [demo_outbox 0 None, demo_outbox 16 None] 0, w_trace = [], w_met = m\<rparr>"
proof -
  obtain m where seeded: "demo_seeded = \<lparr>w_db = demo_db [] [] [] 7 [] 0, w_trace = [], w_met = m\<rparr>"
    using demo_seeded_eval by blast
  obtain m' where created: "run_world (voidp (CreateOrGetPayment (demo_payment ''k1'' ExecutionModeTestnet [demo_quote])))
       (replicate 20 (demo_env 0)) demo_seeded =
     \<lparr>w_db = demo_db [demo_row 0 ''k1'' ExecutionModeTestnet ROUTED] [demo_quote_row] [] 7 [demo_outbox 0 None] 0,
      w_trace = [], w_met = m'\<rparr>"
    unfolding seeded using demo_create_testnet by blast
  show ?thesis unfolding demo_created_def created by (simp add: run_ops create_ops demo_rows)
qed


lemma demo_published_eval:
  "\<exists>m. demo_published = \<lparr>w_db = demo_db [demo_row 0 ''k1'' ExecutionModeTestnet ROUTED, demo_row 16 ''k2'' ExecutionModeSimulated ROUTED]
       [demo_quote_row] [] 7 [demo_outbox 0 (Some 0), demo_outbox 16 None] 1,
       w_trace = [EvPublish (demo_id 0) (demo_event (demo_id 0)) (Inr ())], w_met = m\<rparr>"
proof -
  obtain m where created: "demo_created = \<lparr>w_db = demo_db [demo_row 0 ''k1'' ExecutionModeTestnet ROUTED,
       demo_row 16 ''k2'' ExecutionModeSimulated ROUTED] [demo_quote_row] [] 7 [demo_outbox 0 None, demo_outbox 16 None] 0,
       w_trace = [], w_met = m\<rparr>"
    using demo_created_eval by blast
  show ?thesis unfolding demo_published_def created
    by (simp add: run_ops PollOnce_def PublishNextOutboxEvent_def claim_outbox_def commit_outbox_def publish_event_def
      scan_outbox_def shuffle_def demo_rows)
qed

definition demo_exec :: "ExternalStatus \<Rightarrow> string option \<Rightarrow> time option \<Rightarrow> Execution" where
  "demo_exec ext rawext conf = \<lparr>x_ID = demo_id 0, x_PaymentID = demo_id 0, x_BridgeProvider = ''across'',
     x_OriginChainID = 84532, x_DestinationChainID = 421614, x_WalletAddress = ''0xwallet'', x_Nonce = 7,
     x_SignedTxHash = Some (Int_String 99), x_RawSignedTx = Some ''rlp'', x_BroadcastAt = Some 0, x_ProviderReferenceID = None,
     x_ExternalStatus = ext, x_RawExternalStatus = rawext, x_ConfirmedAt = conf, x_CreatedAt = 0, x_UpdatedAt = 0\<rparr>"

lemma demo_uuid [simp]: "uuid_in (demo_id k) = Some (demo_id k)"
  by (simp add: demo_id_def)

lemma demo_amount [simp]: "DecimalToBaseUnits (numeric_text 18 10000000000000000) 18 = Inr 10000000000000000"
  using DecimalToBaseUnits_numeric_text [of 10000000000000000 18] by simp

lemmas execute_ops = consume_message_def HandleRoutedPayment_def ClaimPayment_def ExecuteTestnetPayment_def GetQuoteByPaymentID_def
  scan_quote_def numeric_text_0 with_fresh_quote_def GetPayment_def hopsForPayment_def hops_of_def scan_payment_def get_quote_def
  execute_fresh_def exceedsSlippageTolerance_def exceeds_guardrail_def buildValidatedEnvelope_def validateEnvelope_def
  quote_request_def TryCreateExecution_def create_execution_tx_def new_execution_def int8_fits_def run_signed_def
  signAndBroadcastFresh_def unsigned_tx_def SignTx_def demo_tx_def extractProviderReferenceID_def PersistSignedExecution_def
  broadcastWithRecovery_def mark_broadcast_submitted_def MarkExecutionBroadcast_def MarkSubmitted_def

lemma demo_submitted_eval:
  "\<exists>m t. demo_submitted = \<lparr>w_db = demo_db [demo_row 0 ''k1'' ExecutionModeTestnet SUBMITTED, demo_row 16 ''k2'' ExecutionModeSimulated ROUTED]
       [demo_quote_row] [demo_exec ExtPending None None] 8 [demo_outbox 0 (Some 0), demo_outbox 16 None] 1,
       w_trace = EvSend demo_tx (Inr ()) # t, w_met = m\<rparr> \<and> EvPublish (demo_id 0) (demo_event (demo_id 0)) (Inr ()) \<in> set t"
proof -
  obtain m where published: "demo_published = \<lparr>w_db = demo_db [demo_row 0 ''k1'' ExecutionModeTestnet ROUTED,
       demo_row 16 ''k2'' ExecutionModeSimulated ROUTED] [demo_quote_row] [] 7 [demo_outbox 0 (Some 0), demo_outbox 16 None] 1,
       w_trace = [EvPublish (demo_id 0) (demo_event (demo_id 0)) (Inr ())], w_met = m\<rparr>"
    using demo_published_eval by blast
  show ?thesis unfolding demo_submitted_def published
    by (simp add: run_ops execute_ops demo_config demo_rows demo_exec_def)
qed


lemma terminal_outcome [simp]: "terminal (outcome_status pid)"
  by (simp add: outcome_status_def)

lemmas reconcile_ops = Reconciler_SweepOnce_def recoverStaleProcessingWithoutExecution_def StaleTestnetProcessingWithoutExecutionIDs_def
  driveStaleNotYetBroadcast_def ReconciliationCandidates_def is_candidate_def checkBroadcastOutcomes_def lowestByWallet_def
  lowest_step_def shuffle_def checkAndUpdateOutcome_def check_status_def markTerminal_def UpdateExecutionExternalStatus_def
  CompleteSubmittedPayment_def derefOrEmpty_def

definition demo_filled :: event where
  "demo_filled = EvStatus ''across'' \<lparr>sr_ProviderReferenceID = '''', sr_OriginTxHash = Int_String 99\<rparr>
     (Inr \<lparr>sr_State = StateFilled, sr_RawStatus = ''filled'', sr_DestinationTxHash = None\<rparr>)"

lemma demo_reconciled_eval:
  "\<exists>m'. run_world (Reconciler_SweepOnce demo_reconciler) (replicate 40 (demo_env 0))
      \<lparr>w_db = demo_db [demo_row 0 ''k1'' ExecutionModeTestnet SUBMITTED, demo_row 16 ''k2'' ExecutionModeSimulated ROUTED]
       [demo_quote_row] [demo_exec ExtPending None None] 8 ob tx, w_trace = t, w_met = m\<rparr> =
      \<lparr>w_db = demo_db [demo_row 0 ''k1'' ExecutionModeTestnet COMPLETED, demo_row 16 ''k2'' ExecutionModeSimulated ROUTED]
       [demo_quote_row] [demo_exec ExtFilled (Some ''filled'') (Some 0)] 8 ob tx,
       w_trace = demo_filled # EvReceipt 99 (Inr 1) # t, w_met = m'\<rparr>"
  by (simp add: run_ops execute_ops reconcile_ops demo_config demo_rows demo_exec_def demo_filled_def)

lemma demo_settled_eval:
  "\<exists>m t. demo_settled = \<lparr>w_db = demo_db [demo_row 0 ''k1'' ExecutionModeTestnet COMPLETED,
         demo_row 16 ''k2'' ExecutionModeSimulated (outcome_status (demo_id 16))]
       [demo_quote_row] [demo_exec ExtFilled (Some ''filled'') (Some 0)] 8 [demo_outbox 0 (Some 0), demo_outbox 16 None] 1,
       w_trace = t, w_met = m\<rparr> \<and>
     {EvSend demo_tx (Inr ()), demo_filled, EvPublish (demo_id 0) (demo_event (demo_id 0)) (Inr ())} \<subseteq> set t"
proof -
  obtain m t where sub: "demo_submitted = \<lparr>w_db = demo_db [demo_row 0 ''k1'' ExecutionModeTestnet SUBMITTED,
       demo_row 16 ''k2'' ExecutionModeSimulated ROUTED]
       [demo_quote_row] [demo_exec ExtPending None None] 8 [demo_outbox 0 (Some 0), demo_outbox 16 None] 1,
       w_trace = EvSend demo_tx (Inr ()) # t, w_met = m\<rparr>" and t: "EvPublish (demo_id 0) (demo_event (demo_id 0)) (Inr ()) \<in> set t"
    using demo_submitted_eval by blast
  obtain m' where rec: "run_world (Reconciler_SweepOnce demo_reconciler) (replicate 40 (demo_env 0)) demo_submitted =
      \<lparr>w_db = demo_db [demo_row 0 ''k1'' ExecutionModeTestnet COMPLETED, demo_row 16 ''k2'' ExecutionModeSimulated ROUTED]
       [demo_quote_row] [demo_exec ExtFilled (Some ''filled'') (Some 0)] 8 [demo_outbox 0 (Some 0), demo_outbox 16 None] 1,
       w_trace = demo_filled # EvReceipt 99 (Inr 1) # EvSend demo_tx (Inr ()) # t, w_met = m'\<rparr>"
    unfolding sub using demo_reconciled_eval by blast
  show ?thesis unfolding demo_settled_def rec
    using t by (simp add: run_ops execute_ops CompletePayment_def count_finished_def demo_config demo_rows demo_exec_def if_distribR)
qed


section \<open>The states are reachable\<close>

lemma demo_consume_entry: "entry demo_executor (voidp (consume_message demo_processor (Some (demo_event (demo_id k)))))"
  by (rule entry.consume) (auto simp: demo_processor_def demo_event_def)

lemma demo_steps_submitted: "(sys_step (entry demo_executor) lock_loss)\<^sup>*\<^sup>* (demo_created, []) (demo_submitted, [])"
  unfolding demo_submitted_def demo_published_def
  by (rule rtranclp_trans [OF run_alone run_alone]) (rule entry.poll demo_consume_entry)+

lemma demo_steps_settled: "(sys_step (entry demo_executor) lock_loss)\<^sup>*\<^sup>* (demo_submitted, []) (demo_settled, [])"
  unfolding demo_settled_def
  by (rule rtranclp_trans [OF run_alone run_alone], rule entry.reconcile) (simp add: demo_reconciler_def, rule demo_consume_entry)

lemma demo_created_reach: "reach demo_executor (demo_created, [])"
  unfolding demo_created_def demo_seeded_def
  by (intro reachable_run entry.create entry.seed reachable.start)

lemma demo_submitted_reach: "reach demo_executor (demo_submitted, [])"
  by (rule reachable_steps [OF demo_steps_submitted demo_created_reach])

lemma demo_settled_reach: "reach demo_executor (demo_settled, [])"
  by (rule reachable_steps [OF demo_steps_settled demo_submitted_reach])


lemma demo_settled_facts:
  "EvSend demo_tx (Inr ()) \<in> set (w_trace demo_settled)"
  "db_payments (w_db demo_settled) = [demo_row 0 ''k1'' ExecutionModeTestnet COMPLETED,
     demo_row 16 ''k2'' ExecutionModeSimulated (outcome_status (demo_id 16))]"
  "db_wallet_nonces (w_db demo_settled) (wallet_hex demo_executor) = Some 8"
  "db_outbox (w_db demo_settled) = [demo_outbox 0 (Some 0), demo_outbox 16 None]"
  "db_executions (w_db demo_settled) = [demo_exec ExtFilled (Some ''filled'') (Some 0)]"
proof -
  obtain m t where eq: "demo_settled = \<lparr>w_db = demo_db [demo_row 0 ''k1'' ExecutionModeTestnet COMPLETED,
         demo_row 16 ''k2'' ExecutionModeSimulated (outcome_status (demo_id 16))]
       [demo_quote_row] [demo_exec ExtFilled (Some ''filled'') (Some 0)] 8 [demo_outbox 0 (Some 0), demo_outbox 16 None] 1,
       w_trace = t, w_met = m\<rparr>" and t: "EvSend demo_tx (Inr ()) \<in> set t"
    using demo_settled_eval by blast
  show "EvSend demo_tx (Inr ()) \<in> set (w_trace demo_settled)"
    "db_payments (w_db demo_settled) = [demo_row 0 ''k1'' ExecutionModeTestnet COMPLETED,
       demo_row 16 ''k2'' ExecutionModeSimulated (outcome_status (demo_id 16))]"
    "db_wallet_nonces (w_db demo_settled) (wallet_hex demo_executor) = Some 8"
    "db_outbox (w_db demo_settled) = [demo_outbox 0 (Some 0), demo_outbox 16 None]"
    "db_executions (w_db demo_settled) = [demo_exec ExtFilled (Some ''filled'') (Some 0)]"
    unfolding eq using t by (simp_all add: demo_db_def wallet_hex_def demo_executor_def demo_geth_def)
qed

lemma demo_submitted_facts:
  "db_payments (w_db demo_submitted) = [demo_row 0 ''k1'' ExecutionModeTestnet SUBMITTED, demo_row 16 ''k2'' ExecutionModeSimulated ROUTED]"
  "db_executions (w_db demo_submitted) = [demo_exec ExtPending None None]"
proof -
  obtain m t where eq: "demo_submitted = \<lparr>w_db = demo_db [demo_row 0 ''k1'' ExecutionModeTestnet SUBMITTED,
       demo_row 16 ''k2'' ExecutionModeSimulated ROUTED]
       [demo_quote_row] [demo_exec ExtPending None None] 8 [demo_outbox 0 (Some 0), demo_outbox 16 None] 1,
       w_trace = EvSend demo_tx (Inr ()) # t, w_met = m\<rparr>"
    using demo_submitted_eval by blast
  show "db_payments (w_db demo_submitted) = [demo_row 0 ''k1'' ExecutionModeTestnet SUBMITTED, demo_row 16 ''k2'' ExecutionModeSimulated ROUTED]"
    "db_executions (w_db demo_submitted) = [demo_exec ExtPending None None]"
    unfolding eq by (simp_all add: demo_db_def)
qed

end
