(* ===== verification/Safety.thy ===== *)
theory Safety
  imports Scenario
begin

text \<open>
  What holds in every reachable state of the interleaved system: the transactions sent to the
  origin chain, the nonces, the life of a payment, the outbox and the settlement evidence. Each
  property is applied to the run of \<open>Scenario\<close>.
\<close>

text \<open>
  C1. Every transaction the workers ever hand to the origin chain, under any interleaving, crash or
  lost reply, belongs to a recorded execution of a testnet payment: it carries that execution's
  allocated nonce, exactly the payment's amount in base units, the configured chain, and is
  addressed to the contract pinned for the provider of the route.
\<close>

theorem sent_transactions_authorized:
  assumes "executor_ok e" "reach e (w, ts)" "EvSend stx reply \<in> set (w_trace w)"
  shows "\<exists>x \<in> set (db_executions (w_db w)). \<exists>r \<in> set (db_payments (w_db w)).
    x_PaymentID x = pr_id r \<and> pr_execution_mode r = ExecutionModeTestnet \<and>
    lt_Nonce (st_Tx stx) = word_of_int (x_Nonce x) \<and> lt_Value (st_Tx stx) = pr_amount r \<and>
    st_ChainID stx = ex_OriginChainID e \<and>
    ex_ExpectedContractByProvider e (x_BridgeProvider x) = Some (lt_To (st_Tx stx))"
proof -
  from reach_inv [OF assms(1,2)] have inv: "sys_inv e w" by simp
  with assms(3) have "event_ok e w (EvSend stx reply)" unfolding sys_inv_def by blast
  then obtain x r where x: "x \<in> set (db_executions (w_db w))" "tx_for e w x stx" and
    r: "r \<in> set (db_payments (w_db w))" "pr_id r = x_PaymentID x" "lt_Value (st_Tx stx) = pr_amount r"
    by (auto simp: event_ok_def tx_for_def)
  have "pr_execution_mode r = ExecutionModeTestnet"
    using known_mode_row [OF inv execution_copy(3) [OF inv x(1)] r(1,2)] .
  with x(2) r(2,3) show ?thesis
    by (intro bexI [OF _ x(1)] bexI [OF _ r(1)]) (simp add: tx_for_def)
qed

theorem sent_transactions_authorized_witness:
  "EvSend demo_tx (Inr ()) \<in> set (w_trace demo_settled) \<and>
   (\<exists>x \<in> set (db_executions (w_db demo_settled)). \<exists>r \<in> set (db_payments (w_db demo_settled)).
    x_PaymentID x = pr_id r \<and> pr_execution_mode r = ExecutionModeTestnet \<and>
    lt_Nonce (st_Tx demo_tx) = word_of_int (x_Nonce x) \<and> lt_Value (st_Tx demo_tx) = pr_amount r \<and>
    st_ChainID demo_tx = ex_OriginChainID demo_executor \<and>
    ex_ExpectedContractByProvider demo_executor (x_BridgeProvider x) = Some (lt_To (st_Tx demo_tx)))"
  using sent_transactions_authorized [OF demo_executor_ok demo_settled_reach demo_settled_facts(1)] demo_settled_facts(1)
  by blast

text \<open>
  C2. No nonce is spent on two payments: two transactions ever sent with the same nonce were made for
  one and the same execution row (a resend, or a replacement that moves the same amount to the
  same contract), so one payment at most is paid per nonce.
\<close>

theorem nonce_spent_on_one_execution:
  assumes "executor_ok e" "reach e (w, ts)"
    "EvSend stx reply \<in> set (w_trace w)" "EvSend stx' reply' \<in> set (w_trace w)"
    "lt_Nonce (st_Tx stx) = lt_Nonce (st_Tx stx')"
  shows "\<exists>x \<in> set (db_executions (w_db w)). tx_for e w x stx \<and> tx_for e w x stx'"
proof -
  from reach_inv [OF assms(1,2)] have inv: "sys_inv e w" by simp
  with assms(3,4) have "event_ok e w (EvSend stx reply)" "event_ok e w (EvSend stx' reply')"
    unfolding sys_inv_def by blast+
  then obtain x y where "x \<in> set (db_executions (w_db w))" "tx_for e w x stx"
    "y \<in> set (db_executions (w_db w))" "tx_for e w y stx'" by (auto simp: event_ok_def)
  with same_nonce_same_execution [OF inv] assms(5) show ?thesis by (metis tx_for_def)
qed

theorem nonce_spent_on_one_execution_witness:
  "EvSend demo_tx (Inr ()) \<in> set (w_trace demo_settled) \<and>
   (\<exists>x \<in> set (db_executions (w_db demo_settled)). tx_for demo_executor demo_settled x demo_tx)"
  using nonce_spent_on_one_execution [OF demo_executor_ok demo_settled_reach demo_settled_facts(1) demo_settled_facts(1)]
    demo_settled_facts(1) by blast

text \<open>
  C4. The nonces handed out to the executions of the wallet are consecutive, in the order of their
  rows, and end just below the stored next nonce: none is skipped and none is reused, whatever
  transactions failed or lost their race.
\<close>

theorem nonces_gap_free:
  assumes "executor_ok e" "reach e (w, ts)" "db_wallet_nonces (w_db w) (wallet_hex e) = Some n"
  shows "\<exists>n0. map x_Nonce (db_executions (w_db w)) = [n0..n - 1]"
proof -
  from reach_inv [OF assms(1,2)] have "sys_inv e w" by simp
  then show ?thesis by (cases rule: wallet_nonces) (use assms(3) in auto)
qed

theorem nonces_gap_free_witness:
  "\<exists>n0. map x_Nonce (db_executions (w_db demo_settled)) = [n0..8 - 1]"
  by (rule nonces_gap_free [OF demo_executor_ok demo_settled_reach demo_settled_facts(3)])

text \<open>
  C6. A payment never disappears; from any state on, its identity, idempotency key, amount and mode
  are fixed, its status moves only along ROUTED, PROCESSING, SUBMITTED to COMPLETED or FAILED (the
  arrows the code has), and once it is terminal no column of the row changes any more.
\<close>

theorem payment_lifecycle:
  assumes "executor_ok e" "reach e s" "(sys_step (entry e) lock_loss)\<^sup>*\<^sup>* s s'"
    "r \<in> set (db_payments (w_db (fst s)))"
  shows "\<exists>r' \<in> set (db_payments (w_db (fst s'))). pr_id r' = pr_id r \<and> pr_idempotency_key r' = pr_idempotency_key r \<and>
    pr_amount r' = pr_amount r \<and> pr_execution_mode r' = pr_execution_mode r \<and>
    advances\<^sup>*\<^sup>* (pr_status r) (pr_status r') \<and> (terminal (pr_status r) \<longrightarrow> r' = r)"
  using evolves_payment [OF reach_evolves [OF assms(1-3)] assms(4)]
  by (auto simp: pay_le_def status_le_rtranclp intro!: bexI)

theorem payment_lifecycle_witness:
  "\<exists>r' \<in> set (db_payments (w_db demo_settled)). pr_id r' = demo_id 0 \<and> advances\<^sup>*\<^sup>* SUBMITTED (pr_status r')"
  using payment_lifecycle [OF demo_executor_ok demo_submitted_reach demo_steps_settled, of "demo_row 0 ''k1'' ExecutionModeTestnet SUBMITTED"]
  by (auto simp: demo_submitted_facts demo_row_def)

text \<open>
  C8. Creating a payment and creating its event are one step: in every reachable state the outbox
  holds exactly one event per payment, in the same order, and no two payments share an identifier
  or an idempotency key.
\<close>

theorem one_event_per_payment:
  assumes "executor_ok e" "reach e (w, ts)"
  shows "map ob_payment_id (db_outbox (w_db w)) = map pr_id (db_payments (w_db w)) \<and>
    distinct (map pr_id (db_payments (w_db w))) \<and> distinct (map pr_idempotency_key (db_payments (w_db w)))"
  using reach_inv [OF assms] by (simp add: sys_inv_def keys_ok_def)

theorem one_event_per_payment_witness:
  "map ob_payment_id (db_outbox (w_db demo_settled)) = map pr_id (db_payments (w_db demo_settled)) \<and>
   length (db_payments (w_db demo_settled)) = 2"
  using one_event_per_payment [OF demo_executor_ok demo_settled_reach] by (simp add: demo_settled_facts)

text \<open>
  C9. An outbox row is marked published only after the broker acknowledged exactly its payload under
  its payment's key, whatever publishers race for it and whichever transactions the server ends:
  no event is ever dropped as delivered without having been delivered.
\<close>

theorem published_only_after_ack:
  assumes "executor_ok e" "reach e (w, ts)" "x \<in> set (db_outbox (w_db w))" "ob_published_at x \<noteq> None"
  shows "EvPublish (ob_payment_id x) (ob_payload x) (Inr ()) \<in> set (w_trace w) \<and> ev_PaymentID (ob_payload x) = ob_payment_id x"
proof -
  have "out_ok w x" using reach_inv [OF assms(1,2)] assms(3) by (simp add: sys_inv_def)
  with assms(4) show ?thesis by (simp add: out_ok_def)
qed

theorem published_only_after_ack_witness:
  "EvPublish (demo_id 0) (demo_event (demo_id 0)) (Inr ()) \<in> set (w_trace demo_settled)"
  using published_only_after_ack [OF demo_executor_ok demo_settled_reach, of "demo_outbox 0 (Some 0)"]
  by (simp add: demo_settled_facts demo_outbox_def)

text \<open>
  C10. A simulated payment that has ended has the outcome its identifier determines and a completion
  time, no matter which of the handler, a redelivery and the recovery sweeps ended it; it never
  was SUBMITTED.
\<close>

theorem simulated_outcome_determined:
  assumes "executor_ok e" "reach e (w, ts)" "r \<in> set (db_payments (w_db w))"
    "pr_execution_mode r = ExecutionModeSimulated"
  shows "pr_status r \<noteq> SUBMITTED \<and> (terminal (pr_status r) \<longrightarrow>
    pr_status r = (if r_Success (Execute (pr_id r)) then COMPLETED else FAILED) \<and> pr_completed_at r \<noteq> None)"
proof -
  have "row_ok r" using inv_row [OF reach_inv [OF assms(1,2)]] assms(3) by simp
  with assms(4) show ?thesis by (simp add: row_ok_def outcome_status_def)
qed

theorem simulated_outcome_determined_witness:
  "\<exists>r \<in> set (db_payments (w_db demo_settled)). pr_id r = demo_id 16 \<and> pr_execution_mode r = ExecutionModeSimulated \<and> terminal (pr_status r) \<and>
     pr_status r = (if r_Success (Execute (demo_id 16)) then COMPLETED else FAILED) \<and> pr_completed_at r \<noteq> None"
proof -
  let ?r = "demo_row 16 ''k2'' ExecutionModeSimulated (outcome_status (demo_id 16))"
  have r: "?r \<in> set (db_payments (w_db demo_settled))" "pr_execution_mode ?r = ExecutionModeSimulated" "pr_id ?r = demo_id 16" "terminal (pr_status ?r)"
    by (simp add: demo_settled_facts) (simp_all add: demo_row_def outcome_status_def)
  with simulated_outcome_determined [OF demo_executor_ok demo_settled_reach r(1,2)] show ?thesis by metis
qed

text \<open>
  C7. A testnet payment is SUBMITTED or COMPLETED only with an execution of its own whose signed
  transaction was broadcast; it is COMPLETED only after the bridge reported, for the hash of a
  transaction made for that execution, that the transfer was filled.
\<close>

theorem testnet_settlement_evidence:
  assumes "executor_ok e" "reach e (w, ts)" "r \<in> set (db_payments (w_db w))" "pr_execution_mode r = ExecutionModeTestnet"
    "pr_status r = SUBMITTED \<or> pr_status r = COMPLETED"
  shows "\<exists>x \<in> set (db_executions (w_db w)). x_PaymentID x = pr_id r \<and> x_BroadcastAt x \<noteq> None \<and> x_SignedTxHash x \<noteq> None \<and>
    (pr_status r = COMPLETED \<longrightarrow> (\<exists>stx req res. tx_for e w x stx \<and>
       sr_OriginTxHash req = g_HashHex (ex_Geth e) (g_Hash (ex_Geth e) stx) \<and>
       EvStatus (x_BridgeProvider x) req (Inr res) \<in> set (w_trace w) \<and> sr_State res = StateFilled))"
proof -
  have "status_ok e w r" using inv_row [OF reach_inv [OF assms(1,2)]] assms(3) by simp
  with assms(4,5) show ?thesis unfolding status_ok_def broadcast_for_def filled_seen_def by blast
qed

theorem testnet_settlement_evidence_witness:
  "\<exists>x \<in> set (db_executions (w_db demo_settled)). x_PaymentID x = demo_id 0 \<and> x_BroadcastAt x \<noteq> None \<and>
     (\<exists>req res. EvStatus (x_BridgeProvider x) req (Inr res) \<in> set (w_trace demo_settled) \<and> sr_State res = StateFilled)"
proof -
  let ?r = "demo_row 0 ''k1'' ExecutionModeTestnet COMPLETED"
  have r: "?r \<in> set (db_payments (w_db demo_settled))" "pr_execution_mode ?r = ExecutionModeTestnet"
    "pr_status ?r = COMPLETED" "pr_id ?r = demo_id 0"
    by (simp add: demo_settled_facts) (simp_all add: demo_row_def)
  with testnet_settlement_evidence [OF demo_executor_ok demo_settled_reach r(1,2)] show ?thesis by metis
qed

text \<open>
  C11. At most one execution is ever created per payment, and only for testnet payments.
\<close>

theorem one_execution_per_payment:
  assumes "executor_ok e" "reach e (w, ts)"
  shows "distinct (map x_PaymentID (db_executions (w_db w))) \<and>
    (\<forall>x \<in> set (db_executions (w_db w)). \<exists>r \<in> set (db_payments (w_db w)).
      pr_id r = x_PaymentID x \<and> pr_execution_mode r = ExecutionModeTestnet)"
  using reach_inv [OF assms] by (auto simp: sys_inv_def keys_ok_def exec_ok_def)

theorem one_execution_per_payment_witness:
  "distinct (map x_PaymentID (db_executions (w_db demo_settled))) \<and> length (db_executions (w_db demo_settled)) = 1"
  using one_execution_per_payment [OF demo_executor_ok demo_settled_reach] by (simp add: demo_settled_facts)

end
