(* ===== verification/Behaviour.thy ===== *)
theory Behaviour
  imports Safety
begin

text \<open>
  What the operations do: claims and redeliveries, the completion of simulated payments, recovery
  after a crash.
\<close>

section \<open>Claiming a payment\<close>

lemma claim_TrueD:
  assumes "run (ClaimPayment pid) is w = (Some (Inr (True, m)), w', is')"
  obtains i r where "is = i # is'" "uuid_in pid = Some (pr_id r)" "r \<in> set (payments w)" "pr_status r = ROUTED"
    "w' = w\<lparr>w_db := (w_db w)\<lparr>db_payments := sql_update (\<lambda>q. pr_id q = pr_id r \<and> pr_status q = ROUTED)
          (\<lambda>q. q\<lparr>pr_status := PROCESSING, pr_updated_at := e_now i\<rparr>) (payments w)\<rparr>\<rparr>"
proof -
  from assms obtain i js where i: "is = i # js" "ok_env i"
    by (cases "is") (auto simp: ClaimPayment_def run_tryp run_sql sql_reply_def split: db_fault.splits)
  with assms obtain u where u: "uuid_in pid = Some u"
    by (cases "uuid_in pid") (auto simp: ClaimPayment_def run_tryp run_sql_ok transition_def uuid_arg_def)
  with assms i obtain r where r: "sql_row (sql_select (\<lambda>q. pr_id q = u \<and> pr_status q = ROUTED) (payments w)) = Some r"
    by (auto simp: ClaimPayment_def run_tryp run_transition_ok split: option.splits)
  with assms i u have "js = is'" "w' = w\<lparr>w_db := (w_db w)\<lparr>db_payments := sql_update (\<lambda>q. pr_id q = u \<and> pr_status q = ROUTED)
          (\<lambda>q. q\<lparr>pr_status := PROCESSING, pr_updated_at := e_now i\<rparr>) (payments w)\<rparr>\<rparr>"
    by (auto simp: ClaimPayment_def run_tryp run_transition_ok)
  with sql_row_select_Some [OF r] u i that [of i r] show ?thesis by auto
qed

text \<open>
  C22. A claim is exclusive: once one process has claimed a payment, no claim of it by any process
  succeeds ever again, whatever happens in between and whatever form of the identifier is used.
\<close>

theorem claim_exclusive:
  assumes "executor_ok e" "reach e (w, ts)" "run (ClaimPayment pid) is w = (Some (Inr (True, m)), w', is')"
    "(sys_step (entry e) lock_loss)\<^sup>*\<^sup>* (w', ts) (w'', ts'')" "uuid_in pid' = uuid_in pid"
  shows "run_result (ClaimPayment pid') js w'' \<noteq> Some (Inr (True, m'))"
proof
  assume again: "run_result (ClaimPayment pid') js w'' = Some (Inr (True, m'))"
  have inv: "sys_inv e w" using reach_inv [OF assms(1,2)] by simp
  note sys = run_in_system [OF assms(1,2) safe_ClaimPayment [OF inv] assms(3,4)]
  obtain i :: env and r where r: "uuid_in pid = Some (pr_id r)" "r \<in> set (payments w)" "pr_status r = ROUTED"
    and w': "w' = w\<lparr>w_db := (w_db w)\<lparr>db_payments := sql_update (\<lambda>q. pr_id q = pr_id r \<and> pr_status q = ROUTED)
          (\<lambda>q. q\<lparr>pr_status := PROCESSING, pr_updated_at := e_now i\<rparr>) (payments w)\<rparr>\<rparr>"
    using assms(3) by (elim claim_TrueD)
  let ?r = "r\<lparr>pr_status := PROCESSING, pr_updated_at := e_now i\<rparr>"
  have "?r \<in> set (payments w')"
    using in_sql_update_key [OF r(2), of "\<lambda>q. pr_id q = pr_id r \<and> pr_status q = ROUTED"] r(3) by (simp add: w')
  from evolves_payment [OF sys(4) this] obtain q where
    q: "q \<in> set (payments w'')" "pr_id q = pr_id r" "pr_status q \<noteq> ROUTED" by (auto simp: pay_le_def)
  from again obtain w3 js' where "run (ClaimPayment pid') js w'' = (Some (Inr (True, m')), w3, js')"
    by (cases "run (ClaimPayment pid') js w''") (auto simp: run_result_def)
  then obtain q' where "uuid_in pid' = Some (pr_id q')" "q' \<in> set (payments w'')" "pr_status q' = ROUTED"
    by (elim claim_TrueD)
  moreover from this q r(1) assms(5) have "pr_id q' = pr_id q" by simp
  moreover have "distinct (map pr_id (payments w''))" using keys_okD [OF sys(3)] by (simp add: keys_ok_def)
  ultimately have "q' = q" using q(1) distinct_map_eqD by metis
  with q(3) \<open>pr_status q' = ROUTED\<close> show False by simp
qed


lemma demo_created_facts:
  "payments demo_created = [demo_row 0 ''k1'' ExecutionModeTestnet ROUTED, demo_row 16 ''k2'' ExecutionModeSimulated ROUTED]"
proof -
  obtain m where eq: "demo_created = \<lparr>w_db = demo_db [demo_row 0 ''k1'' ExecutionModeTestnet ROUTED,
       demo_row 16 ''k2'' ExecutionModeSimulated ROUTED] [demo_quote_row] [] 7 [demo_outbox 0 None, demo_outbox 16 None] 0,
       w_trace = [], w_met = m\<rparr>"
    using demo_created_eval by blast
  show ?thesis unfolding eq by (simp add: demo_db_def)
qed

lemma demo_created_inv: "sys_inv demo_executor demo_created"
  using reach_inv [OF demo_executor_ok demo_created_reach] by simp

theorem claim_exclusive_witness:
  "run_result (ClaimPayment (demo_id 16)) [demo_env 0] demo_created = Some (Inr (True, ExecutionModeSimulated)) \<and>
   run_result (ClaimPayment (demo_id 16)) [demo_env 0] (run_world (ClaimPayment (demo_id 16)) [demo_env 0] demo_created)
     \<noteq> Some (Inr (True, ExecutionModeSimulated))"
proof -
  let ?r = "demo_row 16 ''k2'' ExecutionModeSimulated ROUTED"
  have "?r \<in> set (payments demo_created)" "pr_id ?r = demo_id 16" "pr_status ?r = ROUTED"
    "pr_execution_mode ?r = ExecutionModeSimulated" by (simp add: demo_created_facts) (simp_all add: demo_row_def)
  then have run: "run (ClaimPayment (demo_id 16)) [demo_env 0] demo_created =
      (Some (Inr (True, ExecutionModeSimulated)), run_world (ClaimPayment (demo_id 16)) [demo_env 0] demo_created, [])"
    using run_ClaimPayment_ok [OF demo_env_sel(2) demo_created_inv, of ?r 0 "[]"] by (simp add: run_world_def)
  from claim_exclusive [OF demo_executor_ok demo_created_reach run rtranclp.rtrancl_refl refl] run show ?thesis
    by (simp add: run_result_def)
qed

text \<open>
  A redelivered event is a no-op: when the payment was already claimed, the consumer commits the
  offset and neither the database nor the outside world is touched.
\<close>

lemma redelivery_no_op:
  assumes "executor_ok e" "reach e (w, ts)" "ok_env i" "r \<in> set (payments w)" "pr_status r \<noteq> ROUTED"
    "ev_PaymentID evt = pr_id r"
  shows "run_result (consume_message po (Some evt)) (i # is) w = Some True \<and>
    w_db (run_world (consume_message po (Some evt)) (i # is) w) = w_db w \<and>
    w_trace (run_world (consume_message po (Some evt)) (i # is) w) = w_trace w"
proof -
  have inv: "sys_inv e w" using reach_inv [OF assms(1,2)] by simp
  have "sys_inv e (w\<lparr>w_met := m\<rparr>)" for m using inv by simp
  then have "run (ClaimPayment (pr_id r)) (i # is) (w\<lparr>w_met := m\<rparr>) = (Some (Inr (False, '''')), w\<lparr>w_met := m\<rparr>, is)" for m
    using run_ClaimPayment_ok [OF assms(3), of e "w\<lparr>w_met := m\<rparr>" r "is"] assms(4,5) by simp
  then show ?thesis
    by (simp add: run_result_def run_world_def consume_message_def HandleRoutedPayment_def run_tryp run_bindp Inc_def assms(6))
qed

text \<open>
  C26. Handling the event of a freshly routed simulated payment ends it in one delivery: the offset is
  committed, the payment's row takes the outcome its identifier determines and the completion time,
  and no other row of the table changes.
\<close>

theorem simulated_payment_handled:
  assumes "executor_ok e" "reach e (w, ts)" "ok_env i" "ok_env j" "r \<in> set (payments w)" "pr_status r = ROUTED"
    "pr_execution_mode r = ExecutionModeSimulated" "ev_PaymentID evt = pr_id r"
  shows "run_result (consume_message po (Some evt)) (i # j # is) w = Some True \<and>
    payments (run_world (consume_message po (Some evt)) (i # j # is) w) =
      map (\<lambda>q. if q = r then r\<lparr>pr_status := outcome_status (pr_id r), pr_completed_at := Some (e_now j), pr_updated_at := e_now j\<rparr>
                else q) (payments w)"
proof -
  have inv: "sys_inv e w" using reach_inv [OF assms(1,2)] by simp
  have "distinct (map pr_id (payments w))" using keys_okD [OF inv] by (simp add: keys_ok_def)
  then have key: "pr_id q = pr_id r \<longleftrightarrow> q = r" if "q \<in> set (payments w)" for q
    using that assms(5) distinct_map_eqD by metis
  define m where "m = (w_met w)((''EventsConsumed'', []) := Suc (w_met w (''EventsConsumed'', [])))"
  let ?c = "\<lambda>q. pr_id q = pr_id r \<and> pr_status q = ROUTED"
  let ?r = "r\<lparr>pr_status := PROCESSING, pr_updated_at := e_now i\<rparr>"
  let ?w1 = "w\<lparr>w_met := m, w_db := (w_db w)\<lparr>db_payments := sql_update ?c (\<lambda>q. q\<lparr>pr_status := PROCESSING, pr_updated_at := e_now i\<rparr>) (payments w)\<rparr>\<rparr>"
  have claim: "run (ClaimPayment (pr_id r)) (i # j # is) (w\<lparr>w_met := m\<rparr>) = (Some (Inr (True, ExecutionModeSimulated)), ?w1, j # is)"
    using run_ClaimPayment_ok [OF assms(3), of e "w\<lparr>w_met := m\<rparr>" r "j # is"] inv assms(5,6,7) by simp
  have inv1: "sys_inv e ?w1"
    using life.safe_run [OF safe_ClaimPayment _ claim, of e] inv by simp
  have "?r \<in> set (payments ?w1)"
    using in_sql_update_key [OF assms(5), of ?c] assms(6) by simp
  from run_CompletePayment_ok [OF assms(4) inv1 this, of "outcome_status (pr_id r)" "is"]
  have complete: "run (CompletePayment (pr_id r) (outcome_status (pr_id r))) (j # is) ?w1 = (Some (Inr (Some (pr_created_at r))),
     ?w1\<lparr>w_db := (w_db ?w1)\<lparr>db_payments := sql_update (\<lambda>q. pr_id q = pr_id r \<and> pr_status q = PROCESSING)
          (\<lambda>q. q\<lparr>pr_status := outcome_status (pr_id r), pr_completed_at := Some (e_now j), pr_updated_at := e_now j\<rparr>) (payments ?w1)\<rparr>\<rparr>, is)"
    by simp
  have two: "sql_update (\<lambda>q. pr_id q = pr_id r \<and> pr_status q = PROCESSING)
          (\<lambda>q. q\<lparr>pr_status := outcome_status (pr_id r), pr_completed_at := Some (e_now j), pr_updated_at := e_now j\<rparr>)
          (sql_update ?c (\<lambda>q. q\<lparr>pr_status := PROCESSING, pr_updated_at := e_now i\<rparr>) (payments w)) =
      map (\<lambda>q. if q = r then r\<lparr>pr_status := outcome_status (pr_id r), pr_completed_at := Some (e_now j), pr_updated_at := e_now j\<rparr>
                else q) (payments w)"
    using key assms(6) by (auto simp: sql_update_def)
  show ?thesis
    using claim complete two
    by (simp add: run_result_def run_world_def consume_message_def HandleRoutedPayment_def run_tryp run_bindp Inc_def Observe_def
        Let_def count_finished_def assms(8) flip: m_def)
qed


theorem simulated_payment_handled_witness:
  "run_result (consume_message demo_processor (Some (demo_event (demo_id 16)))) [demo_env 0, demo_env 0] demo_created = Some True"
  using simulated_payment_handled [OF demo_executor_ok demo_created_reach demo_env_sel(2) demo_env_sel(2),
      of "demo_row 16 ''k2'' ExecutionModeSimulated ROUTED" "demo_event (demo_id 16)" demo_processor 0 0 "[]"]
  by (simp add: demo_created_facts demo_event_def demo_row_def)

section \<open>Recovery\<close>

lemma recover_one_result: "ok_env i \<Longrightarrow> \<exists>n w'. run (recover_one pid c) (i # is) w = (Some n, w', is)"
  by (simp add: recover_one_def run_tryp CompletePayment_def run_sql count_finished_def run_bindp Inc_def Observe_def Let_def
      split: sum.splits option.splits prod.splits)

text \<open>One turn of the sweep leaves the payment terminal, with the outcome its identifier determines.\<close>

lemma run_recover_one:
  assumes "ok_env i" "sys_inv e w" "r \<in> set (payments w)" "pr_execution_mode r = ExecutionModeSimulated" "pr_status r \<noteq> ROUTED"
  obtains n w' where "run (recover_one (pr_id r) c) (i # is) w = (Some n, w', is)" "sys_inv e w'" "evolves w w'"
    "\<exists>q \<in> set (payments w'). pr_id q = pr_id r \<and> pr_status q = outcome_status (pr_id r)"
proof -
  obtain n w' where run: "run (recover_one (pr_id r) c) (i # is) w = (Some n, w', is)"
    using recover_one_result [OF assms(1)] by blast
  have "known_mode w (pr_id r) ExecutionModeSimulated" using assms(3,4) by (auto simp: known_mode_def)
  from life.safe_run [OF safe_recover_one [OF assms(2) uuid_in_idem [OF assms(2,3)] this] assms(2) run]
  have ev: "sys_inv e w'" "evolves w w'" by auto
  have "\<exists>q \<in> set (payments w'). pr_id q = pr_id r \<and> pr_status q = outcome_status (pr_id r)"
  proof (cases "pr_status r = PROCESSING")
    case True
    let ?u = "\<lambda>q. q\<lparr>pr_status := outcome_status (pr_id r), pr_completed_at := Some (e_now i), pr_updated_at := e_now i\<rparr>"
    from run run_CompletePayment_ok [OF assms(1-3), of "outcome_status (pr_id r)" "is"] True
    have "payments w' = sql_update (\<lambda>q. pr_id q = pr_id r \<and> pr_status q = PROCESSING) ?u (payments w)"
      by (auto simp: recover_one_def run_tryp count_finished_def run_bindp Inc_def Observe_def Let_def split: if_splits)
    with in_sql_update_key [OF assms(3), of "\<lambda>q. pr_id q = pr_id r \<and> pr_status q = PROCESSING" ?u] True
    show ?thesis by (intro bexI [of _ "?u r"]) simp_all
  next
    case False
    have "row_ok r" using inv_row [OF assms(2,3)] by simp
    with False assms(4,5) have s: "pr_status r = outcome_status (pr_id r)" "terminal (pr_status r)"
      by (cases "pr_status r"; simp add: row_ok_def)+
    from evolves_payment [OF ev(2) assms(3)] s show ?thesis by (auto simp: pay_le_def)
  qed
  with run ev that show ?thesis by blast
qed

lemma run_recover_all:
  assumes "list_all ok_env is" "length ids \<le> length is" "sys_inv e w"
    "\<forall>u \<in> set ids. \<exists>r \<in> set (payments w). pr_id r = u \<and> pr_execution_mode r = ExecutionModeSimulated \<and> pr_status r \<noteq> ROUTED"
  shows "\<exists>n w' is'. run (foldp recover_one ids c) is w = (Some n, w', is') \<and> sys_inv e w' \<and> evolves w w' \<and>
    (\<forall>u \<in> set ids. \<exists>q \<in> set (payments w'). pr_id q = u \<and> pr_status q = outcome_status u)"
  using assms
proof (induction ids arbitrary: "is" w c)
  case Nil
  then show ?case by auto
next
  case (Cons u ids)
  from Cons.prems(1,2) obtain i js where js: "is = i # js" "ok_env i" "list_all ok_env js" "length ids \<le> length js"
    by (cases "is") auto
  from Cons.prems(4) obtain r where r: "r \<in> set (payments w)" "pr_id r = u" "pr_execution_mode r = ExecutionModeSimulated"
    "pr_status r \<noteq> ROUTED" by auto
  from run_recover_one [OF js(2) Cons.prems(3) r(1,3,4)] obtain n w1 where
    w1: "run (recover_one u c) (i # js) w = (Some n, w1, js)" "sys_inv e w1" "evolves w w1"
      "\<exists>q \<in> set (payments w1). pr_id q = u \<and> pr_status q = outcome_status u" unfolding r(2) by metis
  have "\<exists>r \<in> set (payments w1). pr_id r = v \<and> pr_execution_mode r = ExecutionModeSimulated \<and> pr_status r \<noteq> ROUTED"
    if v: "v \<in> set ids" for v
  proof -
    from v Cons.prems(4) obtain q where q: "q \<in> set (payments w)" "pr_id q = v" "pr_execution_mode q = ExecutionModeSimulated"
      "pr_status q \<noteq> ROUTED" by auto
    from evolves_payment [OF w1(3) q(1)] q show ?thesis
      by (elim bexE, intro bexI) (cases "pr_status q"; auto simp: pay_le_def)+
  qed
  then obtain k w' is' where w': "run (foldp recover_one ids n) js w1 = (Some k, w', is')" "sys_inv e w'" "evolves w1 w'"
    "\<forall>u \<in> set ids. \<exists>q \<in> set (payments w'). pr_id q = u \<and> pr_status q = outcome_status u"
    using Cons.IH [OF js(3,4) w1(2), of n] by blast
  from w1(4) obtain q where q: "q \<in> set (payments w1)" "pr_id q = u" "pr_status q = outcome_status u" by blast
  from evolves_payment [OF w'(3) q(1)] q have "\<exists>q \<in> set (payments w'). pr_id q = u \<and> pr_status q = outcome_status u"
    by (auto simp: pay_le_def)
  with w' w1 js(1) show ?case
    by (intro exI [of _ k] exI [of _ w'] exI [of _ is']) (auto simp: run_bindp intro: evolves_trans)
qed

text \<open>
  C27. The recovery sweep makes up for every crash between claiming a simulated payment and completing
  it: one sweep without database faults ends all stale simulated payments, each with the outcome
  the crashed handler would have given it.
\<close>

theorem recovery_sweep_finishes:
  assumes "executor_ok e" "reach e (w, ts)" "ok_env i" "list_all ok_env is" "length (payments w) \<le> length is"
    "r \<in> set (payments w)" "pr_execution_mode r = ExecutionModeSimulated" "pr_status r = PROCESSING"
    "pr_updated_at r < e_now i - st"
  shows "(\<exists>n. run_result (Recovery_SweepOnce st) (i # is) w = Some (Inr n)) \<and>
    (\<exists>q \<in> set (payments (run_world (Recovery_SweepOnce st) (i # is) w)).
       pr_id q = pr_id r \<and> pr_status q = outcome_status (pr_id r))"
proof -
  have inv: "sys_inv e w" using reach_inv [OF assms(1,2)] by simp
  let ?stale = "\<lambda>r. pr_status r = PROCESSING \<and> pr_execution_mode r = ExecutionModeSimulated \<and> pr_updated_at r < e_now i - st"
  define ids where "ids = map pr_id (shuffle (e_order i) (sql_select ?stale (payments w)))"
  have q: "run (StalePaymentIDs st) (i # is) w = (Some (Inr ids), w, is)"
    using assms(3) by (simp add: StalePaymentIDs_def wrapp_def run_bindp run_query_ok wrap_err_def ids_def)
  have "length (sql_select ?stale (payments w)) \<le> length is"
    using assms(5) length_filter_le [of ?stale "payments w"] unfolding sql_select_def by linarith
  then have len: "length ids \<le> length is" by (simp add: ids_def)
  have "\<forall>u \<in> set ids. \<exists>r \<in> set (payments w). pr_id r = u \<and> pr_execution_mode r = ExecutionModeSimulated \<and> pr_status r \<noteq> ROUTED"
    by (auto simp: ids_def sql_select_def)
  from run_recover_all [OF assms(4) len inv this, of 0] obtain n w' is' where
    "run (foldp recover_one ids 0) is w = (Some n, w', is')"
    "\<forall>u \<in> set ids. \<exists>q \<in> set (payments w'). pr_id q = u \<and> pr_status q = outcome_status u" by blast
  moreover have "pr_id r \<in> set ids" using assms(6-9) by (auto simp: ids_def sql_select_def)
  ultimately show ?thesis using q
    by (simp add: run_result_def run_world_def Recovery_SweepOnce_def run_tryp run_bindp)
qed


text \<open>The handler of the simulated payment crashes right after its claim.\<close>

definition demo_crashed :: world where
  "demo_crashed = run_world (voidp (consume_message demo_processor (Some (demo_event (demo_id 16))))) [demo_env 0] demo_created"

definition demo_late :: env where
  "demo_late = (demo_env 0)\<lparr>e_now := 100\<rparr>"

lemma demo_crashed_reach: "reach demo_executor (demo_crashed, [])"
  unfolding demo_crashed_def by (rule reachable_run [OF demo_created_reach demo_consume_entry])

lemma demo_crashed_facts:
  "payments demo_crashed = [demo_row 0 ''k1'' ExecutionModeTestnet ROUTED, demo_row 16 ''k2'' ExecutionModeSimulated PROCESSING]"
proof -
  obtain m where eq: "demo_created = \<lparr>w_db = demo_db [demo_row 0 ''k1'' ExecutionModeTestnet ROUTED,
       demo_row 16 ''k2'' ExecutionModeSimulated ROUTED] [demo_quote_row] [] 7 [demo_outbox 0 None, demo_outbox 16 None] 0,
       w_trace = [], w_met = m\<rparr>"
    using demo_created_eval by blast
  show ?thesis unfolding demo_crashed_def eq
    by (simp add: run_ops execute_ops CompletePayment_def count_finished_def demo_config demo_rows)
qed

theorem recovery_sweep_finishes_witness:
  "\<exists>q \<in> set (payments (run_world (Recovery_SweepOnce 30) [demo_late, demo_late, demo_late] demo_crashed)).
     pr_id q = demo_id 16 \<and> pr_status q = outcome_status (demo_id 16)"
  using recovery_sweep_finishes [OF demo_executor_ok demo_crashed_reach, of demo_late "[demo_late, demo_late]"
      "demo_row 16 ''k2'' ExecutionModeSimulated PROCESSING" 30]
  by (simp add: demo_crashed_facts demo_late_def) (simp add: demo_row_def)

end
