(* ===== verification/Store_Behaviour.thy ===== *)
theory Store_Behaviour
  imports Safety
begin

text \<open>
  What the store operations promise their callers: idempotent creation, all-or-nothing creation under
  every fault, nonce allocation, and the outbox.
\<close>

section \<open>Processes that only read\<close>

definition reads :: "'a pr \<Rightarrow> bool" where
  "reads p \<longleftrightarrow> (\<forall>is w. w_db (fst (snd (run p is w))) = w_db w)"

lemma reads_run: "reads p \<Longrightarrow> run p is w = (a, w', is') \<Longrightarrow> w_db w' = w_db w"
  unfolding reads_def by (metis fst_conv snd_conv)

lemma reads_Done [simp]: "reads (Done a)"
  by (simp add: reads_def)

lemma query_effect [simp]: "sql_effect (\<lambda>i d. map_sum id (\<lambda>a. (a, d)) (q i d)) i d = d"
  by (cases "q i d") (simp_all add: sql_effect_def split: db_fault.splits)

lemma reads_query [simp]: "reads (sql_query q)"
  by (simp add: reads_def sql_query_def run_sql split: list.splits)

lemma reads_bindp: "reads p \<Longrightarrow> (\<And>a. reads (k a)) \<Longrightarrow> reads (bindp p k)"
  unfolding reads_def by (simp add: run_bindp split: option.splits prod.splits) (metis fst_conv snd_conv)

lemma reads_tryp: "reads p \<Longrightarrow> (\<And>e. reads (h e)) \<Longrightarrow> (\<And>a. reads (k a)) \<Longrightarrow> reads (tryp p h k)"
  unfolding tryp_def by (rule reads_bindp) (auto split: sum.splits)

lemma reads_wrapp [simp]: "reads p \<Longrightarrow> reads (wrapp s p)"
  unfolding wrapp_def by (rule reads_bindp) auto

lemma reads_hopsForPayment [simp]: "reads (hopsForPayment pid)"
  by (simp add: hopsForPayment_def)

lemma reads_findByIdempotencyKey [simp]: "reads (findByIdempotencyKey p)"
  by (simp add: findByIdempotencyKey_def Let_def)

lemma reads_resolve_existing [simp]: "reads (resolve_existing p m)"
  by (auto simp: resolve_existing_def intro!: reads_tryp)

section \<open>Creating a payment\<close>

text \<open>The effect of one database action, under every fault: nothing, or the whole transaction.\<close>

lemma run_sql_effect:
  assumes "run (sql q) is w = (a, w', is')"
  shows "w_db w' = w_db w \<or> (\<exists>i x. q i (w_db w) = Inr (x, w_db w'))"
proof (cases "is")
  case Nil
  with assms show ?thesis by (simp add: run_sql)
next
  case (Cons i js)
  with assms have "w_db w' = sql_effect q i (w_db w)" by (auto simp: run_sql)
  with sql_effect_cases [of q i "w_db w"] show ?thesis by metis
qed

lemma insert_hops_Inr: "insert_hops pid hs t = Inr t' \<Longrightarrow> t' = t @ map (\<lambda>h. (pid, h)) hs"
  by (induction pid hs t arbitrary: t' rule: insert_hops.induct) (auto split: if_splits)

lemma insertPaymentQuotes_length: "insertPaymentQuotes i k pid qs t = Inr t' \<Longrightarrow> length t' = length t + length qs"
  by (induction i k pid qs t arbitrary: t' rule: insertPaymentQuotes.induct) (auto split: if_splits option.splits)

lemma CreateOrGetPayment_effect:
  assumes "run (CreateOrGetPayment p) is w = (a, w', is')"
  shows "w_db w' = w_db w \<or> (\<exists>i row. create_tx (p\<lparr>p_ExecutionMode := normalizeExecutionMode (p_ExecutionMode p)\<rparr>) i (w_db w)
     = Inr (Some row, w_db w'))"
proof -
  let ?p = "p\<lparr>p_ExecutionMode := normalizeExecutionMode (p_ExecutionMode p)\<rparr>"
  let ?lost = "tryp (wrapp ''rollback after lost race'' (sql_query (\<lambda>i d. Inr ()))) (\<lambda>e. Done (Inl e))
                     (\<lambda>_. tryp (findByIdempotencyKey ?p) (\<lambda>e. Done (Inl e))
                       (\<lambda>r. case r of
                          None \<Rightarrow> Done (Inl (Err ''idempotency key conflicted but no row found on re-read''))
                        | Some (existing, matches) \<Rightarrow> resolve_existing existing matches))"
  have lost: "reads ?lost" by (auto intro!: reads_tryp split: option.splits)
  let ?k = "\<lambda>c. case c of Some row \<Rightarrow> Done (Inr (Some (created_payment ?p row), Created)) | None \<Rightarrow> ?lost"
  have k: "reads (?k c)" for c using lost by (auto split: option.splits)
  have create: "w_db w2 = w_db w1 \<or> (\<exists>i row. create_tx ?p i (w_db w1) = Inr (Some row, w_db w2))"
    if run: "run (tryp (sql (create_tx ?p)) (\<lambda>e. Done (Inl e)) ?k) js w1 = (b, w2, js')" for js w1 b w2 js'
  proof -
    obtain c w3 js3 where r: "run (sql (create_tx ?p)) js w1 = (c, w3, js3)" by (cases "run (sql (create_tx ?p)) js w1")
    have "w_db w2 = w_db w3"
    proof (cases c)
      case None
      with run r show ?thesis by (simp add: run_tryp)
    next
      case (Some x)
      with run r reads_run [OF k] show ?thesis by (cases x) (simp_all add: run_tryp)
    qed
    moreover have "x = None \<Longrightarrow> w_db w3 = w_db w1" if "create_tx ?p i (w_db w1) = Inr (x, w_db w3)" for i x
      using create_txD [OF that] by (auto simp: Let_def)
    ultimately show ?thesis using run_sql_effect [OF r] by (metis option.exhaust)
  qed
  obtain c w1 js1 where f: "run (findByIdempotencyKey ?p) is w = (c, w1, js1)" by (cases "run (findByIdempotencyKey ?p) is w")
  have w1: "w_db w1 = w_db w" using reads_run [OF _ f] by simp
  show ?thesis
  proof (cases c)
    case None
    with assms f w1 show ?thesis by (simp add: CreateOrGetPayment_def Let_def run_tryp)
  next
    case (Some s)
    show ?thesis
    proof (cases s)
      case (Inl e)
      with Some assms f w1 show ?thesis by (simp add: CreateOrGetPayment_def Let_def run_tryp)
    next
      case (Inr x)
      show ?thesis
      proof (cases x)
        case None
        with Some Inr assms f have "run (tryp (sql (create_tx ?p)) (\<lambda>e. Done (Inl e)) ?k) js1 w1 = (a, w', is')"
          by (simp add: CreateOrGetPayment_def Let_def run_tryp [of "findByIdempotencyKey _"])
        from create [OF this] w1 show ?thesis by simp
      next
        case (Some y)
        obtain ex mt where "y = (ex, mt)" by (cases y)
        with Some Inr \<open>c = Some s\<close> assms f have "run (resolve_existing ex mt) js1 w1 = (a, w', is')"
          by (simp add: CreateOrGetPayment_def Let_def run_tryp [of "findByIdempotencyKey _"])
        from reads_run [OF _ this] w1 show ?thesis by simp
      qed
    qed
  qed
qed


text \<open>
  C24. Creating a payment is all or nothing under every fault, crash and lost reply: the database
  is left as it was, or it gained the ROUTED payment with the request's key, exactly the request's
  hops and quotes, and one unpublished outbox event for it, together.
\<close>

theorem create_all_or_nothing:
  "let d = w_db w; d' = w_db (run_world (CreateOrGetPayment p) is w) in
   d' = d \<or>
   (\<exists>r ob us. d' = d\<lparr>db_payments := db_payments d @ [r], db_hops := db_hops d @ map (\<lambda>h. (pr_id r, h)) (p_Hops p),
        db_quotes := db_quotes d @ us, db_outbox := db_outbox d @ [ob]\<rparr> \<and>
      pr_idempotency_key r = p_IdempotencyKey p \<and> pr_status r = ROUTED \<and> numeric_in 18 (p_Amount p) = Some (pr_amount r) \<and>
      length us = length (p_Quotes p) \<and> qr_payment_id ` set us \<subseteq> {pr_id r} \<and>
      ob_payment_id ob = pr_id r \<and> ev_PaymentID (ob_payload ob) = pr_id r \<and> ob_published_at ob = None)"
proof -
  let ?p = "p\<lparr>p_ExecutionMode := normalizeExecutionMode (p_ExecutionMode p)\<rparr>"
  obtain a w' is' where run: "run (CreateOrGetPayment p) is w = (a, w', is')" by (cases "run (CreateOrGetPayment p) is w")
  then have w': "run_world (CreateOrGetPayment p) is w = w'" by (simp add: run_world_def)
  from CreateOrGetPayment_effect [OF run] consider "w_db w' = w_db w"
    | i row where "create_tx ?p i (w_db w) = Inr (Some row, w_db w')" by blast
  then show ?thesis
  proof cases
    case 1
    then show ?thesis by (simp add: w')
  next
    case (2 i row)
    from create_txD [OF 2] obtain amt hops quotes where
      r: "row = new_payment_row i ?p amt" "numeric_in 18 (p_Amount p) = Some amt"
        "insert_hops (pr_id row) (p_Hops p) (db_hops (w_db w)) = Inr hops"
        "insertPaymentQuotes i 2 (pr_id row) (p_Quotes p) (db_quotes (w_db w)) = Inr quotes" and
      d': "w_db w' = (w_db w)\<lparr>db_payments := payments w @ [row], db_hops := hops, db_quotes := quotes,
             db_outbox := db_outbox (w_db w) @ [new_outbox_row i (pr_id row)]\<rparr>"
      by (auto simp: Let_def)
    obtain us where us: "quotes = db_quotes (w_db w) @ us" "\<forall>q \<in> set us. qr_payment_id q = pr_id row"
      using insertPaymentQuotes_appends [OF r(4)] by blast
    have "length us = length (p_Quotes p)" using insertPaymentQuotes_length [OF r(4)] us(1) by simp
    with d' us r(2) insert_hops_Inr [OF r(3)] show ?thesis
      unfolding w' Let_def
      by (intro disjI2 exI [of _ row] exI [of _ "new_outbox_row i (pr_id row)"] exI [of _ us])
         (auto simp: r(1) new_payment_row_def new_outbox_row_def)
  qed
qed

text \<open>The amount of a row compares equal to the text it was stored from, when no digit was rounded away.\<close>

lemma numeric_equal_stored:
  assumes "numeric_in 18 s = Some amt" "length (frac_part s) \<le> 18"
  shows "numeric_equal amt s = Some True"
proof -
  have mag: "numeric_magnitude (18 + length (frac_part t)) t = map_option (\<lambda>n. n * 10 ^ length (frac_part t)) (numeric_magnitude 18 t)"
    if "length (frac_part t) \<le> 18" for t
  proof -
    let ?k = "length (frac_part t)"
    have z: "replicate 18 (CHR ''0'') = replicate (18 - ?k) (CHR ''0'') @ replicate ?k (CHR ''0'')"
      using that by (simp flip: replicate_add)
    have "nat_of_digits (int_part t @ frac_part t @ replicate 18 (CHR ''0'')) =
        nat_of_digits (int_part t @ frac_part t @ replicate (18 - ?k) (CHR ''0'')) * 10 ^ ?k"
      unfolding z by (metis (no_types, lifting) append_assoc add.right_neutral length_replicate nat_of_digits_append nat_of_digits_zeros)
    then show ?thesis using that by (simp add: numeric_magnitude_def Let_def take_pad)
  qed
  have tl: "frac_part (tl s) = frac_part s" if "s \<noteq> []" "hd s = CHR ''-'' \<or> hd s = CHR ''+''"
    using that by (cases s) (auto simp: frac_part_def split: option.splits)
  show ?thesis
    using assms mag [of s] mag [of "tl s"] tl
    by (auto simp: numeric_equal_def Let_def numeric_in_def split: if_splits)
qed

text \<open>Looking a request up against the row that carries its key.\<close>

definition same_request :: "Payment \<Rightarrow> payment_row \<Rightarrow> bool" where
  "same_request p r \<longleftrightarrow> pr_source_chain r = p_SourceChain p \<and> pr_destination_chain r = p_DestinationChain p \<and>
     pr_asset r = p_Asset p \<and> numeric_equal (pr_amount r) (p_Amount p) = Some True \<and>
     pr_execution_mode r = normalizeExecutionMode (p_ExecutionMode p)"

lemma normalizeExecutionMode_idem [simp]: "normalizeExecutionMode (normalizeExecutionMode m) = normalizeExecutionMode m"
  by (simp add: normalizeExecutionMode_def)

lemma run_find_existing:
  assumes "ok_env i" "sys_inv e w" "r \<in> set (payments w)" "pr_idempotency_key r = p_IdempotencyKey p"
    "numeric_equal 0 (p_Amount p) \<noteq> None"
  shows "run (findByIdempotencyKey p) (i # is) w = (Some (Inr (Some (scan_payment r, same_request p r))), w, is)"
proof -
  have "distinct (map pr_idempotency_key (payments w))" using keys_okD [OF assms(2)] by (simp add: keys_ok_def)
  from sql_row_key [OF this assms(3)] assms(1,4,5) show ?thesis
    by (auto simp: findByIdempotencyKey_def Let_def wrapp_def run_bindp run_query_ok wrap_err_def same_request_def)
qed

lemma run_create_existing:
  assumes "ok_env i" "ok_env j" "sys_inv e w" "r \<in> set (payments w)" "pr_idempotency_key r = p_IdempotencyKey p"
    "numeric_equal 0 (p_Amount p) \<noteq> None"
  shows "run (CreateOrGetPayment p) (i # j # is) w =
    (if same_request p r
     then (Some (Inr (Some ((scan_payment r)\<lparr>p_Hops := hops_of (pr_id r) (w_db w)\<rparr>), Replayed)), w, is)
     else (Some (Inr (None, Conflict)), w, j # is))"
proof -
  let ?p = "p\<lparr>p_ExecutionMode := normalizeExecutionMode (p_ExecutionMode p)\<rparr>"
  have find: "run (findByIdempotencyKey ?p) (i # js) w = (Some (Inr (Some (scan_payment r, same_request p r))), w, js)" for js
    using run_find_existing [OF assms(1,3,4), of ?p js] assms(5,6) by (simp add: same_request_def)
  have "run (hopsForPayment (pr_id r)) (j # is) w = (Some (Inr (hops_of (pr_id r) (w_db w))), w, is)"
    using assms(2) uuid_in_idem [OF assms(3,4)]
    by (simp add: hopsForPayment_def wrapp_def run_bindp run_query_ok wrap_err_def uuid_arg_def)
  with find [of "j # is"] show ?thesis
    by (simp add: CreateOrGetPayment_def Let_def run_tryp resolve_existing_def) (simp add: scan_payment_def)
qed


lemma CreatedD:
  assumes "run (CreateOrGetPayment p) is w = (Some (Inr (Some pay, Created)), w', is')"
  shows "\<exists>i row. create_tx (p\<lparr>p_ExecutionMode := normalizeExecutionMode (p_ExecutionMode p)\<rparr>) i (w_db w) = Inr (Some row, w_db w') \<and>
    pay = created_payment (p\<lparr>p_ExecutionMode := normalizeExecutionMode (p_ExecutionMode p)\<rparr>) row"
proof -
  let ?p = "p\<lparr>p_ExecutionMode := normalizeExecutionMode (p_ExecutionMode p)\<rparr>"
  have replay: "run (resolve_existing ex mt) js v \<noteq> (Some (Inr (Some pay, Created)), v', js')" for ex mt js v v' js'
    by (auto simp: resolve_existing_def run_tryp split: if_splits option.splits sum.splits prod.splits)
  have lost: "run (tryp (findByIdempotencyKey ?p) (\<lambda>e. Done (Inl e)) (\<lambda>r. case r of
                          None \<Rightarrow> Done (Inl (Err ''idempotency key conflicted but no row found on re-read''))
                        | Some (existing, matches) \<Rightarrow> resolve_existing existing matches)) js v \<noteq> (Some (Inr (Some pay, Created)), v', js')" for js v v' js'
    using replay by (auto simp: run_tryp split: option.splits sum.splits prod.splits)
  obtain f w1 js where f: "run (findByIdempotencyKey ?p) is w = (f, w1, js)" by (cases "run (findByIdempotencyKey ?p) is w")
  have w1: "w_db w1 = w_db w" using reads_run [OF _ f] by simp
  from assms f have "f = Some (Inr None)"
    using replay by (auto simp: CreateOrGetPayment_def Let_def run_tryp [of "findByIdempotencyKey _"] split: option.splits sum.splits prod.splits)
  with assms f have tx: "run (tryp (sql (create_tx ?p)) (\<lambda>e. Done (Inl e))
              (\<lambda>c. case c of
                 Some row \<Rightarrow> Done (Inr (Some (created_payment ?p row), Created))
               | None \<Rightarrow>
                   tryp (wrapp ''rollback after lost race'' (sql_query (\<lambda>i d. Inr ()))) (\<lambda>e. Done (Inl e))
                     (\<lambda>_. tryp (findByIdempotencyKey ?p) (\<lambda>e. Done (Inl e))
                       (\<lambda>r. case r of
                          None \<Rightarrow> Done (Inl (Err ''idempotency key conflicted but no row found on re-read''))
                        | Some (existing, matches) \<Rightarrow> resolve_existing existing matches)))) js w1 = (Some (Inr (Some pay, Created)), w', is')"
    by (simp add: CreateOrGetPayment_def Let_def run_tryp [of "findByIdempotencyKey _"])
  obtain c w2 ks where c: "run (sql (create_tx ?p)) js w1 = (c, w2, ks)" by (cases "run (sql (create_tx ?p)) js w1")
  from tx c obtain row where row: "c = Some (Inr (Some row))"
    using lost by (auto simp: run_tryp [of "sql _"] run_tryp [of "wrapp _ _"] split: option.splits sum.splits prod.splits)
  with tx c have "w2 = w'" "pay = created_payment ?p row" by (auto simp: run_tryp)
  moreover from c row obtain i where "ok_env i" "sql_reply (create_tx ?p) i (w_db w1) = Inr (Some row)" "w_db w2 = sql_effect (create_tx ?p) i (w_db w1)"
    by (cases js) (auto simp: run_sql sql_reply_cases)
  then have "create_tx ?p i (w_db w) = Inr (Some row, w_db w2)" using w1 by (auto simp: sql_reply_cases sql_effect_def)
  ultimately show ?thesis by blast
qed

text \<open>The row of a created payment, at any later time.\<close>

lemma created_row_later:
  assumes "executor_ok e" "reach e (w, ts)" "run (CreateOrGetPayment p) is w = (Some (Inr (Some pay, Created)), w', is')"
    "(sys_step (entry e) lock_loss)\<^sup>*\<^sup>* (w', ts) (w'', ts'')"
  obtains r amt where "sys_inv e w''" "r \<in> set (payments w'')" "pr_id r = p_ID pay" "pr_idempotency_key r = p_IdempotencyKey p"
    "pr_source_chain r = p_SourceChain p" "pr_destination_chain r = p_DestinationChain p" "pr_asset r = p_Asset p"
    "numeric_in 18 (p_Amount p) = Some (pr_amount r)" "pr_execution_mode r = normalizeExecutionMode (p_ExecutionMode p)"
    "p_Amount pay = numeric_text 18 (pr_amount r)"
proof -
  let ?p = "p\<lparr>p_ExecutionMode := normalizeExecutionMode (p_ExecutionMode p)\<rparr>"
  have inv: "sys_inv e w" using reach_inv [OF assms(1,2)] by simp
  note sys = run_in_system [OF assms(1,2) safe_CreateOrGetPayment [OF inv] assms(3,4)]
  obtain i row where tx: "create_tx ?p i (w_db w) = Inr (Some row, w_db w')" and pay: "pay = created_payment ?p row"
    using CreatedD [OF assms(3)] by blast
  from create_txD [OF tx] obtain amt where row: "row = new_payment_row i ?p amt" "numeric_in 18 (p_Amount p) = Some amt"
    and in_w': "row \<in> set (payments w')" by (auto simp: Let_def)
  from evolves_payment [OF sys(4) in_w'] obtain r where r: "r \<in> set (payments w'')" "pay_le row r" by blast
  show ?thesis
    by (rule that [OF sys(3) r(1)]) (use r(2) row pay in \<open>auto simp: pay_le_def new_payment_row_def created_payment_def\<close>)
qed


text \<open>
  Creation is idempotent: after a request created a payment, the same request sent again at any
  later time, to any process, changes nothing and is answered with the same payment.
\<close>

lemma create_idempotent:
  assumes "executor_ok e" "reach e (w, ts)" "run (CreateOrGetPayment p) is w = (Some (Inr (Some pay, Created)), w', is')"
    "(sys_step (entry e) lock_loss)\<^sup>*\<^sup>* (w', ts) (w'', ts'')" "length (frac_part (p_Amount p)) \<le> 18" "ok_env i" "ok_env j"
  shows "\<exists>pay'. run (CreateOrGetPayment p) (i # j # js) w'' = (Some (Inr (Some pay', Replayed)), w'', js) \<and>
    p_ID pay' = p_ID pay \<and> p_Amount pay' = p_Amount pay"
proof -
  obtain r where r: "sys_inv e w''" "r \<in> set (payments w'')" "pr_id r = p_ID pay" "pr_idempotency_key r = p_IdempotencyKey p"
    "pr_source_chain r = p_SourceChain p" "pr_destination_chain r = p_DestinationChain p" "pr_asset r = p_Asset p"
    "numeric_in 18 (p_Amount p) = Some (pr_amount r)" "pr_execution_mode r = normalizeExecutionMode (p_ExecutionMode p)"
    "p_Amount pay = numeric_text 18 (pr_amount r)"
    using created_row_later [OF assms(1-4)] by metis
  have eq: "numeric_equal (pr_amount r) (p_Amount p) = Some True" by (rule numeric_equal_stored [OF r(8) assms(5)])
  then have ne: "numeric_equal 0 (p_Amount p) \<noteq> None" by (auto simp: numeric_equal_def Let_def)
  have "same_request p r" using r eq by (simp add: same_request_def)
  with run_create_existing [OF assms(6,7) r(1,2,4) ne, of js] r(3,10) show ?thesis by (simp add: scan_payment_def)
qed

lemma demo_seeded_reach: "reach demo_executor (demo_seeded, [])"
  unfolding demo_seeded_def by (intro reachable_run entry.seed reachable.start)

lemma demo_create_run:
  "\<exists>pay w' is'. run (CreateOrGetPayment (demo_payment ''k1'' ExecutionModeTestnet [demo_quote])) [demo_env 0, demo_env 0] demo_seeded
     = (Some (Inr (Some pay, Created)), w', is')"
proof -
  obtain m where eq: "demo_seeded = \<lparr>w_db = demo_db [] [] [] 7 [] 0, w_trace = [], w_met = m\<rparr>" using demo_seeded_eval by blast
  show ?thesis unfolding eq by (simp add: run_ops create_ops demo_rows)
qed

text \<open>
  C23. A request that reuses the key of a created payment with a different route, asset, amount or mode
  is answered with a conflict at any later time, and changes nothing.
\<close>

theorem create_conflict:
  assumes "executor_ok e" "reach e (w, ts)" "run (CreateOrGetPayment p) is w = (Some (Inr (Some pay, Created)), w', is')"
    "(sys_step (entry e) lock_loss)\<^sup>*\<^sup>* (w', ts) (w'', ts'')" "p_IdempotencyKey q = p_IdempotencyKey p"
    "numeric_in 18 (p_Amount q) = Some b" "length (frac_part (p_Amount q)) \<le> 18"
    "p_SourceChain q \<noteq> p_SourceChain p \<or> p_DestinationChain q \<noteq> p_DestinationChain p \<or> p_Asset q \<noteq> p_Asset p \<or>
     numeric_in 18 (p_Amount p) \<noteq> Some b \<or>
     normalizeExecutionMode (p_ExecutionMode q) \<noteq> normalizeExecutionMode (p_ExecutionMode p)" "ok_env i" "ok_env j"
  shows "run (CreateOrGetPayment q) (i # j # js) w'' = (Some (Inr (None, Conflict)), w'', j # js)"
proof -
  obtain r where r: "sys_inv e w''" "r \<in> set (payments w'')" "pr_idempotency_key r = p_IdempotencyKey p"
    "pr_source_chain r = p_SourceChain p" "pr_destination_chain r = p_DestinationChain p" "pr_asset r = p_Asset p"
    "numeric_in 18 (p_Amount p) = Some (pr_amount r)" "pr_execution_mode r = normalizeExecutionMode (p_ExecutionMode p)"
    using created_row_later [OF assms(1-4)] by metis
  have eq: "numeric_equal b (p_Amount q) = Some True" by (rule numeric_equal_stored [OF assms(6,7)])
  then have ne: "numeric_equal 0 (p_Amount q) \<noteq> None" by (auto simp: numeric_equal_def Let_def)
  have "numeric_equal (pr_amount r) (p_Amount q) = Some True \<Longrightarrow> pr_amount r = b"
    using eq by (auto simp: numeric_equal_def Let_def)
  then have "\<not> same_request q r" using r assms(8) by (auto simp: same_request_def)
  with run_create_existing [OF assms(9,10) r(1,2) _ ne, of js] r(3) assms(5) show ?thesis by simp
qed

theorem create_conflict_witness:
  "\<exists>w. run (CreateOrGetPayment (demo_payment ''k1'' ExecutionModeSimulated [])) [demo_env 5, demo_env 6] w =
     (Some (Inr (None, Conflict)), w, [demo_env 6])"
proof -
  obtain pay w' is' where run: "run (CreateOrGetPayment (demo_payment ''k1'' ExecutionModeTestnet [demo_quote])) [demo_env 0, demo_env 0] demo_seeded
     = (Some (Inr (Some pay, Created)), w', is')" using demo_create_run by blast
  show ?thesis
    by (rule exI, rule create_conflict [OF demo_executor_ok demo_seeded_reach run rtranclp.rtrancl_refl, of _ 10000000000000000])
       (simp_all add: demo_payment_def normalizeExecutionMode_def frac_part_def)
qed


section \<open>Nonces and executions\<close>

text \<open>The next nonce of the wallet is above every nonce handed out.\<close>

lemma next_nonce_fresh:
  assumes "sys_inv e w" "db_wallet_nonces (w_db w) (wallet_hex e) = Some n" "x \<in> set (executions w)"
  shows "x_Nonce x < n"
  using assms(1)
proof (cases rule: wallet_nonces)
  case unseeded
  with assms(2) show ?thesis by simp
next
  case (seeded m m0)
  with assms have "x_Nonce x \<in> set [m0..n - 1]" by (metis image_eqI option.inject set_map)
  then show ?thesis by simp
qed

text \<open>
  \<open>TryCreateExecution\<close> creates an execution exactly when the payment has none yet, and then with
  the next nonce; a caller that lost the race gets \<open>created = false\<close> and burns no nonce.
\<close>

lemma try_create_execution_result:
  assumes inv: "sys_inv e w" and "ok_env i" "cp_WalletAddress p = wallet_hex e"
    "db_wallet_nonces (w_db w) (wallet_hex e) = Some n" "n + 1 < 2 ^ 63"
    "uuid_in (cp_PaymentID p) = Some u" "u \<in> pr_id ` set (payments w)" "new_uuid i 0 \<notin> x_ID ` set (executions w)"
  shows "run (TryCreateExecution p) (i # is) w =
    (if u \<in> x_PaymentID ` set (executions w) then (Some (Inr None), w, is)
     else (Some (Inr (Some ((new_execution i p u n)\<lparr>x_PaymentID := cp_PaymentID p\<rparr>))),
           w\<lparr>w_db := (w_db w)\<lparr>db_wallet_nonces := (db_wallet_nonces (w_db w))(wallet_hex e \<mapsto> n + 1),
                               db_executions := executions w @ [new_execution i p u n]\<rparr>\<rparr>, is))"
proof -
  have "int8_fits n" using inv assms(4) by (cases rule: wallet_nonces) auto
  then have fits: "int8_fits (n + 1)" using assms(5) by (simp add: int8_fits_def)
  have free: "\<not> (\<exists>y \<in> set (executions w). x_WalletAddress y = wallet_hex e \<and> x_Nonce y = n)"
    using next_nonce_fresh [OF inv assms(4)] by fastforce
  have id: "x_ID (new_execution i p u n) = new_uuid i 0" by (simp add: new_execution_def)
  show ?thesis
  proof (cases "u \<in> x_PaymentID ` set (executions w)")
    case True
    with assms(3,4,6,8) fits free id have "create_execution_tx p i (w_db w) =
      Inl (Wrap ''insert execution'' (PgError ''23505'' executionExistsConstraint))"
      by (simp add: create_execution_tx_def Let_def)
    with True assms(2) show ?thesis by (simp add: TryCreateExecution_def run_tryp run_sql_ok sql_effect_def)
  next
    case False
    with assms(3,4,6,7,8) fits free id have "create_execution_tx p i (w_db w) = Inr (new_execution i p u n,
       (w_db w)\<lparr>db_wallet_nonces := (db_wallet_nonces (w_db w))(wallet_hex e \<mapsto> n + 1),
                db_executions := executions w @ [new_execution i p u n]\<rparr>)"
      by (simp add: create_execution_tx_def Let_def)
    with False assms(2) show ?thesis by (simp add: TryCreateExecution_def run_tryp run_sql_ok sql_effect_def)
  qed
qed

text \<open>
  Whatever fault hits it, \<open>TryCreateExecution\<close> moves the next nonce and adds an execution row with
  the old value together, or does neither: no nonce is lost between the two statements.
\<close>

lemma nonce_allocation_atomic:
  "let d = w_db w; d' = w_db (run_world (TryCreateExecution p) is w) in
   d' = d \<or>
   (\<exists>x n. db_wallet_nonces d (cp_WalletAddress p) = Some n \<and> x_Nonce x = n \<and> x_WalletAddress x = cp_WalletAddress p \<and>
      x_SignedTxHash x = None \<and>
      d' = d\<lparr>db_wallet_nonces := (db_wallet_nonces d)(cp_WalletAddress p \<mapsto> n + 1), db_executions := db_executions d @ [x]\<rparr>)"
proof -
  obtain a w1 js where run: "run (sql (create_execution_tx p)) is w = (a, w1, js)"
    by (cases "run (sql (create_execution_tx p)) is w")
  have "run_world (TryCreateExecution p) is w = w1"
    using run by (auto simp: run_world_def TryCreateExecution_def run_tryp split: option.splits sum.splits prod.splits if_splits)
  moreover from run_sql_effect [OF run] consider "w_db w1 = w_db w" | i x where "create_execution_tx p i (w_db w) = Inr (x, w_db w1)"
    by blast
  then have "w_db w1 = w_db w \<or> (\<exists>x n. db_wallet_nonces (w_db w) (cp_WalletAddress p) = Some n \<and> x_Nonce x = n \<and>
      x_WalletAddress x = cp_WalletAddress p \<and> x_SignedTxHash x = None \<and>
      w_db w1 = (w_db w)\<lparr>db_wallet_nonces := (db_wallet_nonces (w_db w))(cp_WalletAddress p \<mapsto> n + 1),
                         db_executions := executions w @ [x]\<rparr>)"
  proof cases
    case (2 i x)
    then show ?thesis
      by (elim create_execution_txD) (intro disjI2 exI [of _ x] exI, auto simp: new_execution_def)
  qed simp
  ultimately show ?thesis by (simp add: Let_def)
qed

text \<open>
  Seeding at worker start never moves an allocated counter: the database stays as it is, or the
  wallet had no next nonce and takes the value the chain reported, read as a signed 64-bit number.
\<close>

lemma seed_never_overwrites:
  "let d = w_db w; d' = w_db (run_world (seed_wallet e) is w) in
   d' = d \<or> db_wallet_nonces d (wallet_hex e) = None \<and>
     (\<exists>i \<in> set is. \<exists>k. e_pending_nonce i = Inr k \<and>
        d' = d\<lparr>db_wallet_nonces := (db_wallet_nonces d)(wallet_hex e \<mapsto> sint k)\<rparr>)"
proof (cases "is")
  case Nil
  then show ?thesis by (simp add: run_world_def seed_wallet_def run_tryp ask_env_def)
next
  case (Cons i js)
  show ?thesis
  proof (cases "e_pending_nonce i")
    case (Inl err)
    with Cons show ?thesis by (simp add: run_world_def seed_wallet_def run_tryp ask_env_def)
  next
    case (Inr k)
    define q where "q = (\<lambda>(i :: env) (d :: db). if \<not> int8_fits (sint k) then Inl (PgError ''22003'' '''')
      else Inr ((), case db_wallet_nonces d (wallet_hex e) of
        Some _ \<Rightarrow> d | None \<Rightarrow> d\<lparr>db_wallet_nonces := (db_wallet_nonces d)(wallet_hex e \<mapsto> sint k)\<rparr>))"
    obtain a w1 ks where run: "run (sql q) js w = (a, w1, ks)" by (cases "run (sql q) js w")
    have "run_world (seed_wallet e) is w = w1"
      using Cons Inr run
      by (simp add: run_world_def seed_wallet_def SeedWalletNonce_def run_tryp ask_env_def wrapp_def run_bindp
          flip: wallet_hex_def q_def) (simp split: option.splits)
    with run_sql_effect [OF run] Cons Inr show ?thesis
      by (auto simp: q_def Let_def split: if_splits option.splits)
  qed
qed

end
