(* ===== verification/Outbox_Behaviour.thy ===== *)
theory Outbox_Behaviour
  imports Safety
begin

text \<open>
  The transactional outbox as its clients see it: a failed publish leaves the event for a later
  attempt, and the publisher empties the outbox once the broker answers.
\<close>

abbreviation outbox :: "world \<Rightarrow> outbox_row list" where
  "outbox w \<equiv> db_outbox (w_db w)"

definition unpublished :: "db \<Rightarrow> outbox_row list" where
  "unpublished d = filter (\<lambda>x. ob_published_at x = None) (db_outbox d)"

text \<open>The row a claim takes.\<close>

definition next_event :: "env \<Rightarrow> db \<Rightarrow> outbox_row option" where
  "next_event i d = sql_row (sort_key ob_created_at (shuffle (e_order i) (sql_select
     (\<lambda>x. ob_published_at x = None \<and> db_outbox_locks d (ob_id x) = None) (db_outbox d))))"

lemma next_event_None:
  "next_event i d = None \<longleftrightarrow> (\<forall>x \<in> set (db_outbox d). ob_published_at x = None \<longrightarrow> db_outbox_locks d (ob_id x) \<noteq> None)"
proof -
  have "sort_key f xs = [] \<longleftrightarrow> xs = []" for f :: "outbox_row \<Rightarrow> time" and xs
    by (metis length_0_conv length_sort)
  moreover have "shuffle f xs = [] \<longleftrightarrow> xs = []" for f and xs :: "outbox_row list" by (metis length_0_conv length_shuffle)
  ultimately show ?thesis by (auto simp: next_event_def sql_select_def filter_empty_conv)
qed

lemma next_event_Some:
  assumes "next_event i d = Some x"
  shows "x \<in> set (db_outbox d)" "ob_published_at x = None" "db_outbox_locks d (ob_id x) = None"
    "\<forall>y \<in> set (db_outbox d). ob_published_at y = None \<and> db_outbox_locks d (ob_id y) = None \<longrightarrow> ob_created_at x \<le> ob_created_at y"
proof -
  let ?t = "shuffle (e_order i) (sql_select (\<lambda>x. ob_published_at x = None \<and> db_outbox_locks d (ob_id x) = None) (db_outbox d))"
  from assms obtain ys where s: "sort_key ob_created_at ?t = x # ys"
    by (cases "sort_key ob_created_at ?t") (auto simp: next_event_def)
  then have set: "set (x # ys) = set ?t" by (metis set_sort)
  then have "x \<in> set ?t" by (metis list.set_intros(1))
  then show "x \<in> set (db_outbox d)" "ob_published_at x = None" "db_outbox_locks d (ob_id x) = None"
    by (auto simp: sql_select_def)
  have "sorted (map ob_created_at (x # ys))" using sorted_sort_key [of ob_created_at ?t] s by simp
  then have "\<forall>y \<in> set (x # ys). ob_created_at x \<le> ob_created_at y" by auto
  with set show "\<forall>y \<in> set (db_outbox d). ob_published_at y = None \<and> db_outbox_locks d (ob_id y) = None \<longrightarrow> ob_created_at x \<le> ob_created_at y"
    by (auto simp: sql_select_def)
qed

lemma claim_outbox_eq:
  "claim_outbox i d = (case next_event i d of None \<Rightarrow> Inr (None, d)
     | Some x \<Rightarrow> Inr (Some (scan_outbox x, db_next_tx d),
         d\<lparr>db_outbox_locks := (db_outbox_locks d)(ob_id x \<mapsto> db_next_tx d), db_next_tx := Suc (db_next_tx d)\<rparr>))"
  by (simp add: claim_outbox_def next_event_def)

text \<open>
  When the broker refuses an event, every table and every lock is as before the poll, so the same
  row is claimed again later: nothing is lost and nothing stays locked.
\<close>

lemma failed_publish_keeps_event:
  assumes "ok_env i" "e_publish j = Inl err"
  shows "\<exists>n. w_db (run_world PollOnce (i # j # is) w) = (w_db w)\<lparr>db_next_tx := n\<rparr>"
proof (cases "next_event i (w_db w)")
  case None
  with assms(1) show ?thesis
    by (simp add: run_world_def PollOnce_def PublishNextOutboxEvent_def run_bindp run_tryp run_sql_ok sql_effect_def claim_outbox_eq)
       (rule exI [of _ "db_next_tx (w_db w)"], simp)
next
  case (Some x)
  have "(db_outbox_locks (w_db w))(ob_id x := None) = db_outbox_locks (w_db w)"
    using next_event_Some(3) [OF Some] by (simp add: fun_upd_idem)
  with assms Some show ?thesis
    by (simp add: run_world_def PollOnce_def PublishNextOutboxEvent_def run_bindp run_tryp run_sql_ok sql_effect_def claim_outbox_eq
        publish_event_def call_out_def rollback_outbox_def scan_outbox_def)
       (rule exI [of _ "Suc (db_next_tx (w_db w))"], simp)
qed

lemma poll_ok:
  assumes "ok_env i" "e_publish i = Inr ()" "db_outbox_locks (w_db w) = Map.empty"
  shows "w_db (run_world PollOnce [i, i, i] w) = (case next_event i (w_db w) of None \<Rightarrow> w_db w
    | Some x \<Rightarrow> (w_db w)\<lparr>db_outbox := sql_update (\<lambda>y. ob_id y = ob_id x) (\<lambda>y. y\<lparr>ob_published_at := Some (e_now i)\<rparr>) (outbox w),
                         db_next_tx := Suc (db_next_tx (w_db w))\<rparr>)"
proof (cases "next_event i (w_db w)")
  case None
  with assms(1) show ?thesis
    by (simp add: run_world_def PollOnce_def PublishNextOutboxEvent_def run_bindp run_tryp run_sql_ok sql_effect_def claim_outbox_eq)
next
  case (Some x)
  have "(db_outbox_locks (w_db w))(ob_id x := None) = db_outbox_locks (w_db w)" by (simp add: assms(3))
  with assms Some show ?thesis
    by (simp add: run_world_def PollOnce_def PublishNextOutboxEvent_def run_bindp run_tryp run_sql_ok sql_effect_def claim_outbox_eq
        publish_event_def call_out_def scan_outbox_def commit_outbox_def Inc_def)
qed

lemma unpublished_after:
  assumes "distinct (map ob_id t)" "x \<in> set t" "ob_published_at x = None"
  shows "length (filter (\<lambda>y. ob_published_at y = None) (sql_update (\<lambda>y. ob_id y = ob_id x) (\<lambda>y. y\<lparr>ob_published_at := Some now\<rparr>) t)) =
    length (filter (\<lambda>y. ob_published_at y = None) t) - 1"
  using assms
proof (induction t)
  case (Cons y t)
  show ?case
  proof (cases "y = x")
    case True
    with Cons.prems(1) have "sql_update (\<lambda>y. ob_id y = ob_id x) (\<lambda>y. y\<lparr>ob_published_at := Some now\<rparr>) t = t"
      by (intro sql_update_none) (simp, metis image_eqI)
    with True Cons.prems(3) show ?thesis by (simp add: sql_update_def)
  next
    case False
    with Cons.prems have x: "x \<in> set t" "ob_id y \<noteq> ob_id x" by (auto simp: rev_image_eqI)
    then have "0 < length (filter (\<lambda>y. ob_published_at y = None) t)"
      using Cons.prems(3) by (auto simp: filter_empty_conv)
    with Cons x show ?thesis by (simp add: sql_update_def)
  qed
qed simp

text \<open>
  C28. Once the broker answers, the publisher empties the outbox: from any reachable state in which no
  publisher holds a row, as many polls as there are unpublished events publish them all.
\<close>

theorem publisher_drains_outbox:
  assumes "executor_ok e" "reach e (w, ts)" "db_outbox_locks (w_db w) = Map.empty" "ok_env i" "e_publish i = Inr ()"
  shows "unpublished (w_db (((run_world PollOnce [i, i, i]) ^^ length (unpublished (w_db w))) w)) = []"
proof -
  have "unpublished (w_db (((run_world PollOnce [i, i, i]) ^^ n) v)) = []"
    if "distinct (map ob_id (outbox v))" "db_outbox_locks (w_db v) = Map.empty" "length (unpublished (w_db v)) \<le> n" for n v
    using that
  proof (induction n arbitrary: v)
    case (Suc n)
    let ?v = "run_world PollOnce [i, i, i] v"
    have v: "distinct (map ob_id (outbox ?v)) \<and> db_outbox_locks (w_db ?v) = Map.empty \<and> length (unpublished (w_db ?v)) \<le> n"
    proof (cases "next_event i (w_db v)")
      case None
      have "unpublished (w_db v) = []"
        using None Suc.prems(2) unfolding next_event_None unpublished_def by (auto simp: filter_empty_conv)
      with None Suc.prems poll_ok [OF assms(4,5) Suc.prems(2)] show ?thesis by simp
    next
      case (Some x)
      with poll_ok [OF assms(4,5) Suc.prems(2)] Suc.prems next_event_Some(1,2) [OF Some]
        unpublished_after [of "outbox v" x "e_now i"]
      show ?thesis by (auto simp: unpublished_def sql_update_map)
    qed
    with Suc.IH [of ?v] show ?case by (simp del: funpow.simps add: funpow_Suc_right)
  qed simp
  moreover have "distinct (map ob_id (outbox w))"
    using keys_okD [OF reach_inv [OF assms(1,2)]] by (simp add: keys_ok_def)
  ultimately show ?thesis using assms(3) by blast
qed

lemma demo_created_locks: "db_outbox_locks (w_db demo_created) = Map.empty" "length (unpublished (w_db demo_created)) = 2"
proof -
  obtain m where eq: "demo_created = \<lparr>w_db = demo_db [demo_row 0 ''k1'' ExecutionModeTestnet ROUTED,
       demo_row 16 ''k2'' ExecutionModeSimulated ROUTED] [demo_quote_row] [] 7 [demo_outbox 0 None, demo_outbox 16 None] 0,
       w_trace = [], w_met = m\<rparr>"
    using demo_created_eval by blast
  show "db_outbox_locks (w_db demo_created) = Map.empty" "length (unpublished (w_db demo_created)) = 2"
    unfolding eq by (simp_all add: demo_db_def unpublished_def demo_outbox_def)
qed

theorem publisher_drains_outbox_witness:
  "unpublished (w_db (((run_world PollOnce [demo_env 0, demo_env 0, demo_env 0]) ^^ 2) demo_created)) = []"
  using publisher_drains_outbox [OF demo_executor_ok demo_created_reach demo_created_locks(1) demo_env_sel(2) demo_env_sel(10)]
  by (simp only: demo_created_locks(2))
end
