(* ===== verification/Executor_Behaviour.thy ===== *)
theory Executor_Behaviour
  imports Safety
begin

text \<open>
  What the executor and the reconciler do: the fee tolerance, the checks that come before any nonce is
  allocated, the broadcast of a persisted transaction, and the settlement of a submitted payment.
\<close>

section \<open>Checks before the nonce\<close>

text \<open>
  C30. The fee tolerance is exact integer arithmetic, for a tolerance that is not negative (the configuration does not refuse a
  negative one): against a positive persisted fee, a fresh fee is
  accepted exactly when it is at most the fee times \<open>1 + tolerance / 10000\<close>, with no rounding; a
  persisted fee of zero, or one that does not parse, admits no positive fee.
\<close>

theorem slippage_exact:
  assumes "0 \<le> bps"
  shows "exceedsSlippageTolerance s fresh bps \<longleftrightarrow>
    (case SetString10 s of
       None \<Rightarrow> 0 < fresh
     | Some b \<Rightarrow> if b < 0 then b < fresh \<and> b * (10000 + bps) < fresh * 10000
                else b * (10000 + bps) < fresh * 10000)"
proof (cases "SetString10 s")
  case (Some b)
  have "b * bps < (fresh - b) * 10000 \<longleftrightarrow> b * (10000 + bps) < fresh * 10000" by (simp add: algebra_simps)
  moreover have "\<not> b * (10000 + bps) < fresh * 10000" if "0 < b" "fresh \<le> b"
  proof -
    have "fresh * 10000 \<le> b * 10000" using that(2) by simp
    also have "\<dots> \<le> b * (10000 + bps)" using that(1) assms by (simp add: algebra_simps)
    finally show ?thesis by simp
  qed
  ultimately show ?thesis using Some by (auto simp: exceedsSlippageTolerance_def)
qed (simp add: exceedsSlippageTolerance_def)

theorem slippage_exact_witness:
  "exceedsSlippageTolerance (Int_String 1000) 1011 100 \<and> \<not> exceedsSlippageTolerance (Int_String 1000) 1010 100"
  using slippage_exact [of 100 "Int_String 1000" 1011] slippage_exact [of 100 "Int_String 1000" 1010] by simp

text \<open>Runs that touch neither executions nor nonces nor the chain.\<close>

definition no_nonce :: "world \<Rightarrow> world \<Rightarrow> bool" where
  "no_nonce w w' \<longleftrightarrow> executions w' = executions w \<and> db_wallet_nonces (w_db w') = db_wallet_nonces (w_db w) \<and> w_trace w' = w_trace w"

lemma transition_effect_fields [simp]:
  "db_executions (sql_effect (transition pid from upd) i d) = db_executions d"
  "db_wallet_nonces (sql_effect (transition pid from upd) i d) = db_wallet_nonces d"
  by (auto simp: sql_effect_def transition_def uuid_arg_def Let_def split: db_fault.splits option.splits)

lemma run_fail_payment_no_nonce:
  assumes "run (fail_payment pid l c reason) is w = (res, w', is')"
  shows "no_nonce w w'"
proof (cases "is")
  case Nil
  with assms show ?thesis
    by (auto simp: no_nonce_def fail_payment_def MarkProcessingFailed_def run_bindp run_tryp run_sql Inc_def)
next
  case (Cons i js)
  let ?q = "transition pid PROCESSING (\<lambda>now r. r\<lparr>pr_status := FAILED, pr_failure_reason := Some reason, pr_updated_at := now\<rparr>)"
  show ?thesis
    using assms Cons
    by (cases "sql_reply ?q i (w_db w)")
       (auto simp: no_nonce_def fail_payment_def MarkProcessingFailed_def run_bindp run_tryp run_sql Inc_def)
qed

text \<open>
  The last checks of a fresh execution come before the nonce: when the route is gone, the fee slipped
  too far, the amount exceeds the guardrail, or no valid envelope can be built for it, then no nonce
  is allocated, no execution row is written and nothing is sent, whatever faults occur; at most the payment's own
  row is marked FAILED.
\<close>

lemma failed_checks_allocate_nothing:
  assumes "\<not> b_Available fq \<or> b_FeeBaseUnits fq = None \<or>
      (\<exists>f. b_FeeBaseUnits fq = Some f \<and> exceedsSlippageTolerance (q_FeeAmount q) f (ex_MaxFeeSlippageBps e)) \<or>
      exceeds_guardrail e v \<or> (\<exists>err. buildValidatedEnvelope e pid q fq = Inl err)"
  shows "let w' = run_world (execute_fresh e pid q v fq) is w in
    db_executions (w_db w') = db_executions (w_db w) \<and> db_wallet_nonces (w_db w') = db_wallet_nonces (w_db w) \<and> w_trace w' = w_trace w"
proof -
  have fail: "no_nonce w (run_world (fail_payment pid l c reason) is w)" for l c reason
    by (cases "run (fail_payment pid l c reason) is w") (simp add: run_world_def run_fail_payment_no_nonce)
  have same: "no_nonce w (run_world (Done a) is w)" for a :: "unit res" by (simp add: run_world_def no_nonce_def)
  have err: "no_nonce w (run_world (bindp (Inc m l) (\<lambda>_. Done a)) is w)" for m l and a :: "unit res"
    by (simp add: run_world_def run_bindp Inc_def no_nonce_def)
  have "no_nonce w (run_world (execute_fresh e pid q v fq) is w)"
    using assms fail same err
    by (cases "b_FeeBaseUnits fq"; cases "buildValidatedEnvelope e pid q fq") (auto simp: execute_fresh_def Let_def)
  then show ?thesis by (simp add: no_nonce_def Let_def)
qed

section \<open>Broadcast\<close>

text \<open>
  The broadcast of a signed row looks the persisted hash up first and sends only when the chain does
  not know it, and then exactly the persisted bytes: a known transaction is never sent again, an
  unclear answer sends nothing, and nothing else is ever sent; the database is not touched.
\<close>

lemma broadcast_sends_persisted_once:
  assumes "x_SignedTxHash x = Some h" "x_RawSignedTx x = Some raw"
  shows "run (broadcastWithRecovery e x) [i, j] w =
    (let hash = g_HexToHash (ex_Geth e) h; w1 = w\<lparr>w_trace := EvLookup hash (e_lookup i) # w_trace w\<rparr> in
     case e_lookup i of
       Inr _ \<Rightarrow> (Some (Inr False), w1, [j])
     | Inl err \<Rightarrow>
         if \<not> err_is err NotFound then (Some (Inl (Wrap ''check transaction on chain'' err)), w1, [j])
         else case g_UnmarshalBinary (ex_Geth e) raw of
           Inl err \<Rightarrow> (Some (Inl (Wrap ''unmarshal persisted signed tx'' err)), w1, [j])
         | Inr tx \<Rightarrow> (Some (case e_send j of Inl err \<Rightarrow> Inl (Wrap ''send transaction'' err) | Inr _ \<Rightarrow> Inr True),
                     w1\<lparr>w_trace := EvSend tx (e_send j) # w_trace w1\<rparr>, []))"
  using assms
  by (auto simp: broadcastWithRecovery_def Let_def run_bindp run_tryp call_out_def split: sum.splits)

section \<open>The lowest broadcast nonce of each wallet\<close>

lemma map_of_replace:
  "map_of (map (\<lambda>(k, v). if k = a then (k, c) else (k, v)) m) b = (if b = a then map_option (\<lambda>_. c) (map_of m a) else map_of m b)"
  by (induction m) auto

definition lowest_of :: "Execution list \<Rightarrow> string \<Rightarrow> Execution option \<Rightarrow> bool" where
  "lowest_of cs a res \<longleftrightarrow> (case res of
      None \<Rightarrow> \<forall>c \<in> set cs. x_BroadcastAt c \<noteq> None \<longrightarrow> x_WalletAddress c \<noteq> a
    | Some c \<Rightarrow> c \<in> set cs \<and> x_BroadcastAt c \<noteq> None \<and> x_WalletAddress c = a \<and>
        (\<forall>c' \<in> set cs. x_BroadcastAt c' \<noteq> None \<and> x_WalletAddress c' = a \<longrightarrow> x_Nonce c \<le> x_Nonce c'))"

lemma lowest_step_map_of:
  "map_of (lowest_step m c) a = (if x_BroadcastAt c \<noteq> None \<and> x_WalletAddress c = a \<and>
      (case map_of m a of None \<Rightarrow> True | Some d \<Rightarrow> x_Nonce c < x_Nonce d) then Some c else map_of m a)"
  by (cases "map_of m (x_WalletAddress c)")
     (auto simp: lowest_step_def map_of_replace map_add_def split: option.splits)

lemma lowest_step_correct:
  assumes "lowest_of cs a (map_of m a)"
  shows "lowest_of (cs @ [c]) a (map_of (lowest_step m c) a)"
  using assms unfolding lowest_step_map_of
  by (cases "map_of m a") (auto simp: lowest_of_def)

lemma lowest_step_distinct:
  assumes "distinct (map fst m)"
  shows "distinct (map fst (lowest_step m c))"
proof -
  have "map fst (map (\<lambda>(k, v). if k = x_WalletAddress c then (k, c) else (k, v)) m) = map fst m" by (induction m) auto
  then have "map fst (lowest_step m c) =
      (if x_BroadcastAt c = None \<or> map_of m (x_WalletAddress c) \<noteq> None then map fst m else map fst m @ [x_WalletAddress c])"
    unfolding lowest_step_def by (simp split: option.splits)
  with assms show ?thesis by (auto simp: map_of_eq_None_iff)
qed

text \<open>
  The reconciler's loop picks, for every wallet, the broadcast candidate with the lowest nonce, and
  one only: each wallet with a broadcast candidate occurs exactly once.
\<close>

lemma lowestByWallet_correct:
  "distinct (map fst (lowestByWallet cs)) \<and> lowest_of cs a (map_of (lowestByWallet cs) a)"
proof (induction cs rule: rev_induct)
  case Nil
  then show ?case by (simp add: lowestByWallet_def lowest_of_def)
next
  case (snoc c cs)
  then show ?case
    by (simp add: lowestByWallet_def lowest_step_distinct lowest_step_correct)
qed

section \<open>Settling a submitted payment\<close>

lemma run_MarkSubmitted_ok:
  assumes "ok_env i" "sys_inv e w" "r \<in> set (payments w)" "pr_status r = SUBMITTED"
  shows "run (MarkSubmitted (pr_id r)) (i # is) w = (Some (Inr False), w, is)"
  using assms(4)
  by (simp add: MarkSubmitted_def run_tryp run_transition_row [OF assms(1) payment_keys [OF assms(2)] assms(3) uuid_in_idem [OF assms(2,3)]])

lemma run_CompleteSubmittedPayment_ok:
  assumes "ok_env i" "distinct (map pr_id (payments w))" "r \<in> set (payments w)" "uuid_in (pr_id r) = Some (pr_id r)" "pr_status r = SUBMITTED"
  shows "run (CompleteSubmittedPayment (pr_id r) s) (i # is) w = (Some (Inr (Some (pr_created_at r))),
       w\<lparr>w_db := (w_db w)\<lparr>db_payments := sql_update (\<lambda>q. pr_id q = pr_id r \<and> pr_status q = SUBMITTED)
          (\<lambda>q. q\<lparr>pr_status := s, pr_completed_at := Some (e_now i), pr_updated_at := e_now i\<rparr>) (payments w)\<rparr>\<rparr>, is)"
  using assms(5) by (simp add: CompleteSubmittedPayment_def run_tryp run_transition_row [OF assms(1-4)])

lemma run_UpdateExecutionExternalStatus_ok:
  assumes "ok_env i" "uuid_in xid = Some xid"
  shows "run (UpdateExecutionExternalStatus xid st raw c) (i # is) w = (Some (Inr ()),
     w\<lparr>w_db := (w_db w)\<lparr>db_executions := sql_update (\<lambda>x. x_ID x = xid) (\<lambda>x. x\<lparr>x_ExternalStatus := st, x_RawExternalStatus := Some raw,
        x_ConfirmedAt := c, x_UpdatedAt := e_now i\<rparr>) (executions w)\<rparr>\<rparr>, is)"
  using assms by (simp add: UpdateExecutionExternalStatus_def wrapp_def run_bindp run_sql_ok update_execution_def uuid_arg_def sql_effect_def wrap_err_def)

text \<open>The tables after an execution was settled with an answer and its payment with a terminal status.\<close>

definition settled_db :: "time \<Rightarrow> Execution \<Rightarrow> StatusResult \<Rightarrow> Status \<Rightarrow> db \<Rightarrow> db" where
  "settled_db t x answer s d = d\<lparr>
     db_executions := sql_update (\<lambda>y. x_ID y = x_ID x) (\<lambda>y. y\<lparr>x_ExternalStatus := externalStateToStatus (sr_State answer),
       x_RawExternalStatus := Some (sr_RawStatus answer), x_ConfirmedAt := Some t, x_UpdatedAt := t\<rparr>) (db_executions d),
     db_payments := sql_update (\<lambda>q. pr_id q = x_PaymentID x \<and> pr_status q = SUBMITTED)
       (\<lambda>q. q\<lparr>pr_status := s, pr_completed_at := Some t, pr_updated_at := t\<rparr>) (db_payments d)\<rparr>"

lemma run_markTerminal_ok:
  assumes ok: "ok_env i" and inv: "distinct (map pr_id (payments w))" and r: "r \<in> set (payments w)" "uuid_in (pr_id r) = Some (pr_id r)"
    "pr_status r = SUBMITTED" and x: "uuid_in (x_ID x) = Some (x_ID x)" "x_PaymentID x = pr_id r"
  shows "\<exists>w'. run (markTerminal x res s) (i # i # i # is) w = (Some (Inr ()), w', is) \<and> w_db w' = settled_db (e_now i) x res s (w_db w)"
proof -
  let ?w = "w\<lparr>w_db := (w_db w)\<lparr>db_executions := sql_update (\<lambda>y. x_ID y = x_ID x) (\<lambda>y. y\<lparr>x_ExternalStatus := externalStateToStatus (sr_State res),
          x_RawExternalStatus := Some (sr_RawStatus res), x_ConfirmedAt := Some (e_now i), x_UpdatedAt := e_now i\<rparr>) (executions w)\<rparr>\<rparr>"
  have now: "run Now (i # js) v = (Some (e_now i), v, js)" for js v by (simp add: Now_def)
  have upd: "run (UpdateExecutionExternalStatus (x_ID x) (externalStateToStatus (sr_State res)) (sr_RawStatus res) (Some (e_now i))) (i # i # is) w =
      (Some (Inr ()), ?w, i # is)"
    by (rule run_UpdateExecutionExternalStatus_ok [OF ok x(1)])
  have compl: "run (CompleteSubmittedPayment (x_PaymentID x) s) (i # is) ?w = (Some (Inr (Some (pr_created_at r))),
      ?w\<lparr>w_db := (w_db ?w)\<lparr>db_payments := sql_update (\<lambda>q. pr_id q = pr_id r \<and> pr_status q = SUBMITTED)
          (\<lambda>q. q\<lparr>pr_status := s, pr_completed_at := Some (e_now i), pr_updated_at := e_now i\<rparr>) (payments ?w)\<rparr>\<rparr>, is)"
    unfolding x(2) by (rule run_CompleteSubmittedPayment_ok [OF ok]) (use inv r in simp_all)
  show ?thesis
    by (simp add: markTerminal_def Let_def run_bindp [of Now] now run_tryp upd compl run_bindp [of "Inc _ _"] run_bindp [of "if _ then _ else _"]
        run_bindp [of "Observe _ _"]) (simp add: Inc_def Observe_def settled_db_def x(2))
qed

text \<open>The check up to the settlement: after the receipt, and after the answer of the bridge.\<close>

lemma run_check_reverted:
  assumes "ok_env i" "sys_inv e w" "r \<in> set (payments w)" "pr_status r = SUBMITTED" "pr_id r = x_PaymentID x" "x_SignedTxHash x = Some h"
    "e_receipt i = Inr 0"
  shows "\<exists>v. w_db v = w_db w \<and> run (checkAndUpdateOutcome rc x) (i # i # js) w = run (markTerminal x origin_reverted FAILED) js v"
  using assms(6,7) run_MarkSubmitted_ok [OF assms(1-4)] assms(5)
  by (auto simp: checkAndUpdateOutcome_def Let_def run_tryp call_out_def
      intro!: exI [of _ "w\<lparr>w_trace := EvReceipt (g_HexToHash (ex_Geth (rc_Executor rc)) h) (Inr 0) # w_trace w\<rparr>"])

lemma run_check_answered:
  assumes "ok_env i" "sys_inv e w" "r \<in> set (payments w)" "pr_status r = SUBMITTED" "pr_id r = x_PaymentID x" "x_SignedTxHash x = Some h"
    "e_receipt i = Inr k" "k \<noteq> 0" "rc_StatusCheckers rc (x_BridgeProvider x) = Some ch"
    "sc_CheckStatus ch i \<lparr>sr_ProviderReferenceID = derefOrEmpty (x_ProviderReferenceID x), sr_OriginTxHash = h\<rparr> = Inr res"
  shows "\<exists>v. w_db v = w_db w \<and> run (checkAndUpdateOutcome rc x) (i # i # i # js) w =
    run (case terminal_of_state (sr_State res) of Some s \<Rightarrow> markTerminal x res s | None \<Rightarrow> Done (Inr ())) js v"
proof -
  have sub: "run (MarkSubmitted (x_PaymentID x)) (i # is) w = (Some (Inr False), w, is)" for "is"
    using run_MarkSubmitted_ok [OF assms(1-4)] assms(5) by simp
  let ?label = "SanitizeProviderLabel (x_BridgeProvider x)"
  let ?q = "\<lparr>sr_ProviderReferenceID = derefOrEmpty (x_ProviderReferenceID x), sr_OriginTxHash = h\<rparr>"
  define v where "v = w\<lparr>w_trace := EvStatus (x_BridgeProvider x) ?q (Inr res) #
    EvReceipt (g_HexToHash (ex_Geth (rc_Executor rc)) h) (Inr k) # w_trace w\<rparr>"
  define cont where "cont = (case terminal_of_state (sr_State res) of Some s \<Rightarrow> markTerminal x res s | None \<Rightarrow> Done (Inr ()))"
  have "run (checkAndUpdateOutcome rc x) (i # i # i # js) w =
      run (bindp (Inc ''Reconciliations'' [?label]) (\<lambda>_. bindp (Observe ''ReconciliationDuration'' [?label]) (\<lambda>_. cont))) js v"
    using assms(6-10) by (simp add: checkAndUpdateOutcome_def Let_def run_tryp sub check_status_def call_out_def v_def cont_def)
  moreover obtain m where "run (bindp (Inc ''Reconciliations'' [?label]) (\<lambda>_. bindp (Observe ''ReconciliationDuration'' [?label]) (\<lambda>_. cont))) js v
      = run cont js (v\<lparr>w_met := m\<rparr>)"
    by (auto simp: run_bindp Inc_def Observe_def)
  moreover have "w_db (v\<lparr>w_met := m\<rparr>) = w_db w" by (simp add: v_def)
  ultimately show ?thesis unfolding cont_def by metis
qed

text \<open>
  C25. Settling a submitted payment whose bridge answers: a reverted origin transaction fails it; a
  filled transfer completes it; a refund, a revert or a failed fill fails it, and in each case the
  execution row records the outcome and its confirmation; a pending answer leaves both tables as
  they are.
\<close>

theorem reconciler_settles:
  assumes "executor_ok (rc_Executor rc)" "reach (rc_Executor rc) (w, ts)" "ok_env i"
    "x \<in> set (executions w)" "x_SignedTxHash x = Some h" "r \<in> set (payments w)" "pr_id r = x_PaymentID x" "pr_status r = SUBMITTED"
    "rc_StatusCheckers rc (x_BridgeProvider x) = Some ch" "e_receipt i = Inr k"
    "sc_CheckStatus ch i \<lparr>sr_ProviderReferenceID = derefOrEmpty (x_ProviderReferenceID x), sr_OriginTxHash = h\<rparr> = Inr res"
  shows "let d = w_db w; d' = w_db (run_world (checkAndUpdateOutcome rc x) (replicate 6 i) w)
    in run_result (checkAndUpdateOutcome rc x) (replicate 6 i) w = Some (Inr ()) \<and>
       (case (if k = 0 then Some FAILED else terminal_of_state (sr_State res)) of
          None \<Rightarrow> d' = d
        | Some s \<Rightarrow> d' = settled_db (e_now i) x (if k = 0 then origin_reverted else res) s d)"
proof -
  have inv: "sys_inv (rc_Executor rc) w" using reach_inv [OF assms(1,2)] by simp
  have rep: "replicate 6 i = [i, i, i, i, i, i]" by (simp add: numeral_eq_Suc)
  have settle: "\<exists>w'. run (markTerminal x a s) (i # i # i # js) v = (Some (Inr ()), w', js) \<and> w_db w' = settled_db (e_now i) x a s (w_db w)"
    if "w_db v = w_db w" for v a s js
  proof -
    have "distinct (map pr_id (payments v))" "r \<in> set (payments v)" using that payment_keys [OF inv] assms(6) by simp_all
    from run_markTerminal_ok [OF assms(3) this uuid_in_idem [OF inv assms(6)] assms(8) execution_copy(5) [OF inv assms(4)] assms(7) [symmetric],
        of a s js] show ?thesis unfolding that .
  qed
  show ?thesis
  proof (cases "k = 0")
    case True
    with run_check_reverted [OF assms(3) inv assms(6,8,7,5), of rc "[i, i, i, i]"] assms(10) obtain v where
      v: "w_db v = w_db w" "run (checkAndUpdateOutcome rc x) (replicate 6 i) w = run (markTerminal x origin_reverted FAILED) [i, i, i, i] v"
      by (auto simp: rep)
    from settle [OF v(1), of origin_reverted FAILED "[i]"] v(2) True show ?thesis by (auto simp: run_result_def run_world_def Let_def)
  next
    case False
    from run_check_answered [OF assms(3) inv assms(6,8,7,5,10) False assms(9,11), of "[i, i, i]"] obtain v where
      v: "w_db v = w_db w" "run (checkAndUpdateOutcome rc x) (replicate 6 i) w =
        run (case terminal_of_state (sr_State res) of Some s \<Rightarrow> markTerminal x res s | None \<Rightarrow> Done (Inr ())) [i, i, i] v"
      by (auto simp: rep)
    show ?thesis
    proof (cases "terminal_of_state (sr_State res)")
      case None
      with v False show ?thesis by (simp add: run_result_def run_world_def Let_def)
    next
      case (Some s)
      with v(2) False settle [OF v(1), of res s "[]"] show ?thesis by (auto simp: run_result_def run_world_def Let_def)
    qed
  qed
qed


theorem reconciler_settles_witness:
  "run_result (checkAndUpdateOutcome demo_reconciler (demo_exec ExtPending None None)) (replicate 6 (demo_env 0)) demo_submitted = Some (Inr ()) \<and>
   (\<exists>q \<in> set (payments (run_world (checkAndUpdateOutcome demo_reconciler (demo_exec ExtPending None None)) (replicate 6 (demo_env 0)) demo_submitted)).
      pr_id q = demo_id 0 \<and> pr_status q = COMPLETED)"
proof -
  let ?x = "demo_exec ExtPending None None" and ?r = "demo_row 0 ''k1'' ExecutionModeTestnet SUBMITTED"
  let ?res = "\<lparr>sr_State = StateFilled, sr_RawStatus = ''filled'', sr_DestinationTxHash = None\<rparr>"
  have e: "executor_ok (rc_Executor demo_reconciler)" "reach (rc_Executor demo_reconciler) (demo_submitted, [])"
    using demo_executor_ok demo_submitted_reach by (simp_all add: demo_reconciler_def)
  have x: "?x \<in> set (executions demo_submitted)" "x_SignedTxHash ?x = Some (Int_String 99)" "?r \<in> set (payments demo_submitted)"
    "pr_id ?r = x_PaymentID ?x" "pr_status ?r = SUBMITTED" "rc_StatusCheckers demo_reconciler (x_BridgeProvider ?x) = Some demo_checker"
    "e_receipt (demo_env 0) = Inr 1" "sc_CheckStatus demo_checker (demo_env 0)
       \<lparr>sr_ProviderReferenceID = derefOrEmpty (x_ProviderReferenceID ?x), sr_OriginTxHash = Int_String 99\<rparr> = Inr ?res"
    by (simp_all add: demo_submitted_facts) (simp_all add: demo_exec_def demo_row_def demo_reconciler_def demo_checker_def Provider.defs)
  note * = reconciler_settles [OF e demo_env_sel(2) x]
  let ?u = "\<lambda>q. q\<lparr>pr_status := COMPLETED, pr_completed_at := Some (e_now (demo_env 0)), pr_updated_at := e_now (demo_env 0)\<rparr>"
  have "?u ?r \<in> set (sql_update (\<lambda>q. pr_id q = pr_id ?r \<and> pr_status q = SUBMITTED) ?u (payments demo_submitted))"
    by (rule in_sql_update_key [OF x(3)]) (simp add: x(5))
  moreover have "pr_id (?u ?r) = demo_id 0" "pr_status (?u ?r) = COMPLETED" by (simp_all add: demo_row_def)
  moreover from * have "payments (run_world (checkAndUpdateOutcome demo_reconciler ?x) (replicate 6 (demo_env 0)) demo_submitted) =
      sql_update (\<lambda>q. pr_id q = pr_id ?r \<and> pr_status q = SUBMITTED) ?u (payments demo_submitted)"
    and "run_result (checkAndUpdateOutcome demo_reconciler ?x) (replicate 6 (demo_env 0)) demo_submitted = Some (Inr ())"
    by (simp_all add: Let_def settled_db_def x(4))
  ultimately show ?thesis by (simp only:) blast
qed

end
