(* ===== verification/Go_Url.thy ===== *)
theory Go_Url
  imports Go_Lib "HOL-Library.List_Lexorder" "HOL-Library.Char_ord"
begin

text \<open>
  Query strings, as package \<open>net/url\<close> writes and reads them. \<open>Values\<close> keeps one value per key here,
  since the code only uses \<open>Set\<close>. \<open>Encode\<close> sorts by key and percent-escapes keys and values;
  \<open>ParseQuery\<close> is the receiving side. The result: a server that parses an encoded query finds
  exactly the keys and values that were set, whatever bytes they contain.
\<close>

type_synonym Values = "(string \<times> string) list"

definition Set :: "string \<Rightarrow> string \<Rightarrow> Values \<Rightarrow> Values" where
  "Set k v q = (if k \<in> fst ` set q then map (\<lambda>(k', v'). (k', if k' = k then v else v')) q else q @ [(k, v)])"

definition unreserved :: "char \<Rightarrow> bool" where
  "unreserved c \<longleftrightarrow> (let n = of_char c :: nat in
     48 \<le> n \<and> n \<le> 57 \<or> 65 \<le> n \<and> n \<le> 90 \<or> 97 \<le> n \<and> n \<le> 122) \<or> c \<in> {CHR ''-'', CHR ''_'', CHR ''.'', CHR ''~''}"

definition hex_digits :: string where
  "hex_digits = ''0123456789ABCDEF''"

definition escape_char :: "char \<Rightarrow> string" where
  "escape_char c = (if unreserved c then [c] else if c = CHR '' '' then ''+''
     else [CHR ''%'', hex_digits ! (of_char c div 16), hex_digits ! (of_char c mod 16)])"

definition QueryEscape :: "string \<Rightarrow> string" where
  "QueryEscape s = concat (map escape_char s)"

primrec join :: "char \<Rightarrow> string list \<Rightarrow> string" where
  "join c [] = []"
| "join c (x # xs) = (if xs = [] then x else x @ c # join c xs)"

definition pair_text :: "string \<times> string \<Rightarrow> string" where
  "pair_text kv = QueryEscape (fst kv) @ CHR ''='' # QueryEscape (snd kv)"

definition Encode :: "Values \<Rightarrow> string" where
  "Encode q = join (CHR ''&'') (map pair_text (sort_key fst q))"

section \<open>The receiving side\<close>

definition hex_val :: "char \<Rightarrow> nat option" where
  "hex_val c = (let n = of_char c :: nat in
     if 48 \<le> n \<and> n \<le> 57 then Some (n - 48)
     else if 65 \<le> n \<and> n \<le> 70 then Some (n - 55)
     else if 97 \<le> n \<and> n \<le> 102 then Some (n - 87) else None)"

fun QueryUnescape :: "string \<Rightarrow> string option" where
  "QueryUnescape [] = Some []"
| "QueryUnescape (c # cs) =
    (if c = CHR ''%'' then
       (case cs of
          a # b # rest \<Rightarrow> (case (hex_val a, hex_val b) of
              (Some x, Some y) \<Rightarrow> map_option ((#) (char_of (16 * x + y))) (QueryUnescape rest)
            | _ \<Rightarrow> None)
        | _ \<Rightarrow> None)
     else map_option ((#) (if c = CHR ''+'' then CHR '' '' else c)) (QueryUnescape cs))"

function split_on :: "char \<Rightarrow> string \<Rightarrow> string list" where
  "split_on c s = (case IndexByte s c of None \<Rightarrow> [s] | Some i \<Rightarrow> take i s # split_on c (drop (Suc i) s))"
  by pat_completeness auto
termination
proof (relation "measure (\<lambda>(c, s). length s)")
  show "((c, drop (Suc i) s), (c, s)) \<in> measure (\<lambda>(c, s). length s)" if "IndexByte s c = Some i" for c s i
    using that by (cases s) simp_all
qed simp

declare split_on.simps [simp del]

definition parse_pair :: "string \<Rightarrow> (string \<times> string) option" where
  "parse_pair s = (case SplitN2 s (CHR ''='') of
      [k, v] \<Rightarrow> (case (QueryUnescape k, QueryUnescape v) of (Some k', Some v') \<Rightarrow> Some (k', v') | _ \<Rightarrow> None)
    | _ \<Rightarrow> map_option (\<lambda>k. (k, [])) (QueryUnescape s))"

definition ParseQuery :: "string \<Rightarrow> Values option" where
  "ParseQuery s = those (map parse_pair (filter (\<lambda>p. p \<noteq> []) (split_on (CHR ''&'') s)))"

section \<open>Round trip\<close>

lemma hex_val_digits: "n < 16 \<Longrightarrow> hex_val (hex_digits ! n) = Some n"
proof -
  have "\<forall>n \<in> set [0..<16]. hex_val (hex_digits ! n) = Some n" unfolding hex_digits_def by code_simp
  then show "n < 16 \<Longrightarrow> hex_val (hex_digits ! n) = Some n" by simp
qed

lemma hex_digits_plain: "n < 16 \<Longrightarrow> hex_digits ! n \<notin> {CHR ''&'', CHR ''=''}"
proof -
  have "\<forall>n \<in> set [0..<16]. hex_digits ! n \<notin> {CHR ''&'', CHR ''=''}" unfolding hex_digits_def by code_simp
  then show "n < 16 \<Longrightarrow> hex_digits ! n \<notin> {CHR ''&'', CHR ''=''}" by simp
qed

lemma char_halves: "(of_char c :: nat) div 16 < 16" "(of_char c :: nat) mod 16 < 16"
proof -
  have "(of_char c :: nat) < 256" by simp
  then show "(of_char c :: nat) div 16 < 16" by linarith
  show "(of_char c :: nat) mod 16 < 16" by simp
qed

lemma unreserved_plain: "unreserved c \<Longrightarrow> c \<noteq> CHR ''%'' \<and> c \<noteq> CHR ''+'' \<and> c \<noteq> CHR ''&'' \<and> c \<noteq> CHR ''=''"
  by (auto simp: unreserved_def Let_def)

lemma QueryUnescape_escape_char: "QueryUnescape (escape_char c @ s) = map_option ((#) c) (QueryUnescape s)"
proof (cases "unreserved c")
  case True
  then show ?thesis using unreserved_plain [of c] by (simp add: escape_char_def)
next
  case False
  have "char_of (16 * (of_char c div 16) + of_char c mod 16 :: nat) = c" by simp
  then show ?thesis using False hex_val_digits [OF char_halves(1)] hex_val_digits [OF char_halves(2)]
    by (auto simp: escape_char_def)
qed

lemma QueryUnescape_QueryEscape: "QueryUnescape (QueryEscape s) = Some s"
  by (induction s) (simp_all add: QueryEscape_def QueryUnescape_escape_char)

lemma escape_char_plain: "set (escape_char c) \<inter> {CHR ''&'', CHR ''=''} = {}"
  using hex_digits_plain [OF char_halves(1), of c] hex_digits_plain [OF char_halves(2), of c] unreserved_plain [of c]
  by (auto simp: escape_char_def)

lemma QueryEscape_plain: "CHR ''&'' \<notin> set (QueryEscape s)" "CHR ''='' \<notin> set (QueryEscape s)"
  using escape_char_plain by (fastforce simp: QueryEscape_def)+

lemma pair_text_plain: "CHR ''&'' \<notin> set (pair_text kv)" "pair_text kv \<noteq> []"
  by (simp_all add: pair_text_def QueryEscape_plain)

lemma parse_pair_text: "parse_pair (pair_text kv) = Some kv"
  by (simp add: parse_pair_def pair_text_def SplitN2_append QueryEscape_plain QueryUnescape_QueryEscape)

lemma split_on_no_sep: "c \<notin> set s \<Longrightarrow> split_on c s = [s]"
  by (simp add: split_on.simps [of c s] IndexByte_None_iff split: option.splits)
     (metis IndexByte_None_iff option.distinct(1))

lemma split_on_append: "c \<notin> set s \<Longrightarrow> split_on c (s @ c # t) = s # split_on c t"
  by (simp add: split_on.simps [of c "s @ c # t"] IndexByte_append)

lemma split_on_join:
  "xs \<noteq> [] \<Longrightarrow> (\<And>x. x \<in> set xs \<Longrightarrow> c \<notin> set x) \<Longrightarrow> split_on c (join c xs) = xs"
proof (induction xs)
  case (Cons x xs)
  then show ?case by (cases "xs = []") (simp_all add: split_on_no_sep split_on_append)
qed simp

lemma those_map_Some: "(\<And>x. x \<in> set xs \<Longrightarrow> f x = Some (g x)) \<Longrightarrow> those (map f xs) = Some (map g xs)"
  by (induction xs) simp_all

lemma ParseQuery_Encode: "ParseQuery (Encode q) = Some (sort_key fst q)"
proof (cases "q = []")
  case True
  then show ?thesis by (simp add: ParseQuery_def Encode_def split_on_no_sep)
next
  case False
  let ?ps = "map pair_text (sort_key fst q)"
  have "sort_key fst q \<noteq> []" using False by (metis set_empty set_sort)
  then have "split_on (CHR ''&'') (join (CHR ''&'') ?ps) = ?ps"
    by (intro split_on_join) (auto simp: pair_text_plain)
  moreover have "filter (\<lambda>p. p \<noteq> []) ?ps = ?ps" by (auto simp: filter_id_conv pair_text_plain)
  moreover have "those (map (\<lambda>x. parse_pair (pair_text x)) (sort_key fst q)) = Some (map id (sort_key fst q))"
    by (rule those_map_Some) (simp add: parse_pair_text)
  ultimately show ?thesis by (simp add: ParseQuery_def Encode_def o_def)
qed

end
