(* ===== verification/Across.thy ===== *)
theory Across
  imports World Go_Json Go_Url
begin

text \<open>
  Package \<open>across\<close> (\<open>internal/bridge/across\<close>): the HTTP client of the Across API, quotes, the deposit
  transaction and the deposit status. The API is the environment's \<open>e_http\<close>; go-ethereum's address
  parsing and ABI packing are parameters (record \<open>Geth\<close>).
\<close>

section \<open>client.go\<close>

record AcrossClient =
  ac_baseURL :: string
  ac_APIKey :: string
  ac_IntegratorID :: string

definition across_NewClient :: "string \<Rightarrow> AcrossClient" where
  "across_NewClient baseURL = \<lparr>ac_baseURL = TrimRight baseURL (CHR ''/''), ac_APIKey = '''', ac_IntegratorID = ''''\<rparr>"

text \<open>The part of an exchange after the request was made: errors, status code, decoding.\<close>

definition http_result :: "string \<Rightarrow> 'a decoder \<Rightarrow> 'a \<Rightarrow> http_reply \<Rightarrow> 'a res" where
  "http_result path d zero reply =
    (case reply of
       HttpBadRequest e \<Rightarrow> Inl (Wrap ''build request'' e)
     | HttpFail e \<Rightarrow> Inl (Wrap ''request'' e)
     | HttpReadFail code e \<Rightarrow> Inl (Wrap ''read response body'' e)
     | HttpReply code body doc \<Rightarrow>
         if code < 200 \<or> code \<ge> 300 then Inl (APIError path code body)
         else case doc of
           None \<Rightarrow> Inl (Wrap ''decode response'' (Err ''invalid JSON''))
         | Some j \<Rightarrow> wrap_err ''decode response'' (d j zero))"

definition bearer :: "string \<Rightarrow> (string \<times> string) list" where
  "bearer key = (if key \<noteq> '''' then [(''Authorization'', ''Bearer '' @ key)] else [])"

definition across_request :: "AcrossClient \<Rightarrow> string \<Rightarrow> Values \<Rightarrow> http_request" where
  "across_request c path query =
    (let query' = (if ac_IntegratorID c \<noteq> '''' then Set ''integratorId'' (ac_IntegratorID c) query else query);
         u = ac_baseURL c @ path
     in \<lparr>hr_Method = ''GET'', hr_URL = (if query' \<noteq> [] then u @ ''?'' @ Encode query' else u),
         hr_Header = bearer (ac_APIKey c), hr_Body = None\<rparr>)"

definition across_get :: "AcrossClient \<Rightarrow> env \<Rightarrow> string \<Rightarrow> Values \<Rightarrow> 'a decoder \<Rightarrow> 'a \<Rightarrow> 'a res" where
  "across_get c i path query d zero = http_result path d zero (e_http i (across_request c path query))"

section \<open>quote.go\<close>

abbreviation ErrAmountTooLow :: err where
  "ErrAmountTooLow \<equiv> Err ''across reports this amount is too low for the requested route''"

record QuoteTokenInfo =
  qt_Address :: string
  qt_ChainID :: int
  qt_Decimals :: int

record SuggestedFeesResponse =
  sf_OutputAmount :: string
  sf_FillDeadline :: string
  sf_ExclusivityDeadline :: int
  sf_ExclusiveRelayer :: string
  sf_Timestamp :: string
  sf_SpokePoolAddress :: string
  sf_IsAmountTooLow :: bool
  sf_EstimatedFillTimeSec :: int
  sf_InputToken :: QuoteTokenInfo
  sf_OutputToken :: QuoteTokenInfo

definition dec_QuoteTokenInfo :: "QuoteTokenInfo decoder" where
  "dec_QuoteTokenInfo = dec_struct [
     (''address'', fld qt_Address qt_Address_update dec_string),
     (''chainId'', fld qt_ChainID qt_ChainID_update dec_int64),
     (''decimals'', fld qt_Decimals qt_Decimals_update dec_int64)]"

definition dec_SuggestedFeesResponse :: "SuggestedFeesResponse decoder" where
  "dec_SuggestedFeesResponse = dec_struct [
     (''outputAmount'', fld sf_OutputAmount sf_OutputAmount_update dec_string),
     (''fillDeadline'', fld sf_FillDeadline sf_FillDeadline_update dec_string),
     (''exclusivityDeadline'', fld sf_ExclusivityDeadline sf_ExclusivityDeadline_update dec_int64),
     (''exclusiveRelayer'', fld sf_ExclusiveRelayer sf_ExclusiveRelayer_update dec_string),
     (''timestamp'', fld sf_Timestamp sf_Timestamp_update dec_string),
     (''spokePoolAddress'', fld sf_SpokePoolAddress sf_SpokePoolAddress_update dec_string),
     (''isAmountTooLow'', fld sf_IsAmountTooLow sf_IsAmountTooLow_update dec_bool),
     (''estimatedFillTimeSec'', fld sf_EstimatedFillTimeSec sf_EstimatedFillTimeSec_update dec_int64),
     (''inputToken'', fld sf_InputToken sf_InputToken_update dec_QuoteTokenInfo),
     (''outputToken'', fld sf_OutputToken sf_OutputToken_update dec_QuoteTokenInfo)]"

definition token_zero :: QuoteTokenInfo where
  "token_zero = \<lparr>qt_Address = '''', qt_ChainID = 0, qt_Decimals = 0\<rparr>"

definition fees_zero :: SuggestedFeesResponse where
  "fees_zero = \<lparr>sf_OutputAmount = '''', sf_FillDeadline = '''', sf_ExclusivityDeadline = 0, sf_ExclusiveRelayer = '''',
     sf_Timestamp = '''', sf_SpokePoolAddress = '''', sf_IsAmountTooLow = False, sf_EstimatedFillTimeSec = 0,
     sf_InputToken = token_zero, sf_OutputToken = token_zero\<rparr>"

definition fees_query :: "int \<Rightarrow> int \<Rightarrow> string \<Rightarrow> string \<Rightarrow> string \<Rightarrow> Values" where
  "fees_query originChainID destinationChainID inputToken outputToken amount =
     Set ''amount'' amount (Set ''outputToken'' outputToken (Set ''inputToken'' inputToken
       (Set ''destinationChainId'' (Int_String destinationChainID) (Set ''originChainId'' (Int_String originChainID) []))))"

definition SuggestedFees ::
    "AcrossClient \<Rightarrow> env \<Rightarrow> int \<Rightarrow> int \<Rightarrow> string \<Rightarrow> string \<Rightarrow> string \<Rightarrow> SuggestedFeesResponse res" where
  "SuggestedFees c i originChainID destinationChainID inputToken outputToken amount =
    (case across_get c i ''/suggested-fees'' (fees_query originChainID destinationChainID inputToken outputToken amount)
            dec_SuggestedFeesResponse fees_zero of
       Inl err \<Rightarrow> Inl err
     | Inr out \<Rightarrow> if sf_IsAmountTooLow out then Inl (Wrap ''suggested fees'' ErrAmountTooLow) else Inr out)"

section \<open>provider.go\<close>

definition wethAddressByChainID :: "int \<rightharpoonup> string" where
  "wethAddressByChainID = [11155111 \<mapsto> ''0xfFf9976782d46CC05630D1f6eBAb18b2324d6B14'',
                           84532 \<mapsto> ''0x4200000000000000000000000000000000000006'']"

record AcrossPayload =
  ap_ExclusiveRelayer :: string
  ap_QuoteTimestamp :: string
  ap_FillDeadline :: string
  ap_ExclusivityDeadline :: int
  ap_SpokePoolAddress :: string

definition payload_zero :: AcrossPayload where
  "payload_zero = \<lparr>ap_ExclusiveRelayer = '''', ap_QuoteTimestamp = '''', ap_FillDeadline = '''', ap_ExclusivityDeadline = 0,
     ap_SpokePoolAddress = ''''\<rparr>"

text \<open>\<open>json.Marshal(payload)\<close>, with the struct's tags.\<close>

definition across_payload_json :: "AcrossPayload \<Rightarrow> json" where
  "across_payload_json p = JObj [
     (''exclusiveRelayer'', JStr (ap_ExclusiveRelayer p)), (''quoteTimestamp'', JStr (ap_QuoteTimestamp p)),
     (''fillDeadline'', JStr (ap_FillDeadline p)), (''exclusivityDeadline'', JNum (Int_String (ap_ExclusivityDeadline p))),
     (''spokePoolAddress'', JStr (ap_SpokePoolAddress p))]"

definition dec_AcrossPayload :: "AcrossPayload decoder" where
  "dec_AcrossPayload = dec_struct [
     (''exclusiveRelayer'', fld ap_ExclusiveRelayer ap_ExclusiveRelayer_update dec_string),
     (''quoteTimestamp'', fld ap_QuoteTimestamp ap_QuoteTimestamp_update dec_string),
     (''fillDeadline'', fld ap_FillDeadline ap_FillDeadline_update dec_string),
     (''exclusivityDeadline'', fld ap_ExclusivityDeadline ap_ExclusivityDeadline_update dec_int64),
     (''spokePoolAddress'', fld ap_SpokePoolAddress ap_SpokePoolAddress_update dec_string)]"

text \<open>\<open>Unmarshal\<close> of an absent document fails; \<open>None\<close> is the nil \<open>json.RawMessage\<close>.\<close>

definition unmarshal :: "'a decoder \<Rightarrow> 'a \<Rightarrow> json option \<Rightarrow> 'a res" where
  "unmarshal d zero raw = (case raw of None \<Rightarrow> Inl (Err ''unexpected end of JSON input'') | Some j \<Rightarrow> d j zero)"

definition DecodeQuotePayload :: "json option \<Rightarrow> AcrossPayload res" where
  "DecodeQuotePayload raw = wrap_err ''decode across quote payload'' (unmarshal dec_AcrossPayload payload_zero raw)"

record AcrossProvider =
  av_Client :: AcrossClient
  av_QuoteTTL :: time
  av_WalletAddress :: address
  av_SpokePoolAddress :: address
  av_WETHOrigin :: address
  av_WETHDestination :: address
  av_OriginChainID :: int

definition unavailable_quote :: "string \<Rightarrow> Request \<Rightarrow> time \<Rightarrow> time \<Rightarrow> BQuote" where
  "unavailable_quote name req now ttl = \<lparr>b_ProviderName = name, b_SourceChainID = rq_SourceChainID req,
     b_DestinationChainID = rq_DestinationChainID req, b_Asset = rq_Asset req, b_InputAmountBaseUnits = None,
     b_OutputAmountBaseUnits = None, b_FeeBaseUnits = None, b_EstimatedFillTimeSec = 0, b_Available = False,
     b_QuotedAt = now, b_ExpiresAt = now + ttl, b_RawProviderPayload = None\<rparr>"

text \<open>The part of \<open>GetQuote\<close> after the response arrived: the echoes, the amounts, the payload.\<close>

definition across_quote_of ::
    "AcrossProvider \<Rightarrow> time \<Rightarrow> Request \<Rightarrow> string \<Rightarrow> string \<Rightarrow> SuggestedFeesResponse \<Rightarrow> BQuote res" where
  "across_quote_of p now req inputAddr outputAddr resp =
    (if qt_ChainID (sf_InputToken resp) \<noteq> rq_SourceChainID req \<or> qt_Address (sf_InputToken resp) \<noteq> inputAddr
     then Inl (Err ''across provider: response inputToken does not match request'')
     else if qt_ChainID (sf_OutputToken resp) \<noteq> rq_DestinationChainID req \<or> qt_Address (sf_OutputToken resp) \<noteq> outputAddr
     then Inl (Err ''across provider: response outputToken does not match request'')
     else case SetString10 (sf_OutputAmount resp) of
       None \<Rightarrow> Inl (Err ''across provider: outputAmount is not a valid integer'')
     | Some outputAmount \<Rightarrow>
         let payload = \<lparr>ap_ExclusiveRelayer = sf_ExclusiveRelayer resp, ap_QuoteTimestamp = sf_Timestamp resp,
               ap_FillDeadline = sf_FillDeadline resp, ap_ExclusivityDeadline = sf_ExclusivityDeadline resp,
               ap_SpokePoolAddress = sf_SpokePoolAddress resp\<rparr>
         in Inr \<lparr>b_ProviderName = ''across'', b_SourceChainID = rq_SourceChainID req,
              b_DestinationChainID = rq_DestinationChainID req, b_Asset = rq_Asset req,
              b_InputAmountBaseUnits = Some (rq_AmountBaseUnits req), b_OutputAmountBaseUnits = Some outputAmount,
              b_FeeBaseUnits = Some (rq_AmountBaseUnits req - outputAmount),
              b_EstimatedFillTimeSec = sf_EstimatedFillTimeSec resp, b_Available = True, b_QuotedAt = now,
              b_ExpiresAt = now + av_QuoteTTL p, b_RawProviderPayload = Some (across_payload_json payload)\<rparr>)"

definition across_GetQuote :: "AcrossProvider \<Rightarrow> env \<Rightarrow> Request \<Rightarrow> BQuote res" where
  "across_GetQuote p i req =
    (if rq_Asset req \<noteq> ''WETH'' then Inl (Err ''across provider: unsupported asset (only WETH is supported)'')
     else case wethAddressByChainID (rq_SourceChainID req) of
       None \<Rightarrow> Inl (Err ''across provider: unsupported source chain'')
     | Some inputAddr \<Rightarrow>
        (case wethAddressByChainID (rq_DestinationChainID req) of
           None \<Rightarrow> Inl (Err ''across provider: unsupported destination chain'')
         | Some outputAddr \<Rightarrow>
             let now = e_now i in
             case SuggestedFees (av_Client p) i (rq_SourceChainID req) (rq_DestinationChainID req) inputAddr outputAddr
                    (Int_String (rq_AmountBaseUnits req)) of
               Inl err \<Rightarrow>
                 if err_is err ErrAmountTooLow then Inr (unavailable_quote ''across'' req now (av_QuoteTTL p))
                 else Inl (Wrap ''across provider: get quote'' err)
             | Inr resp \<Rightarrow> across_quote_of p now req inputAddr outputAddr resp))"

section \<open>execute.go\<close>

text \<open>\<open>strconv.ParseUint(s, 10, 32)\<close>.\<close>

definition ParseUint32 :: "string \<Rightarrow> 32 word option" where
  "ParseUint32 s = (case parse_digits s of
      None \<Rightarrow> None
    | Some n \<Rightarrow> if n < 2 ^ 32 then Some (of_nat n) else None)"

definition across_BuildTransaction :: "Geth \<Rightarrow> AcrossProvider \<Rightarrow> BQuote \<Rightarrow> TxEnvelope res" where
  "across_BuildTransaction g p freshQuote =
    (case DecodeQuotePayload (b_RawProviderPayload freshQuote) of
       Inl err \<Rightarrow> Inl (Wrap ''across: decode quote payload'' err)
     | Inr payload \<Rightarrow>
         if g_HexToAddress g (ap_SpokePoolAddress payload) \<noteq> av_SpokePoolAddress p
         then Inl (Err ''across: quoted SpokePool address does not match configured SpokePool'')
         else case ParseUint32 (ap_QuoteTimestamp payload) of
           None \<Rightarrow> Inl (Err ''across: parse quote timestamp'')
         | Some quoteTimestamp \<Rightarrow>
            (case ParseUint32 (ap_FillDeadline payload) of
               None \<Rightarrow> Inl (Err ''across: parse fill deadline'')
             | Some fillDeadline \<Rightarrow>
                (case g_PackDepositV3 g \<lparr>dv_depositor = av_WalletAddress p, dv_recipient = av_WalletAddress p,
                        dv_inputToken = av_WETHOrigin p, dv_outputToken = av_WETHDestination p,
                        dv_inputAmount = b_InputAmountBaseUnits freshQuote,
                        dv_outputAmount = b_OutputAmountBaseUnits freshQuote,
                        dv_destinationChainId = b_DestinationChainID freshQuote,
                        dv_exclusiveRelayer = g_HexToAddress g (ap_ExclusiveRelayer payload),
                        dv_quoteTimestamp = quoteTimestamp, dv_fillDeadline = fillDeadline,
                        dv_exclusivityDeadline = word_of_int (ap_ExclusivityDeadline payload), dv_message = []\<rparr> of
                   Inl err \<Rightarrow> Inl (Wrap ''across: pack depositV3 calldata'' err)
                 | Inr calldata \<Rightarrow> Inr \<lparr>te_To = av_SpokePoolAddress p, te_Value = b_InputAmountBaseUnits freshQuote,
                     te_Data = calldata, te_ChainID = b_SourceChainID freshQuote\<rparr>)))"

section \<open>status.go\<close>

abbreviation ErrDepositNotFound :: err where
  "ErrDepositNotFound \<equiv> Err ''across: deposit not found''"

record DepositStatusResponse =
  ds_Status :: string

definition dec_DepositStatusResponse :: "DepositStatusResponse decoder" where
  "dec_DepositStatusResponse = dec_struct [(''status'', fld ds_Status ds_Status_update dec_string)]"

text \<open>\<open>strings.Contains\<close>.\<close>

fun Contains :: "string \<Rightarrow> string \<Rightarrow> bool" where
  "Contains [] t = (t = [])"
| "Contains (c # s) t = (take (length t) (c # s) = t \<or> Contains s t)"

definition DepositStatusByTxHash :: "AcrossClient \<Rightarrow> env \<Rightarrow> int \<Rightarrow> string \<Rightarrow> DepositStatusResponse res" where
  "DepositStatusByTxHash c i originChainID depositTxHash =
    (case across_get c i ''/deposit/status''
            (Set ''depositTxHash'' depositTxHash (Set ''originChainId'' (Int_String originChainID) []))
            dec_DepositStatusResponse \<lparr>ds_Status = ''''\<rparr> of
       Inl err \<Rightarrow>
        (case as_api_error err of
           Some (path, code, body) \<Rightarrow> if Contains body ''DepositNotFoundException'' then Inl ErrDepositNotFound else Inl err
         | None \<Rightarrow> Inl err)
     | Inr out \<Rightarrow> Inr out)"

definition acrossStatusToState :: "string \<Rightarrow> ExternalState" where
  "acrossStatusToState raw =
    (if raw = ''filled'' then StateFilled
     else if raw = ''expired'' \<or> raw = ''refunded'' then StateRefunded
     else StatePending)"

definition across_CheckStatus :: "AcrossProvider \<Rightarrow> env \<Rightarrow> StatusRequest \<Rightarrow> StatusResult res" where
  "across_CheckStatus p i req =
    (case DepositStatusByTxHash (av_Client p) i (av_OriginChainID p) (sr_OriginTxHash req) of
       Inl err \<Rightarrow> Inl err
     | Inr resp \<Rightarrow> Inr \<lparr>sr_State = acrossStatusToState (ds_Status resp), sr_RawStatus = ds_Status resp,
                        sr_DestinationTxHash = None\<rparr>)"

section \<open>The contract\<close>

lemma across_GetQuote_cases:
  assumes "across_GetQuote p i rq = Inr q"
  obtains (unavailable) "q = unavailable_quote ''across'' rq (e_now i) (av_QuoteTTL p)"
  | (available) inputAddr outputAddr resp where
      "rq_Asset rq = ''WETH''" "wethAddressByChainID (rq_SourceChainID rq) = Some inputAddr"
      "wethAddressByChainID (rq_DestinationChainID rq) = Some outputAddr"
      "SuggestedFees (av_Client p) i (rq_SourceChainID rq) (rq_DestinationChainID rq) inputAddr outputAddr
         (Int_String (rq_AmountBaseUnits rq)) = Inr resp"
      "across_quote_of p (e_now i) rq inputAddr outputAddr resp = Inr q"
  using assms by (auto simp: across_GetQuote_def Let_def split: if_splits option.splits sum.splits)

text \<open>A payload that decodes is the one that was marshalled.\<close>

lemma ToLower_across_keys:
  "ToLower ''exclusiveRelayer'' = ''exclusiverelayer''" "ToLower ''quoteTimestamp'' = ''quotetimestamp''"
  "ToLower ''fillDeadline'' = ''filldeadline''" "ToLower ''exclusivityDeadline'' = ''exclusivitydeadline''"
  "ToLower ''spokePoolAddress'' = ''spokepooladdress''"
  by (code_simp, code_simp, code_simp, code_simp, code_simp)

lemma dec_AcrossPayload_json:
  "dec_AcrossPayload (across_payload_json p) payload_zero =
    (if int64_ok (ap_ExclusivityDeadline p) then Inr p else Inl type_error)"
  by (simp add: dec_AcrossPayload_def across_payload_json_def payload_zero_def fld_def ToLower_across_keys)

interpretation across: bridge_provider "''across''" "across_GetQuote p" "across_BuildTransaction g p" for g p
proof
  fix i rq q assume "across_GetQuote p i rq = Inr q"
  then show "b_ProviderName q = ''across'' \<and> b_SourceChainID q = rq_SourceChainID rq \<and>
      b_DestinationChainID q = rq_DestinationChainID rq \<and> b_Asset q = rq_Asset rq"
    by (cases rule: across_GetQuote_cases)
       (auto simp: unavailable_quote_def across_quote_of_def Let_def split: if_splits option.splits)
next
  fix i rq q assume "across_GetQuote p i rq = Inr q" "b_Available q"
  then show "b_InputAmountBaseUnits q = Some (rq_AmountBaseUnits rq) \<and>
      (\<exists>out. b_OutputAmountBaseUnits q = Some out \<and> b_FeeBaseUnits q = Some (rq_AmountBaseUnits rq - out))"
    by (cases rule: across_GetQuote_cases)
       (auto simp: unavailable_quote_def across_quote_of_def Let_def split: if_splits option.splits)
next
  fix i rq q t assume q: "across_GetQuote p i rq = Inr q" "b_Available q" and t: "across_BuildTransaction g p q = Inr t"
  from q have "b_SourceChainID q = rq_SourceChainID rq"
    by (cases rule: across_GetQuote_cases)
       (auto simp: unavailable_quote_def across_quote_of_def Let_def split: if_splits option.splits)
  then show "te_ChainID t = rq_SourceChainID rq"
    using t by (auto simp: across_BuildTransaction_def split: if_splits option.splits sum.splits)
qed

end
