(* ===== verification/Relay.thy ===== *)
theory Relay
  imports Across
begin

text \<open>
  Package \<open>relay\<close> (\<open>internal/bridge/relay\<close>): the HTTP client of the Relay API, quotes for one-step
  ETH-in/WETH-out transfers, the transaction the API proposes, and the intent status. The rest of an
  HTTP exchange after the request was made is the same text as in the Across client
  (\<open>http_result\<close>).
\<close>

section \<open>client.go\<close>

record RelayClient =
  rc_baseURL :: string
  rc_APIKey :: string

definition relay_NewClient :: "string \<Rightarrow> RelayClient" where
  "relay_NewClient baseURL = \<lparr>rc_baseURL = TrimRight baseURL (CHR ''/''), rc_APIKey = ''''\<rparr>"

definition relay_post :: "RelayClient \<Rightarrow> env \<Rightarrow> string \<Rightarrow> json \<Rightarrow> 'a decoder \<Rightarrow> 'a \<Rightarrow> 'a res" where
  "relay_post c i path body d zero =
     http_result path d zero (e_http i \<lparr>hr_Method = ''POST'', hr_URL = rc_baseURL c @ path,
       hr_Header = (''Content-Type'', ''application/json'') # bearer (rc_APIKey c), hr_Body = Some body\<rparr>)"

definition relay_get :: "RelayClient \<Rightarrow> env \<Rightarrow> string \<Rightarrow> Values \<Rightarrow> 'a decoder \<Rightarrow> 'a \<Rightarrow> 'a res" where
  "relay_get c i path query d zero =
    (let fullPath = (if query \<noteq> [] then path @ ''?'' @ Encode query else path)
     in http_result fullPath d zero (e_http i \<lparr>hr_Method = ''GET'', hr_URL = rc_baseURL c @ fullPath,
          hr_Header = bearer (rc_APIKey c), hr_Body = None\<rparr>))"

section \<open>quote.go: the documents\<close>

abbreviation nativeAddress :: string where
  "nativeAddress \<equiv> ''0x0000000000000000000000000000000000000000''"

record quoteRequestBody =
  rb_User :: string
  rb_OriginChainID :: int
  rb_DestinationChainID :: int
  rb_OriginCurrency :: string
  rb_DestinationCurrency :: string
  rb_Amount :: string
  rb_TradeType :: string

definition request_json :: "quoteRequestBody \<Rightarrow> json" where
  "request_json b = JObj [(''user'', JStr (rb_User b)), (''originChainId'', JNum (Int_String (rb_OriginChainID b))),
     (''destinationChainId'', JNum (Int_String (rb_DestinationChainID b))), (''originCurrency'', JStr (rb_OriginCurrency b)),
     (''destinationCurrency'', JStr (rb_DestinationCurrency b)), (''amount'', JStr (rb_Amount b)),
     (''tradeType'', JStr (rb_TradeType b))]"

record currency =
  cy_ChainID :: int
  cy_Address :: string

record currencyInfo =
  ci_Currency :: currency
  ci_Amount :: string
  ci_MinimumAmount :: string

record quoteStepItemData =
  sd_To :: string
  sd_Data :: string
  sd_Value :: string
  sd_ChainID :: int
  sd_Gas :: string
  sd_MaxFeePerGas :: string
  sd_MaxPriorityFeePerGas :: string

record quoteStepItem =
  si_Data :: quoteStepItemData

record quoteStep =
  qs_Kind :: string
  qs_Items :: "quoteStepItem list"

record details =
  dt_CurrencyIn :: currencyInfo
  dt_CurrencyOut :: currencyInfo
  dt_TimeEstimate :: int
  dt_Recipient :: string

text \<open>\<open>rs_Deadline\<close> is \<open>Protocol.V2.OrderData.Deadline\<close>, three structs deep.\<close>

record quoteResponseBody =
  rs_RequestID :: string
  rs_Steps :: "quoteStep list"
  rs_Details :: details
  rs_Deadline :: int

definition dec_currency :: "currency decoder" where
  "dec_currency = dec_struct [
     (''chainId'', fld cy_ChainID cy_ChainID_update dec_int64),
     (''address'', fld cy_Address cy_Address_update dec_string)]"

definition dec_currencyInfo :: "currencyInfo decoder" where
  "dec_currencyInfo = dec_struct [
     (''currency'', fld ci_Currency ci_Currency_update dec_currency),
     (''amount'', fld ci_Amount ci_Amount_update dec_string),
     (''minimumAmount'', fld ci_MinimumAmount ci_MinimumAmount_update dec_string)]"

definition dec_quoteStepItemData :: "quoteStepItemData decoder" where
  "dec_quoteStepItemData = dec_struct [
     (''to'', fld sd_To sd_To_update dec_string),
     (''data'', fld sd_Data sd_Data_update dec_string),
     (''value'', fld sd_Value sd_Value_update dec_string),
     (''chainId'', fld sd_ChainID sd_ChainID_update dec_int64),
     (''gas'', fld sd_Gas sd_Gas_update dec_string),
     (''maxFeePerGas'', fld sd_MaxFeePerGas sd_MaxFeePerGas_update dec_string),
     (''maxPriorityFeePerGas'', fld sd_MaxPriorityFeePerGas sd_MaxPriorityFeePerGas_update dec_string)]"

definition dec_quoteStepItem :: "quoteStepItem decoder" where
  "dec_quoteStepItem = dec_struct [(''data'', fld si_Data si_Data_update dec_quoteStepItemData)]"

definition item_zero :: quoteStepItem where
  "item_zero = \<lparr>si_Data = \<lparr>sd_To = '''', sd_Data = '''', sd_Value = '''', sd_ChainID = 0, sd_Gas = '''',
     sd_MaxFeePerGas = '''', sd_MaxPriorityFeePerGas = ''''\<rparr>\<rparr>"

definition dec_quoteStep :: "quoteStep decoder" where
  "dec_quoteStep = dec_struct [
     (''kind'', fld qs_Kind qs_Kind_update dec_string),
     (''items'', fld qs_Items qs_Items_update (dec_list dec_quoteStepItem item_zero))]"

definition dec_details :: "details decoder" where
  "dec_details = dec_struct [
     (''currencyIn'', fld dt_CurrencyIn dt_CurrencyIn_update dec_currencyInfo),
     (''currencyOut'', fld dt_CurrencyOut dt_CurrencyOut_update dec_currencyInfo),
     (''timeEstimate'', fld dt_TimeEstimate dt_TimeEstimate_update dec_int64),
     (''recipient'', fld dt_Recipient dt_Recipient_update dec_string)]"

definition dec_protocol :: "int decoder" where
  "dec_protocol = dec_struct [(''v2'', dec_struct [(''orderData'', dec_struct [(''deadline'', dec_int64)])])]"

definition dec_quoteResponseBody :: "quoteResponseBody decoder" where
  "dec_quoteResponseBody = dec_struct [
     (''requestId'', fld rs_RequestID rs_RequestID_update dec_string),
     (''steps'', fld rs_Steps rs_Steps_update (dec_list dec_quoteStep \<lparr>qs_Kind = '''', qs_Items = []\<rparr>)),
     (''details'', fld rs_Details rs_Details_update dec_details),
     (''protocol'', fld rs_Deadline rs_Deadline_update dec_protocol)]"

definition response_zero :: quoteResponseBody where
  "response_zero =
    (let info = \<lparr>ci_Currency = \<lparr>cy_ChainID = 0, cy_Address = ''''\<rparr>, ci_Amount = '''', ci_MinimumAmount = ''''\<rparr>
     in \<lparr>rs_RequestID = '''', rs_Steps = [], rs_Details = \<lparr>dt_CurrencyIn = info, dt_CurrencyOut = info, dt_TimeEstimate = 0,
          dt_Recipient = ''''\<rparr>, rs_Deadline = 0\<rparr>)"

record errorResponseBody =
  eb_Message :: string
  eb_ErrorCode :: string
  eb_RequestID :: string

definition dec_errorResponseBody :: "errorResponseBody decoder" where
  "dec_errorResponseBody = dec_struct [
     (''message'', fld eb_Message eb_Message_update dec_string),
     (''errorCode'', fld eb_ErrorCode eb_ErrorCode_update dec_string),
     (''requestId'', fld eb_RequestID eb_RequestID_update dec_string)]"

record RelayPayload =
  rp_To :: string
  rp_Data :: string
  rp_Value :: string
  rp_ChainID :: int
  rp_RequestID :: string
  rp_Deadline :: int
  rp_Recipient :: string

definition relay_payload_json :: "RelayPayload \<Rightarrow> json" where
  "relay_payload_json p = JObj [(''to'', JStr (rp_To p)), (''data'', JStr (rp_Data p)), (''value'', JStr (rp_Value p)),
     (''chainId'', JNum (Int_String (rp_ChainID p))), (''requestId'', JStr (rp_RequestID p)),
     (''deadline'', JNum (Int_String (rp_Deadline p))), (''recipient'', JStr (rp_Recipient p))]"

definition dec_RelayPayload :: "RelayPayload decoder" where
  "dec_RelayPayload = dec_struct [
     (''to'', fld rp_To rp_To_update dec_string),
     (''data'', fld rp_Data rp_Data_update dec_string),
     (''value'', fld rp_Value rp_Value_update dec_string),
     (''chainId'', fld rp_ChainID rp_ChainID_update dec_int64),
     (''requestId'', fld rp_RequestID rp_RequestID_update dec_string),
     (''deadline'', fld rp_Deadline rp_Deadline_update dec_int64),
     (''recipient'', fld rp_Recipient rp_Recipient_update dec_string)]"

definition relay_payload_zero :: RelayPayload where
  "relay_payload_zero = \<lparr>rp_To = '''', rp_Data = '''', rp_Value = '''', rp_ChainID = 0, rp_RequestID = '''', rp_Deadline = 0,
     rp_Recipient = ''''\<rparr>"

section \<open>quote.go: GetQuote\<close>

record RelayProvider =
  rv_Client :: RelayClient
  rv_WalletAddress :: address
  rv_QuoteTTL :: time

text \<open>\<open>doc\<close> is what the body of the error response parses to.\<close>

definition isNoRoutesFound :: "json option \<Rightarrow> err \<Rightarrow> bool" where
  "isNoRoutesFound doc err =
    (case err of
       APIError path code body \<Rightarrow>
        (case unmarshal dec_errorResponseBody \<lparr>eb_Message = '''', eb_ErrorCode = '''', eb_RequestID = ''''\<rparr> doc of
           Inl _ \<Rightarrow> False
         | Inr b \<Rightarrow> eb_ErrorCode b = ''NO_SWAP_ROUTES_FOUND'')
     | _ \<Rightarrow> False)"

definition reply_doc :: "http_reply \<Rightarrow> json option" where
  "reply_doc r = (case r of HttpReply code body doc \<Rightarrow> doc | _ \<Rightarrow> None)"

definition relay_quote_request :: "Geth \<Rightarrow> RelayProvider \<Rightarrow> Request \<Rightarrow> string \<Rightarrow> quoteRequestBody" where
  "relay_quote_request g p req destAddr = \<lparr>rb_User = g_AddressHex g (rv_WalletAddress p),
     rb_OriginChainID = rq_SourceChainID req, rb_DestinationChainID = rq_DestinationChainID req,
     rb_OriginCurrency = nativeAddress, rb_DestinationCurrency = destAddr,
     rb_Amount = Int_String (rq_AmountBaseUnits req), rb_TradeType = ''EXACT_INPUT''\<rparr>"

text \<open>The checks and the quote after the response arrived.\<close>

definition relay_quote_of :: "RelayProvider \<Rightarrow> time \<Rightarrow> Request \<Rightarrow> string \<Rightarrow> quoteResponseBody \<Rightarrow> BQuote res" where
  "relay_quote_of p now req destAddr resp =
    (if length (rs_Steps resp) \<noteq> 1 \<or> qs_Kind (rs_Steps resp ! 0) \<noteq> ''transaction'' \<or> length (qs_Items (rs_Steps resp ! 0)) \<noteq> 1
     then Inl (Err ''relay provider: expected exactly one transaction step -- refusing an unsupported multi-step execution model'')
     else
        (let item = si_Data (qs_Items (rs_Steps resp ! 0) ! 0); cin = dt_CurrencyIn (rs_Details resp); cout = dt_CurrencyOut (rs_Details resp) in
         if rs_RequestID resp = ''''
         then Inl (Err ''relay provider: response requestId is empty -- refusing a quote we cannot reference for reconciliation later'')
         else if cy_ChainID (ci_Currency cin) \<noteq> rq_SourceChainID req \<or> cy_Address (ci_Currency cin) \<noteq> nativeAddress
         then Inl (Err ''relay provider: response currencyIn does not match request'')
         else if cy_ChainID (ci_Currency cout) \<noteq> rq_DestinationChainID req \<or> cy_Address (ci_Currency cout) \<noteq> destAddr
         then Inl (Err ''relay provider: response currencyOut does not match request'')
         else if sd_ChainID item \<noteq> rq_SourceChainID req
         then Inl (Err ''relay provider: transaction step chainId does not match origin chain'')
         else case SetString10 (ci_MinimumAmount cout) of
           None \<Rightarrow> Inl (Err ''relay provider: minimumAmount is not a valid integer'')
         | Some outputAmount \<Rightarrow>
             if outputAmount \<ge> rq_AmountBaseUnits req
             then Inl (Err ''relay provider: quoted output amount is not less than the input amount -- refusing an implausible quote'')
             else
               let payload = \<lparr>rp_To = sd_To item, rp_Data = sd_Data item, rp_Value = sd_Value item, rp_ChainID = sd_ChainID item,
                     rp_RequestID = rs_RequestID resp, rp_Deadline = rs_Deadline resp, rp_Recipient = dt_Recipient (rs_Details resp)\<rparr>
               in Inr \<lparr>b_ProviderName = ''relay'', b_SourceChainID = rq_SourceChainID req,
                    b_DestinationChainID = rq_DestinationChainID req, b_Asset = rq_Asset req,
                    b_InputAmountBaseUnits = Some (rq_AmountBaseUnits req), b_OutputAmountBaseUnits = Some outputAmount,
                    b_FeeBaseUnits = Some (rq_AmountBaseUnits req - outputAmount),
                    b_EstimatedFillTimeSec = dt_TimeEstimate (rs_Details resp), b_Available = True, b_QuotedAt = now,
                    b_ExpiresAt = now + rv_QuoteTTL p, b_RawProviderPayload = Some (relay_payload_json payload)\<rparr>))"

definition relay_GetQuote :: "Geth \<Rightarrow> RelayProvider \<Rightarrow> env \<Rightarrow> Request \<Rightarrow> BQuote res" where
  "relay_GetQuote g p i req =
    (if rq_Asset req \<noteq> ''WETH'' then Inl (Err ''relay provider: unsupported asset (only WETH is supported)'')
     else case wethAddressByChainID (rq_DestinationChainID req) of
       None \<Rightarrow> Inl (Err ''relay provider: unsupported destination chain'')
     | Some destAddr \<Rightarrow>
         if wethAddressByChainID (rq_SourceChainID req) = None then Inl (Err ''relay provider: unsupported source chain'')
         else
           let now = e_now i; body = request_json (relay_quote_request g p req destAddr) in
           case relay_post (rv_Client p) i ''/quote'' body dec_quoteResponseBody response_zero of
             Inl err \<Rightarrow>
               if isNoRoutesFound (reply_doc (e_http i \<lparr>hr_Method = ''POST'', hr_URL = rc_baseURL (rv_Client p) @ ''/quote'',
                    hr_Header = (''Content-Type'', ''application/json'') # bearer (rc_APIKey (rv_Client p)), hr_Body = Some body\<rparr>)) err
               then Inr (unavailable_quote ''relay'' req now (rv_QuoteTTL p))
               else Inl (Wrap ''relay provider: get quote'' err)
           | Inr resp \<Rightarrow> relay_quote_of p now req destAddr resp)"

section \<open>execute.go\<close>

text \<open>\<open>hex.DecodeString\<close> on a string of even length.\<close>

fun hex_DecodeString :: "string \<Rightarrow> bytes option" where
  "hex_DecodeString [] = Some []"
| "hex_DecodeString (a # b # rest) =
    (case (hex_val a, hex_val b) of
       (Some x, Some y) \<Rightarrow> map_option ((#) (char_of (16 * x + y))) (hex_DecodeString rest)
     | _ \<Rightarrow> None)"
| "hex_DecodeString [a] = None"

definition relay_BuildTransaction :: "Geth \<Rightarrow> RelayProvider \<Rightarrow> BQuote \<Rightarrow> TxEnvelope res" where
  "relay_BuildTransaction g p freshQuote =
    (case unmarshal dec_RelayPayload relay_payload_zero (b_RawProviderPayload freshQuote) of
       Inl err \<Rightarrow> Inl (Wrap ''relay: decode quote payload'' err)
     | Inr payload \<Rightarrow>
         if rp_Recipient payload = '''' \<or> g_HexToAddress g (rp_Recipient payload) \<noteq> rv_WalletAddress p
         then Inl (Err ''relay: quote payload has no verifiable recipient -- refusing to build a transaction without recipient verification'')
         else case SetString10 (rp_Value payload) of
           None \<Rightarrow> Inl (Err ''relay: value is not a valid integer'')
         | Some val \<Rightarrow>
             let dataHex = (if length (rp_Data payload) \<ge> 2 \<and> ToLower (take 2 (rp_Data payload)) = ''0x''
                            then drop 2 (rp_Data payload) else rp_Data payload)
             in if length dataHex mod 2 \<noteq> 0
                then Inl (Err ''relay: data has an odd-length hex payload -- refusing to guess a padding for unverifiable calldata about to be signed'')
                else case hex_DecodeString dataHex of
                  None \<Rightarrow> Inl (Err ''relay: data is not valid hex'')
                | Some dat \<Rightarrow> Inr \<lparr>te_To = g_HexToAddress g (rp_To payload), te_Value = Some val, te_Data = dat,
                    te_ChainID = rp_ChainID payload\<rparr>)"

section \<open>status.go\<close>

record intentStatusResponse =
  is_Status :: string
  is_TxHashes :: "string list"
  is_InTxHashes :: "string list"

definition dec_intentStatusResponse :: "intentStatusResponse decoder" where
  "dec_intentStatusResponse = dec_struct [
     (''status'', fld is_Status is_Status_update dec_string),
     (''txHashes'', fld is_TxHashes is_TxHashes_update (dec_list dec_string '''')),
     (''inTxHashes'', fld is_InTxHashes is_InTxHashes_update (dec_list dec_string ''''))]"

definition relayStatusToState :: "string \<Rightarrow> ExternalState" where
  "relayStatusToState raw =
    (if raw = ''success'' then StateFilled
     else if raw = ''refund'' then StateRefunded
     else if raw = ''failure'' then StateFillFailed
     else if raw \<in> {''waiting'', ''depositing'', ''pending'', ''submitted'', ''delayed''} then StatePending
     else StatePending)"

definition relay_CheckStatus :: "RelayProvider \<Rightarrow> env \<Rightarrow> StatusRequest \<Rightarrow> StatusResult res" where
  "relay_CheckStatus p i req =
    (if sr_ProviderReferenceID req = ''''
     then Inl (Err ''relay: CheckStatus requires a ProviderReferenceID (requestId)'')
     else case relay_get (rv_Client p) i ''/intents/status'' (Set ''requestId'' (sr_ProviderReferenceID req) [])
                 dec_intentStatusResponse \<lparr>is_Status = '''', is_TxHashes = [], is_InTxHashes = []\<rparr> of
       Inl err \<Rightarrow> Inl err
     | Inr resp \<Rightarrow> Inr \<lparr>sr_State = relayStatusToState (is_Status resp), sr_RawStatus = is_Status resp,
         sr_DestinationTxHash = (case is_TxHashes resp of [] \<Rightarrow> None | h # _ \<Rightarrow> Some h)\<rparr>)"

section \<open>The contract\<close>

lemma relay_GetQuote_cases:
  assumes "relay_GetQuote g p i rq = Inr q"
  obtains (unavailable) "q = unavailable_quote ''relay'' rq (e_now i) (rv_QuoteTTL p)"
  | (available) destAddr resp where
      "rq_Asset rq = ''WETH''" "wethAddressByChainID (rq_SourceChainID rq) \<noteq> None"
      "wethAddressByChainID (rq_DestinationChainID rq) = Some destAddr"
      "relay_post (rv_Client p) i ''/quote'' (request_json (relay_quote_request g p rq destAddr))
         dec_quoteResponseBody response_zero = Inr resp"
      "relay_quote_of p (e_now i) rq destAddr resp = Inr q"
  using assms by (auto simp: relay_GetQuote_def Let_def split: if_splits option.splits sum.splits)

text \<open>What the accepted response said, and the payload the quote carries.\<close>

lemma relay_quote_of_Inr:
  assumes "relay_quote_of p now rq destAddr resp = Inr q"
  obtains item out where
    "item = si_Data (qs_Items (rs_Steps resp ! 0) ! 0)" "rs_RequestID resp \<noteq> ''''" "sd_ChainID item = rq_SourceChainID rq"
    "SetString10 (ci_MinimumAmount (dt_CurrencyOut (rs_Details resp))) = Some out" "out < rq_AmountBaseUnits rq"
    "q = \<lparr>b_ProviderName = ''relay'', b_SourceChainID = rq_SourceChainID rq, b_DestinationChainID = rq_DestinationChainID rq,
       b_Asset = rq_Asset rq, b_InputAmountBaseUnits = Some (rq_AmountBaseUnits rq), b_OutputAmountBaseUnits = Some out,
       b_FeeBaseUnits = Some (rq_AmountBaseUnits rq - out), b_EstimatedFillTimeSec = dt_TimeEstimate (rs_Details resp),
       b_Available = True, b_QuotedAt = now, b_ExpiresAt = now + rv_QuoteTTL p,
       b_RawProviderPayload = Some (relay_payload_json \<lparr>rp_To = sd_To item, rp_Data = sd_Data item, rp_Value = sd_Value item,
         rp_ChainID = sd_ChainID item, rp_RequestID = rs_RequestID resp, rp_Deadline = rs_Deadline resp,
         rp_Recipient = dt_Recipient (rs_Details resp)\<rparr>)\<rparr>"
  using assms by (auto simp: relay_quote_of_def Let_def split: if_splits option.splits)

text \<open>A payload that decodes is the one that was marshalled.\<close>

lemma ToLower_keys:
  "ToLower ''to'' = ''to''" "ToLower ''data'' = ''data''" "ToLower ''value'' = ''value''" "ToLower ''chainId'' = ''chainid''"
  "ToLower ''requestId'' = ''requestid''" "ToLower ''deadline'' = ''deadline''" "ToLower ''recipient'' = ''recipient''"
  by (code_simp, code_simp, code_simp, code_simp, code_simp, code_simp, code_simp)

lemma dec_RelayPayload_json:
  "dec_RelayPayload (relay_payload_json p) relay_payload_zero =
    (if int64_ok (rp_ChainID p) \<and> int64_ok (rp_Deadline p) then Inr p else Inl type_error)"
  by (simp add: dec_RelayPayload_def relay_payload_json_def relay_payload_zero_def fld_def ToLower_keys)

interpretation relay: bridge_provider "''relay''" "relay_GetQuote g p" "relay_BuildTransaction g p" for g p
proof
  fix i rq q assume "relay_GetQuote g p i rq = Inr q"
  then show "b_ProviderName q = ''relay'' \<and> b_SourceChainID q = rq_SourceChainID rq \<and>
      b_DestinationChainID q = rq_DestinationChainID rq \<and> b_Asset q = rq_Asset rq"
    by (cases rule: relay_GetQuote_cases) (auto simp: unavailable_quote_def elim: relay_quote_of_Inr)
next
  fix i rq q assume "relay_GetQuote g p i rq = Inr q" "b_Available q"
  then show "b_InputAmountBaseUnits q = Some (rq_AmountBaseUnits rq) \<and>
      (\<exists>out. b_OutputAmountBaseUnits q = Some out \<and> b_FeeBaseUnits q = Some (rq_AmountBaseUnits rq - out))"
    by (cases rule: relay_GetQuote_cases) (auto simp: unavailable_quote_def elim: relay_quote_of_Inr)
next
  fix i rq q t assume "relay_GetQuote g p i rq = Inr q" "b_Available q" and t: "relay_BuildTransaction g p q = Inr t"
  then show "te_ChainID t = rq_SourceChainID rq"
  proof (cases rule: relay_GetQuote_cases)
    case (available destAddr resp)
    from available(5) obtain pl where "b_RawProviderPayload q = Some (relay_payload_json pl)" "rp_ChainID pl = rq_SourceChainID rq"
      by (auto elim!: relay_quote_of_Inr)
    then show ?thesis using t
      by (auto simp: relay_BuildTransaction_def unmarshal_def dec_RelayPayload_json Let_def split: if_splits option.splits)
  qed (simp add: unavailable_quote_def)
qed

end
