(* ===== verification/Wiring.thy ===== *)
theory Wiring
  imports Worker Relay Handler
begin

text \<open>
  The wiring of the two programs: reading the environment variables and building the executor, the
  reconciler and the event handler (\<open>cmd/worker/main.go\<close>), and the route registry and the
  HTTP handler (\<open>cmd/server/main.go\<close>). \<open>getenv\<close> is \<open>os.Getenv\<close>: an unset variable reads as the empty string.
  \<open>os.Exit(1)\<close> is an error. Durations are \<open>int64\<close> nanoseconds; the model's clock counts microseconds.
  The Kafka settings and the goroutines are in
  \<open>Worker_Main\<close>, the routes in \<open>Server_Main\<close>, tracing, listening and shutdown in \<open>Startup\<close>.
\<close>

section \<open>Environment variables\<close>

type_synonym getenv = "string \<Rightarrow> string"

definition envOrDefault :: "getenv \<Rightarrow> string \<Rightarrow> string \<Rightarrow> string" where
  "envOrDefault getenv key def = (if getenv key \<noteq> '''' then getenv key else def)"

text \<open>Go on with the value, or stop with the error.\<close>

definition bindr :: "'a res \<Rightarrow> ('a \<Rightarrow> 'b res) \<Rightarrow> 'b res" where
  "bindr r k = (case r of Inl err \<Rightarrow> Inl err | Inr a \<Rightarrow> k a)"

definition int64 :: "int \<Rightarrow> int" where
  "int64 n = sint (word_of_int n :: 64 word)"

definition envDuration :: "getenv \<Rightarrow> string \<Rightarrow> int \<Rightarrow> int \<Rightarrow> int res" where
  "envDuration getenv key def unit =
    (let v = getenv key in
     if v = '''' then Inr def
     else case ParseInt64 v of
       None \<Rightarrow> Inl (Err ''invalid environment variable'')
     | Some n \<Rightarrow> Inr (int64 (n * unit)))"

definition envBigInt :: "getenv \<Rightarrow> string \<Rightarrow> int \<Rightarrow> int res" where
  "envBigInt getenv key def =
    (let v = getenv key in
     if v = '''' then Inr def
     else case SetString10 v of
       None \<Rightarrow> Inl (Err ''invalid environment variable: not a valid base-10 integer'')
     | Some n \<Rightarrow> Inr n)"

definition envInt64 :: "getenv \<Rightarrow> string \<Rightarrow> int \<Rightarrow> int res" where
  "envInt64 getenv key def =
    (let v = getenv key in
     if v = '''' then Inr def
     else case ParseInt64 v of
       None \<Rightarrow> Inl (Err ''invalid environment variable'')
     | Some n \<Rightarrow> Inr n)"

abbreviation Second :: int where
  "Second \<equiv> 1000000000"

abbreviation Millisecond :: int where
  "Millisecond \<equiv> 1000000"

definition micros :: "int \<Rightarrow> time" where
  "micros d = d div 1000"

section \<open>Interface values\<close>

text \<open>The two providers as the interfaces the executor, the reconciler and the registry hold.\<close>

definition across_provider :: "AcrossProvider \<Rightarrow> env Provider" where
  "across_provider p = \<lparr>pv_Name = ''across'', pv_GetQuote = across_GetQuote p\<rparr>"

definition relay_provider :: "Geth \<Rightarrow> RelayProvider \<Rightarrow> env Provider" where
  "relay_provider g p = \<lparr>pv_Name = ''relay'', pv_GetQuote = relay_GetQuote g p\<rparr>"

definition across_signer :: "Geth \<Rightarrow> AcrossProvider \<Rightarrow> env Signer" where
  "across_signer g p = Provider.extend (across_provider p) \<lparr>sg_BuildTransaction = across_BuildTransaction g p\<rparr>"

definition relay_signer :: "Geth \<Rightarrow> RelayProvider \<Rightarrow> env Signer" where
  "relay_signer g p = Provider.extend (relay_provider g p) \<lparr>sg_BuildTransaction = relay_BuildTransaction g p\<rparr>"

definition across_checker :: "AcrossProvider \<Rightarrow> env StatusChecker" where
  "across_checker p = Provider.extend (across_provider p) \<lparr>sc_CheckStatus = across_CheckStatus p\<rparr>"

definition relay_checker :: "Geth \<Rightarrow> RelayProvider \<Rightarrow> env StatusChecker" where
  "relay_checker g p = Provider.extend (relay_provider g p) \<lparr>sc_CheckStatus = relay_CheckStatus p\<rparr>"

section \<open>cmd/worker\<close>

text \<open>The bridge clients and providers, from the environment.\<close>

definition across_client :: "getenv \<Rightarrow> AcrossClient" where
  "across_client getenv = (across_NewClient (envOrDefault getenv ''ACROSS_TESTNET_API_URL'' ''https://testnet.across.to/api''))
     \<lparr>ac_APIKey := getenv ''ACROSS_API_KEY'', ac_IntegratorID := getenv ''ACROSS_INTEGRATOR_ID''\<rparr>"

definition relay_client :: "getenv \<Rightarrow> RelayClient" where
  "relay_client getenv = (relay_NewClient (envOrDefault getenv ''RELAY_TESTNET_API_URL'' ''https://api.testnets.relay.link''))
     \<lparr>rc_APIKey := getenv ''RELAY_API_KEY''\<rparr>"

definition worker_across :: "Geth \<Rightarrow> getenv \<Rightarrow> Wallet \<Rightarrow> int \<Rightarrow> AcrossProvider" where
  "worker_across g getenv wallet ttl = \<lparr>av_Client = across_client getenv, av_QuoteTTL = micros ttl,
     av_WalletAddress = wl_Address wallet,
     av_SpokePoolAddress = g_HexToAddress g ''0x5ef6C01E11889d86803e0B23e3cB3F9E9d97B662'',
     av_WETHOrigin = g_HexToAddress g ''0xfFf9976782d46CC05630D1f6eBAb18b2324d6B14'',
     av_WETHDestination = g_HexToAddress g ''0x4200000000000000000000000000000000000006'',
     av_OriginChainID = 11155111\<rparr>"

definition worker_relay :: "getenv \<Rightarrow> Wallet \<Rightarrow> int \<Rightarrow> RelayProvider" where
  "worker_relay getenv wallet ttl = \<lparr>rv_Client = relay_client getenv, rv_WalletAddress = wl_Address wallet, rv_QuoteTTL = micros ttl\<rparr>"

text \<open>The executor and the reconciler of a worker in testnet mode.\<close>

definition worker_executor :: "Geth \<Rightarrow> getenv \<Rightarrow> Wallet \<Rightarrow> int \<Rightarrow> int \<Rightarrow> int \<Rightarrow> Executor" where
  "worker_executor g getenv wallet maxTestnetAmountWei maxFeeSlippageBps ttl =
    (let a = worker_across g getenv wallet ttl; r = worker_relay getenv wallet ttl in
     \<lparr>ex_Geth = g, ex_Wallet = wallet,
       ex_QuoteProviders = [''across'' \<mapsto> across_provider a, ''relay'' \<mapsto> relay_provider g r],
       ex_Signers = [''across'' \<mapsto> across_signer g a, ''relay'' \<mapsto> relay_signer g r],
       ex_ExpectedContractByProvider = [''across'' \<mapsto> av_SpokePoolAddress a,
         ''relay'' \<mapsto> g_HexToAddress g (envOrDefault getenv ''RELAY_DEPOSIT_CONTRACT_SEPOLIA'' ''0x5feaB8db4534f9F7e2669bb260C57A01aD1c12E3'')],
       ex_MaxFeeSlippageBps = maxFeeSlippageBps, ex_OriginChainID = 11155111, ex_DestChainID = 84532,
       ex_MaxAmountWei = Some maxTestnetAmountWei\<rparr>)"

definition worker_reconciler :: "Geth \<Rightarrow> getenv \<Rightarrow> Wallet \<Rightarrow> Executor \<Rightarrow> int \<Rightarrow> int \<Rightarrow> Reconciler" where
  "worker_reconciler g getenv wallet e ttl reconcileStaleness =
     \<lparr>rc_Executor = e,
       rc_StatusCheckers = [''across'' \<mapsto> across_checker (worker_across g getenv wallet ttl),
                            ''relay'' \<mapsto> relay_checker g (worker_relay getenv wallet ttl)],
       rc_WalletAddress = wl_Address wallet, rc_Staleness = micros reconcileStaleness\<rparr>"

text \<open>
  The branch of \<open>main\<close> for \<open>BLOCKCHAIN_ENV=testnet\<close>, up to the start of the goroutines: the required
  variables, the wallet, the two chain connections with their chain identifiers, the nonce seeding,
  the configuration. \<open>dial\<close> and \<open>chain_id\<close> answer for the RPC endpoints. A worker without that setting
  has neither executor nor reconciler.
\<close>

definition start_testnet ::
    "Geth \<Rightarrow> getenv \<Rightarrow> (string \<Rightarrow> 'c res) \<Rightarrow> (string \<Rightarrow> int res) \<Rightarrow> int \<Rightarrow> (Executor \<times> Reconciler) res pr" where
  "start_testnet g getenv dial chain_id reconcileStaleness =
    (let key = getenv ''TESTNET_WALLET_PRIVATE_KEY''; sepoliaRPC = getenv ''ETHEREUM_SEPOLIA_RPC_URL'';
         baseSepoliaRPC = getenv ''BASE_SEPOLIA_RPC_URL'' in
     if key = '''' then Done (Inl (Err ''TESTNET_WALLET_PRIVATE_KEY is required when BLOCKCHAIN_ENV=testnet''))
     else if sepoliaRPC = '''' \<or> baseSepoliaRPC = ''''
     then Done (Inl (Err ''ETHEREUM_SEPOLIA_RPC_URL and BASE_SEPOLIA_RPC_URL are required when BLOCKCHAIN_ENV=testnet''))
     else tryp (Done (envBigInt getenv ''MAX_TESTNET_AMOUNT_WEI'' 10000000000000000)) (\<lambda>err. Done (Inl err)) (\<lambda>maxTestnetAmountWei.
     tryp (Done (LoadWallet g key)) (\<lambda>err. Done (Inl err)) (\<lambda>wallet.
     tryp (Done (Dial (dial sepoliaRPC) (chain_id sepoliaRPC) 11155111)) (\<lambda>err. Done (Inl err)) (\<lambda>_.
     tryp (Done (Dial (dial baseSepoliaRPC) (chain_id baseSepoliaRPC) 84532)) (\<lambda>err. Done (Inl err)) (\<lambda>_.
     tryp (seed_wallet (worker_executor g getenv wallet 0 0 0)) (\<lambda>err. Done (Inl err)) (\<lambda>_.
     tryp (Done (envInt64 getenv ''MAX_FEE_SLIPPAGE_BPS'' 500)) (\<lambda>err. Done (Inl err)) (\<lambda>maxFeeSlippageBps.
     tryp (Done (envDuration getenv ''ROUTING_QUOTE_TTL_SECONDS'' (120 * Second) Second)) (\<lambda>err. Done (Inl err)) (\<lambda>ttl.
       let e = worker_executor g getenv wallet maxTestnetAmountWei maxFeeSlippageBps ttl
       in Done (Inr (e, worker_reconciler g getenv wallet e ttl reconcileStaleness))))))))))"

text \<open>The intervals, read in this order, in nanoseconds.\<close>

record WorkerDurations =
  wd_OutboxPollInterval :: int
  wd_RecoverySweepInterval :: int
  wd_RecoveryStaleness :: int
  wd_ReconcileStaleness :: int
  wd_ReconcileSweepInterval :: int
  wd_NonceDivergenceCheckInterval :: int
  wd_TestnetHandleTimeout :: int

definition worker_durations :: "getenv \<Rightarrow> WorkerDurations res" where
  "worker_durations getenv =
    bindr (envDuration getenv ''OUTBOX_POLL_INTERVAL_MS'' (500 * Millisecond) Millisecond) (\<lambda>outboxPollInterval.
    bindr (envDuration getenv ''WORKER_RECOVERY_SWEEP_INTERVAL_SECONDS'' (30 * Second) Second) (\<lambda>recoverySweepInterval.
    bindr (envDuration getenv ''WORKER_RECOVERY_STALENESS_SECONDS'' (120 * Second) Second) (\<lambda>recoveryStaleness.
    bindr (envDuration getenv ''RECONCILE_STALENESS_SECONDS'' (120 * Second) Second) (\<lambda>reconcileStaleness.
    bindr (envDuration getenv ''RECONCILE_SWEEP_INTERVAL_SECONDS'' (30 * Second) Second) (\<lambda>reconcileSweepInterval.
    bindr (envDuration getenv ''NONCE_DIVERGENCE_CHECK_INTERVAL_SECONDS'' (60 * Second) Second) (\<lambda>nonceDivergenceCheckInterval.
    bindr (envDuration getenv ''TESTNET_HANDLE_TIMEOUT_SECONDS'' (30 * Second) Second) (\<lambda>testnetHandleTimeout.
    Inr \<lparr>wd_OutboxPollInterval = outboxPollInterval, wd_RecoverySweepInterval = recoverySweepInterval,
      wd_RecoveryStaleness = recoveryStaleness, wd_ReconcileStaleness = reconcileStaleness,
      wd_ReconcileSweepInterval = reconcileSweepInterval, wd_NonceDivergenceCheckInterval = nonceDivergenceCheckInterval,
      wd_TestnetHandleTimeout = testnetHandleTimeout\<rparr>)))))))"

text \<open>
  \<open>sql.Open\<close> and \<open>PingContext\<close> of the driver, by the database URL. Both programs open the pool in the same
  way and stop when the database does not answer.
\<close>

record db_driver =
  dr_Open :: "string \<Rightarrow> unit res"
  dr_Ping :: "string \<Rightarrow> unit res"

record db_pool =
  pool_URL :: string
  pool_MaxOpenConns :: nat

definition open_database :: "db_driver \<Rightarrow> string \<Rightarrow> db_pool res" where
  "open_database drv databaseURL =
    (case dr_Open drv databaseURL of
       Inl err \<Rightarrow> Inl (Wrap ''failed to open database'' err)
     | Inr _ \<Rightarrow>
        (case dr_Ping drv databaseURL of
           Inl err \<Rightarrow> Inl (Wrap ''failed to connect to database'' err)
         | Inr _ \<Rightarrow> Inr \<lparr>pool_URL = databaseURL, pool_MaxOpenConns = 10\<rparr>))"

definition start_worker ::
    "Geth \<Rightarrow> db_driver \<Rightarrow> getenv \<Rightarrow> (string \<Rightarrow> 'c res) \<Rightarrow> (string \<Rightarrow> int res) \<Rightarrow> (Processor \<times> WorkerDurations \<times> Reconciler option) res pr" where
  "start_worker g drv getenv dial chain_id =
    (if getenv ''DATABASE_URL'' = '''' then Done (Inl (Err ''DATABASE_URL environment variable is required''))
     else if getenv ''KAFKA_BOOTSTRAP_SERVERS'' = '''' then Done (Inl (Err ''KAFKA_BOOTSTRAP_SERVERS environment variable is required''))
     else tryp (Done (worker_durations getenv)) (\<lambda>err. Done (Inl err)) (\<lambda>durations.
       tryp (Done (open_database drv (getenv ''DATABASE_URL''))) (\<lambda>err. Done (Inl err)) (\<lambda>db.
       if getenv ''BLOCKCHAIN_ENV'' = ''testnet''
       then tryp (start_testnet g getenv dial chain_id (wd_ReconcileStaleness durations)) (\<lambda>err. Done (Inl err))
              (\<lambda>(e, r). Done (Inr (\<lparr>po_Executor = Some e\<rparr>, durations, Some r)))
       else Done (Inr (\<lparr>po_Executor = None\<rparr>, durations, None)))))"

section \<open>cmd/server\<close>

text \<open>The server's helpers are copies of the worker's.\<close>

abbreviation envOrDefaultServer :: "getenv \<Rightarrow> string \<Rightarrow> string \<Rightarrow> string" where
  "envOrDefaultServer \<equiv> envOrDefault"

abbreviation envDurationServer :: "getenv \<Rightarrow> string \<Rightarrow> int \<Rightarrow> int \<Rightarrow> int res" where
  "envDurationServer \<equiv> envDuration"

abbreviation envBigIntServer :: "getenv \<Rightarrow> string \<Rightarrow> int \<Rightarrow> int res" where
  "envBigIntServer \<equiv> envBigInt"

text \<open>The quoting-only providers have a zero wallet and zero addresses.\<close>

definition server_registry :: "Geth \<Rightarrow> getenv \<Rightarrow> env Registry option res" where
  "server_registry g getenv =
    (if getenv ''BLOCKCHAIN_ENV'' \<noteq> ''testnet'' then Inr None
     else bindr (envDurationServer getenv ''ROUTING_QUOTE_TTL_SECONDS'' (120 * Second) Second) (\<lambda>ttl.
       let routeKey = \<lparr>rk_SourceChainID = 11155111, rk_DestinationChainID = 84532, rk_Asset = ''WETH''\<rparr>;
           a = \<lparr>av_Client = across_client getenv, av_QuoteTTL = micros ttl, av_WalletAddress = 0, av_SpokePoolAddress = 0,
                 av_WETHOrigin = 0, av_WETHDestination = 0, av_OriginChainID = 0\<rparr>;
           r = \<lparr>rv_Client = relay_client getenv, rv_WalletAddress = 0, rv_QuoteTTL = micros ttl\<rparr>
       in Inr (Some (Register (Register NewRegistry routeKey (across_provider a)) routeKey (relay_provider g r)))))"

text \<open>The configuration of the handler; the connections are in \<open>Startup\<close>.\<close>

definition start_server :: "Geth \<Rightarrow> getenv \<Rightarrow> Pg \<Rightarrow> Handler res" where
  "start_server g getenv pg =
    (if getenv ''DATABASE_URL'' = '''' then Inl (Err ''DATABASE_URL environment variable is required'')
     else
       bindr (envBigIntServer getenv ''MAX_TESTNET_AMOUNT_WEI'' 10000000000000000) (\<lambda>maxTestnetAmountWei.
       bindr (server_registry g getenv) (\<lambda>registry.
         Inr \<lparr>hd_BlockchainEnv = getenv ''BLOCKCHAIN_ENV'', hd_MaxTestnetAmountWei = Some maxTestnetAmountWei,
              hd_QuoteRegistry = registry, hd_Pg = pg\<rparr>)))"

definition corsOrigins :: "getenv \<Rightarrow> string list" where
  "corsOrigins getenv = split_on (CHR '','') (envOrDefaultServer getenv ''CHAINROUTE_CORS_ALLOWED_ORIGINS'' ''http://localhost:5173'')"

end
