(* ===== verification/Bridge_Behaviour.thy ===== *)
theory Bridge_Behaviour
  imports Wiring Scenario
begin

text \<open>
  What the bridge integrations promise to the executor and the reconciler, and the configuration a
  worker runs with: the contract of the providers (locale \<open>bridge_provider\<close>), used through its two
  interpretations, gives the hypothesis \<open>executor_ok\<close> of the safety theorems for every worker that
  starts.
\<close>

section \<open>The configuration of a worker\<close>

lemma worker_executor_ok: "geth_ok g \<Longrightarrow> executor_ok (worker_executor g getenv wallet m b ttl)"
  by (auto simp: executor_ok_def worker_executor_def Let_def across_provider_def relay_provider_def
           dest: across.amounts relay.amounts split: if_splits)

lemma run_Done_tryp: "run (tryp (Done r) h k) is w = run (case r of Inl e \<Rightarrow> h e | Inr a \<Rightarrow> k a) is w"
  by (simp add: tryp_def)

lemma run_tryp_Inr:
  assumes "run (tryp p (\<lambda>err. Done (Inl err)) k) is w = (Some (Inr a), w', is')"
  obtains b w1 is1 where "run p is w = (Some (Inr b), w1, is1)" "run (k b) is1 w1 = (Some (Inr a), w', is')"
  using assms by (auto simp: tryp_def run_bindp split: prod.splits option.splits sum.splits)

lemma SeedWalletNonce_seeded:
  assumes "run (SeedWalletNonce a n) is w = (Some (Inr u), w', is')"
  shows "db_wallet_nonces (w_db w') a \<noteq> None"
  using assms unfolding SeedWalletNonce_def wrapp_def
  by (auto simp: run_bindp run_sql sql_reply_cases sql_effect_def split: list.splits if_splits option.splits sum.splits)

lemma seed_wallet_seeded:
  "run (seed_wallet e) is w = (Some (Inr u), w', is') \<Longrightarrow> db_wallet_nonces (w_db w') (wallet_hex e) \<noteq> None"
  unfolding seed_wallet_def wallet_hex_def by (erule run_tryp_Inr) (rule SeedWalletNonce_seeded)

text \<open>What the testnet branch of \<open>main\<close> has read and done when it reaches the goroutines.\<close>

lemma start_testnet_result:
  assumes "run (start_testnet g getenv dial chain_id st) is w = (Some (Inr (e, r)), w', is')"
  shows "\<exists>wallet m b ttl. LoadWallet g (getenv ''TESTNET_WALLET_PRIVATE_KEY'') = Inr wallet \<and>
    envBigInt getenv ''MAX_TESTNET_AMOUNT_WEI'' 10000000000000000 = Inr m \<and> envInt64 getenv ''MAX_FEE_SLIPPAGE_BPS'' 500 = Inr b \<and>
    envDuration getenv ''ROUTING_QUOTE_TTL_SECONDS'' (120 * Second) Second = Inr ttl \<and>
    e = worker_executor g getenv wallet m b ttl \<and> r = worker_reconciler g getenv wallet e ttl st \<and>
    chain_id (getenv ''ETHEREUM_SEPOLIA_RPC_URL'') = Inr 11155111 \<and> chain_id (getenv ''BASE_SEPOLIA_RPC_URL'') = Inr 84532 \<and>
    db_wallet_nonces (w_db w') (wallet_hex e) \<noteq> None"
  using assms unfolding start_testnet_def Let_def
  by (auto elim!: run_tryp_Inr dest!: seed_wallet_seeded simp: Dial_Inr wallet_hex_def worker_executor_def [of _ _ _ 0] split: if_splits)
     (auto simp: worker_executor_def Let_def)

text \<open>The parts of a started worker: its settings, and in testnet mode the executor and the reconciler.\<close>

lemma started_worker:
  assumes "run (start_worker g drv getenv dial chain_id) is w = (Some (Inr (po, d, rc)), w', is')"
  shows "getenv ''DATABASE_URL'' \<noteq> '''' \<and> getenv ''KAFKA_BOOTSTRAP_SERVERS'' \<noteq> '''' \<and> worker_durations getenv = Inr d \<and>
    dr_Open drv (getenv ''DATABASE_URL'') = Inr () \<and> dr_Ping drv (getenv ''DATABASE_URL'') = Inr () \<and>
    (if getenv ''BLOCKCHAIN_ENV'' = ''testnet''
     then \<exists>e r. po_Executor po = Some e \<and> rc = Some r \<and>
       run (start_testnet g getenv dial chain_id (wd_ReconcileStaleness d)) is w = (Some (Inr (e, r)), w', is')
     else po_Executor po = None \<and> rc = None)"
  using assms unfolding start_worker_def open_database_def
  by (auto elim!: run_tryp_Inr split: if_splits sum.splits)

lemma started_testnet_worker:
  assumes "geth_ok g" "run (start_worker g drv getenv dial chain_id) is w = (Some (Inr (po, d, rc)), w', is')"
    "getenv ''BLOCKCHAIN_ENV'' = ''testnet''"
  obtains e r wallet m b ttl where "po_Executor po = Some e" "rc = Some r" "executor_ok e" "rc_Executor r = e"
    "LoadWallet g (getenv ''TESTNET_WALLET_PRIVATE_KEY'') = Inr wallet"
    "envBigInt getenv ''MAX_TESTNET_AMOUNT_WEI'' 10000000000000000 = Inr m" "envInt64 getenv ''MAX_FEE_SLIPPAGE_BPS'' 500 = Inr b"
    "envDuration getenv ''ROUTING_QUOTE_TTL_SECONDS'' (120 * Second) Second = Inr ttl"
    "e = worker_executor g getenv wallet m b ttl" "r = worker_reconciler g getenv wallet e ttl (wd_ReconcileStaleness d)"
    "chain_id (getenv ''ETHEREUM_SEPOLIA_RPC_URL'') = Inr 11155111" "chain_id (getenv ''BASE_SEPOLIA_RPC_URL'') = Inr 84532"
    "db_wallet_nonces (w_db w') (wallet_hex e) \<noteq> None"
proof -
  from started_worker [OF assms(2)] assms(3) obtain e r where 1: "po_Executor po = Some e" "rc = Some r"
      "run (start_testnet g getenv dial chain_id (wd_ReconcileStaleness d)) is w = (Some (Inr (e, r)), w', is')" by auto
  from start_testnet_result [OF 1(3)] 1(1,2) worker_executor_ok [OF assms(1)] show ?thesis
    by (elim exE conjE) (rule that, simp_all add: worker_reconciler_def)
qed

text \<open>
  C33. A worker that starts has its required settings and a database that answered. In testnet mode it has
  verified the chain identifiers of both endpoints, and its executor quotes and signs with exactly the real
  Across and Relay integrations, built for the wallet of its private key and the quote lifetime of its
  environment, each with its pinned contract; the ceiling and the slippage bound are the configured ones, the
  wallet's nonce counter exists, and the executor meets the hypothesis of the safety theorems. Its reconciler
  drives the same executor, asks the same two bridges and has the configured staleness. A worker in any other
  mode has neither.
\<close>

theorem worker_configuration_sound:
  assumes "geth_ok g" "run (start_worker g drv getenv dial chain_id) is w = (Some (Inr (po, d, rc)), w', is')"
  shows "getenv ''DATABASE_URL'' \<noteq> '''' \<and> getenv ''KAFKA_BOOTSTRAP_SERVERS'' \<noteq> '''' \<and> worker_durations getenv = Inr d \<and>
    dr_Open drv (getenv ''DATABASE_URL'') = Inr () \<and> dr_Ping drv (getenv ''DATABASE_URL'') = Inr () \<and>
    (if getenv ''BLOCKCHAIN_ENV'' = ''testnet''
     then \<exists>e r wallet m b ttl a rl. po_Executor po = Some e \<and> rc = Some r \<and>
       LoadWallet g (getenv ''TESTNET_WALLET_PRIVATE_KEY'') = Inr wallet \<and> ex_Wallet e = wallet \<and> ex_Geth e = g \<and>
       envDuration getenv ''ROUTING_QUOTE_TTL_SECONDS'' (120 * Second) Second = Inr ttl \<and>
       a = worker_across g getenv wallet ttl \<and> rl = worker_relay getenv wallet ttl \<and>
       ex_QuoteProviders e = [''across'' \<mapsto> across_provider a, ''relay'' \<mapsto> relay_provider g rl] \<and>
       ex_Signers e = [''across'' \<mapsto> across_signer g a, ''relay'' \<mapsto> relay_signer g rl] \<and>
       rc_StatusCheckers r = [''across'' \<mapsto> across_checker a, ''relay'' \<mapsto> relay_checker g rl] \<and>
       dom (ex_ExpectedContractByProvider e) = {''across'', ''relay''} \<and>
       envBigInt getenv ''MAX_TESTNET_AMOUNT_WEI'' 10000000000000000 = Inr m \<and> ex_MaxAmountWei e = Some m \<and>
       envInt64 getenv ''MAX_FEE_SLIPPAGE_BPS'' 500 = Inr b \<and> ex_MaxFeeSlippageBps e = b \<and>
       ex_OriginChainID e = 11155111 \<and> chain_id (getenv ''ETHEREUM_SEPOLIA_RPC_URL'') = Inr 11155111 \<and>
       ex_DestChainID e = 84532 \<and> chain_id (getenv ''BASE_SEPOLIA_RPC_URL'') = Inr 84532 \<and>
       db_wallet_nonces (w_db w') (wallet_hex e) \<noteq> None \<and> executor_ok e \<and>
       rc_Executor r = e \<and> rc_WalletAddress r = wl_Address wallet \<and> rc_Staleness r = micros (wd_ReconcileStaleness d)
     else po_Executor po = None \<and> rc = None)"
proof (cases "getenv ''BLOCKCHAIN_ENV'' = ''testnet''")
  case False
  with started_worker [OF assms(2)] show ?thesis by simp
next
  case True
  obtain e r wallet m b ttl where c: "po_Executor po = Some e" "rc = Some r" "executor_ok e" "rc_Executor r = e"
    "LoadWallet g (getenv ''TESTNET_WALLET_PRIVATE_KEY'') = Inr wallet"
    "envBigInt getenv ''MAX_TESTNET_AMOUNT_WEI'' 10000000000000000 = Inr m" "envInt64 getenv ''MAX_FEE_SLIPPAGE_BPS'' 500 = Inr b"
    "envDuration getenv ''ROUTING_QUOTE_TTL_SECONDS'' (120 * Second) Second = Inr ttl"
    "e = worker_executor g getenv wallet m b ttl" "r = worker_reconciler g getenv wallet e ttl (wd_ReconcileStaleness d)"
    "chain_id (getenv ''ETHEREUM_SEPOLIA_RPC_URL'') = Inr 11155111" "chain_id (getenv ''BASE_SEPOLIA_RPC_URL'') = Inr 84532"
    "db_wallet_nonces (w_db w') (wallet_hex e) \<noteq> None"
    by (rule started_testnet_worker [OF assms True])
  have "ex_QuoteProviders e = [''across'' \<mapsto> across_provider (worker_across g getenv wallet ttl), ''relay'' \<mapsto> relay_provider g (worker_relay getenv wallet ttl)]"
    "ex_Signers e = [''across'' \<mapsto> across_signer g (worker_across g getenv wallet ttl), ''relay'' \<mapsto> relay_signer g (worker_relay getenv wallet ttl)]"
    "rc_StatusCheckers r = [''across'' \<mapsto> across_checker (worker_across g getenv wallet ttl), ''relay'' \<mapsto> relay_checker g (worker_relay getenv wallet ttl)]"
    "dom (ex_ExpectedContractByProvider e) = {''across'', ''relay''}" "ex_Wallet e = wallet" "ex_Geth e = g" "ex_MaxAmountWei e = Some m"
    "ex_MaxFeeSlippageBps e = b" "ex_OriginChainID e = 11155111" "ex_DestChainID e = 84532"
    "rc_WalletAddress r = wl_Address wallet" "rc_Staleness r = micros (wd_ReconcileStaleness d)"
    unfolding c(10) unfolding c(9) by (auto simp: worker_executor_def worker_reconciler_def Let_def)
  with True started_worker [OF assms(2)] c(1-8,11-13) show ?thesis by simp
qed

definition demo_getenv :: getenv where
  "demo_getenv k = (if k = ''BLOCKCHAIN_ENV'' then ''testnet''
     else if k \<in> {''DATABASE_URL'', ''KAFKA_BOOTSTRAP_SERVERS'', ''TESTNET_WALLET_PRIVATE_KEY'', ''ETHEREUM_SEPOLIA_RPC_URL''} then ''set''
     else if k = ''BASE_SEPOLIA_RPC_URL'' then ''base'' else '''')"

definition demo_chain_id :: "string \<Rightarrow> int res" where
  "demo_chain_id url = Inr (if url = ''base'' then 84532 else 11155111)"

definition demo_driver :: db_driver where
  "demo_driver = \<lparr>dr_Open = (\<lambda>url. Inr ()), dr_Ping = (\<lambda>url. Inr ())\<rparr>"

lemma demo_geth_ok: "geth_ok demo_geth"
  by (auto simp: geth_ok_def demo_geth_def split: if_splits)

lemma demo_start:
  "\<exists>po st rc w' is'. run (start_worker demo_geth demo_driver demo_getenv (\<lambda>_. Inr ()) demo_chain_id) [demo_env 0, demo_env 0] empty_world
     = (Some (Inr (po, st, rc)), w', is')"
  by (simp add: start_worker_def open_database_def demo_driver_def start_testnet_def worker_durations_def envDuration_def envBigInt_def envInt64_def bindr_def
      demo_getenv_def demo_chain_id_def Dial_def LoadWallet_def demo_geth_def run_tryp seed_wallet_def ask_env_def
      SeedWalletNonce_def wrapp_def run_bindp sql_def sql_effect_def sql_reply_def Let_def worker_executor_def int8_fits_def)

theorem worker_configuration_sound_witness:
  "\<exists>po d rc w' is' e r. run (start_worker demo_geth demo_driver demo_getenv (\<lambda>_. Inr ()) demo_chain_id) [demo_env 0, demo_env 0] empty_world
       = (Some (Inr (po, d, rc)), w', is') \<and> po_Executor po = Some e \<and> rc = Some r \<and> rc_Executor r = e \<and> executor_ok e \<and>
     dom (ex_QuoteProviders e) = {''across'', ''relay''} \<and> dom (rc_StatusCheckers r) = {''across'', ''relay''} \<and>
     ex_MaxAmountWei e = Some 10000000000000000 \<and> ex_MaxFeeSlippageBps e = 500 \<and> ex_OriginChainID e = 11155111 \<and>
     db_wallet_nonces (w_db w') (wallet_hex e) \<noteq> None"
proof -
  from demo_start obtain po d rc w' is' where 1: "run (start_worker demo_geth demo_driver demo_getenv (\<lambda>_. Inr ()) demo_chain_id)
    [demo_env 0, demo_env 0] empty_world = (Some (Inr (po, d, rc)), w', is')" by blast
  have env: "demo_getenv ''BLOCKCHAIN_ENV'' = ''testnet''" "envBigInt demo_getenv ''MAX_TESTNET_AMOUNT_WEI'' 10000000000000000 = Inr 10000000000000000"
    "envInt64 demo_getenv ''MAX_FEE_SLIPPAGE_BPS'' 500 = Inr 500"
    by (simp_all add: demo_getenv_def envBigInt_def envInt64_def)
  from worker_configuration_sound [OF demo_geth_ok 1, unfolded if_P [OF env(1)]] obtain e r m b a rl where c:
      "po_Executor po = Some e" "rc = Some r" "rc_Executor r = e" "executor_ok e" "db_wallet_nonces (w_db w') (wallet_hex e) \<noteq> None"
      "ex_QuoteProviders e = [''across'' \<mapsto> across_provider a, ''relay'' \<mapsto> relay_provider demo_geth rl]"
      "rc_StatusCheckers r = [''across'' \<mapsto> across_checker a, ''relay'' \<mapsto> relay_checker demo_geth rl]"
      "envBigInt demo_getenv ''MAX_TESTNET_AMOUNT_WEI'' 10000000000000000 = Inr m" "ex_MaxAmountWei e = Some m"
      "envInt64 demo_getenv ''MAX_FEE_SLIPPAGE_BPS'' 500 = Inr b" "ex_MaxFeeSlippageBps e = b" "ex_OriginChainID e = 11155111"
    by (elim exE conjE)
  have d: "dom (ex_QuoteProviders e) = {''across'', ''relay''}" "dom (rc_StatusCheckers r) = {''across'', ''relay''}"
      "ex_MaxAmountWei e = Some 10000000000000000" "ex_MaxFeeSlippageBps e = 500"
    using c(6-11) env(2,3) by auto
  show ?thesis by (intro exI conjI) (rule 1 c(1-5,12) d)+
qed


section \<open>Quotes and transactions\<close>

text \<open>What a client of the contract may conclude: a transaction that passed the executor's checks.\<close>

context bridge_provider
begin

lemma validated_envelope:
  assumes "getQuote i rq = Inr q" "b_Available q" "ex_Signers e name = Some sg" "sg_BuildTransaction sg = build"
    "q_Provider row = name" "buildValidatedEnvelope e pid row q = Inr t"
  shows "te_Value t = Some (rq_AmountBaseUnits rq) \<and> te_ChainID t = rq_SourceChainID rq \<and>
    rq_SourceChainID rq = ex_OriginChainID e \<and> ex_ExpectedContractByProvider e name = Some (te_To t)"
  using assms amounts [OF assms(1,2)] chain [OF assms(1,2)]
  by (auto simp: buildValidatedEnvelope_def validateEnvelope_def split: sum.splits if_splits)

lemma fee_of_available: "getQuote i rq = Inr q \<Longrightarrow> b_Available q \<Longrightarrow> b_FeeBaseUnits q \<noteq> None"
  using amounts by fastforce

end

text \<open>
  C34. Whatever a bridge API answers, a transaction that the worker's executor accepts for a fresh
  quote of either bridge moves exactly the requested amount, on Sepolia, to the contract pinned for
  that bridge.
\<close>

theorem worker_envelope_sound:
  assumes "e = worker_executor g getenv wallet m b ttl" "ex_QuoteProviders e name = Some pv" "pv_GetQuote pv i rq = Inr q"
    "b_Available q" "q_Provider row = name" "buildValidatedEnvelope e pid row q = Inr t"
  shows "te_Value t = Some (rq_AmountBaseUnits rq) \<and> te_ChainID t = 11155111 \<and> rq_SourceChainID rq = 11155111 \<and>
    te_To t = g_HexToAddress g (if name = ''across'' then ''0x5ef6C01E11889d86803e0B23e3cB3F9E9d97B662''
      else envOrDefault getenv ''RELAY_DEPOSIT_CONTRACT_SEPOLIA'' ''0x5feaB8db4534f9F7e2669bb260C57A01aD1c12E3'')"
proof -
  have o: "ex_OriginChainID e = 11155111" by (simp add: assms(1) worker_executor_def Let_def)
  from assms(1,2) consider
      (across) "name = ''across''" "pv_GetQuote pv = across_GetQuote (worker_across g getenv wallet ttl)"
        "ex_Signers e name = Some (across_signer g (worker_across g getenv wallet ttl))"
    | (relay) "name = ''relay''" "pv_GetQuote pv = relay_GetQuote g (worker_relay getenv wallet ttl)"
        "ex_Signers e name = Some (relay_signer g (worker_relay getenv wallet ttl))"
    by (auto simp: worker_executor_def Let_def across_provider_def relay_provider_def split: if_splits)
  then show ?thesis
  proof cases
    case across
    then show ?thesis
      using across.validated_envelope [of "worker_across g getenv wallet ttl" i rq q e "across_signer g (worker_across g getenv wallet ttl)" g row pid t]
        assms o by (simp add: across_signer_def Provider.defs worker_executor_def worker_across_def Let_def)
  next
    case relay
    then show ?thesis
      using relay.validated_envelope [of g "worker_relay getenv wallet ttl" i rq q e "relay_signer g (worker_relay getenv wallet ttl)" row pid t]
        assms o by (simp add: relay_signer_def Provider.defs worker_executor_def Let_def)
  qed
qed


definition demo_fees :: json where
  "demo_fees = JObj [(''outputAmount'', JStr ''900''), (''fillDeadline'', JStr ''5000''), (''exclusivityDeadline'', JNum ''0''),
     (''exclusiveRelayer'', JStr ''0x00''), (''timestamp'', JStr ''4000''), (''spokePoolAddress'', JStr ''0x5e''),
     (''isAmountTooLow'', JBool False), (''estimatedFillTimeSec'', JNum ''2''),
     (''inputToken'', JObj [(''address'', JStr ''0xfFf9976782d46CC05630D1f6eBAb18b2324d6B14''), (''chainId'', JNum ''11155111'')]),
     (''outputToken'', JObj [(''address'', JStr ''0x4200000000000000000000000000000000000006''), (''chainId'', JNum ''84532'')])]"

definition demo_api :: env where
  "demo_api = env0\<lparr>e_http := (\<lambda>_. HttpReply 200 [] (Some demo_fees))\<rparr>"

definition demo_request :: Request where
  "demo_request = \<lparr>rq_SourceChainID = 11155111, rq_DestinationChainID = 84532, rq_Asset = ''WETH'', rq_AmountBaseUnits = 1000\<rparr>"

definition demo_wallet :: Wallet where
  "demo_wallet = \<lparr>wl_PrivateKey = ''key'', wl_Address = 1\<rparr>"

definition demo_fresh :: BQuote where
  "demo_fresh = \<lparr>b_ProviderName = ''across'', b_SourceChainID = 11155111, b_DestinationChainID = 84532, b_Asset = ''WETH'',
     b_InputAmountBaseUnits = Some 1000, b_OutputAmountBaseUnits = Some 900, b_FeeBaseUnits = Some 100, b_EstimatedFillTimeSec = 2,
     b_Available = True, b_QuotedAt = 0, b_ExpiresAt = 0, b_RawProviderPayload = Some (across_payload_json
       \<lparr>ap_ExclusiveRelayer = ''0x00'', ap_QuoteTimestamp = ''4000'', ap_FillDeadline = ''5000'', ap_ExclusivityDeadline = 0,
        ap_SpokePoolAddress = ''0x5e''\<rparr>)\<rparr>"

definition demo_envelope :: TxEnvelope where
  "demo_envelope = \<lparr>te_To = 17, te_Value = Some 1000, te_Data = ''deposit'', te_ChainID = 11155111\<rparr>"

lemma ToLower_fees_keys:
  "ToLower ''outputAmount'' = ''outputamount''"
  "ToLower ''isAmountTooLow'' = ''isamounttoolow''"
  "ToLower ''estimatedFillTimeSec'' = ''estimatedfilltimesec''"
  "ToLower ''inputToken'' = ''inputtoken''"
  "ToLower ''outputToken'' = ''outputtoken''"
  "ToLower ''timestamp'' = ''timestamp''"
  "ToLower ''address'' = ''address''"
  "ToLower ''decimals'' = ''decimals''"
  by (code_simp, code_simp, code_simp, code_simp, code_simp, code_simp, code_simp, code_simp)

lemma demo_literals:
  "ParseInt64 ''0'' = Some 0" "ParseInt64 ''2'' = Some 2" "ParseInt64 ''11155111'' = Some 11155111" "ParseInt64 ''84532'' = Some 84532"
  "SetString10 ''900'' = Some 900" "parse_digits ''4000'' = Some 4000" "parse_digits ''5000'' = Some 5000"
  by (simp_all add: ParseInt64_def SetString10_def parse_digits_def nat_of_digits_def digit_val_def is_digit_def int64_ok_def)

lemma demo_fresh_eval: "across_GetQuote (worker_across demo_geth demo_getenv demo_wallet 0) demo_api demo_request = Inr demo_fresh"
  by (simp add: across_GetQuote_def demo_request_def wethAddressByChainID_def SuggestedFees_def across_get_def http_result_def
      demo_api_def demo_fees_def env0_def dec_SuggestedFeesResponse_def dec_QuoteTokenInfo_def fees_zero_def token_zero_def fld_def
      ToLower_fees_keys ToLower_across_keys ToLower_keys demo_literals across_quote_of_def demo_fresh_def worker_across_def micros_def Let_def)

lemma demo_envelope_eval:
  "buildValidatedEnvelope (worker_executor demo_geth demo_getenv demo_wallet 0 0 0) [] demo_quote demo_fresh = Inr demo_envelope"
  by (simp add: buildValidatedEnvelope_def validateEnvelope_def worker_executor_def across_signer_def Provider.defs demo_quote_def
      across_BuildTransaction_def demo_fresh_def DecodeQuotePayload_def unmarshal_def dec_AcrossPayload_json int64_ok_def
      demo_geth_def worker_across_def ParseUint32_def demo_literals demo_envelope_def Let_def)

theorem worker_envelope_sound_witness:
  "across_GetQuote (worker_across demo_geth demo_getenv demo_wallet 0) demo_api demo_request = Inr demo_fresh \<and>
   buildValidatedEnvelope (worker_executor demo_geth demo_getenv demo_wallet 0 0 0) [] demo_quote demo_fresh = Inr demo_envelope \<and>
   te_Value demo_envelope = Some (rq_AmountBaseUnits demo_request) \<and> te_ChainID demo_envelope = 11155111 \<and>
   rq_SourceChainID demo_request = 11155111 \<and> te_To demo_envelope = g_HexToAddress demo_geth ''0x5ef6C01E11889d86803e0B23e3cB3F9E9d97B662''"
proof -
  let ?e = "worker_executor demo_geth demo_getenv demo_wallet 0 0 0"
  have "ex_QuoteProviders ?e ''across'' = Some (across_provider (worker_across demo_geth demo_getenv demo_wallet 0))"
    by (simp add: worker_executor_def Let_def)
  moreover have "b_Available demo_fresh" "q_Provider demo_quote = ''across''" by (simp_all add: demo_fresh_def demo_quote_def)
  ultimately show ?thesis
    using worker_envelope_sound [of ?e demo_geth demo_getenv demo_wallet 0 0 0 "''across''"
        "across_provider (worker_across demo_geth demo_getenv demo_wallet 0)" demo_api demo_request demo_fresh demo_quote "[]" demo_envelope]
      demo_fresh_eval demo_envelope_eval by (simp add: across_provider_def)
qed


section \<open>The fields of an answer\<close>

text \<open>
  What a document says of one field, by itself: the values under the keys that spell its name, in their
  order, each decoded into what the earlier ones left. Decoding the whole struct gives every field this value.
\<close>

primrec decode_values :: "'a decoder \<Rightarrow> json list \<Rightarrow> 'a \<Rightarrow> 'a res" where
  "decode_values d [] z = Inr z"
| "decode_values d (v # vs) z = (case d v z of Inl e \<Rightarrow> Inl e | Inr z' \<Rightarrow> decode_values d vs z')"

definition int_field :: "string \<Rightarrow> json \<Rightarrow> int res" where
  "int_field name j = (case field_values name j of Inl e \<Rightarrow> Inl e | Inr vs \<Rightarrow> decode_values dec_int64 vs 0)"

lemma decode_string_values: "decode_string z vs = decode_values dec_string vs z"
  by (induction vs arbitrary: z) (auto split: json.split)

lemma dec_struct_values:
  assumes name: "find (\<lambda>(n, _). ToLower n = ToLower name) fs = Some (n', fld get upd d)"
    and others: "\<And>n f j r r'. (n, f) \<in> set fs \<Longrightarrow> ToLower n \<noteq> ToLower name \<Longrightarrow> f j r = Inr r' \<Longrightarrow> get r' = get r"
    and upd: "\<And>v r. get (upd (\<lambda>_. v) r) = v" and dec: "dec_struct fs j r = Inr r'"
  shows "\<exists>vs. field_values name j = Inr vs \<and> decode_values d vs (get r) = Inr (get r')"
proof -
  have keys: "dec_keys fs kvs r = Inr r' \<Longrightarrow>
      decode_values d (map snd (filter (\<lambda>(k, v). ToLower k = ToLower name) kvs)) (get r) = Inr (get r')" for kvs r
  proof (induction kvs arbitrary: r)
    case (Cons kv kvs)
    obtain k v where kv: "kv = (k, v)" by (cases kv)
    show ?case
    proof (cases "ToLower k = ToLower name")
      case True
      with Cons.prems name kv obtain r1 where r1: "fld get upd d v r = Inr r1" "dec_keys fs kvs r1 = Inr r'"
        by (auto split: sum.splits)
      then show ?thesis using Cons.IH [OF r1(2)] True kv upd by (auto simp: fld_Inr)
    next
      case other: False
      show ?thesis
      proof (cases "find (\<lambda>(n, _). ToLower n = ToLower k) fs")
        case None
        with Cons other kv show ?thesis by simp
      next
        case (Some nf)
        then obtain n f where nf: "nf = (n, f)" "(n, f) \<in> set fs" "ToLower n = ToLower k"
          by (cases nf) (fastforce simp: find_Some_iff in_set_conv_nth)
        with Cons.prems Some kv obtain r1 where r1: "f v r = Inr r1" "dec_keys fs kvs r1 = Inr r'"
          by (auto split: sum.splits)
        then have "get r1 = get r" using others [OF nf(2) _ r1(1)] nf(3) other by metis
        then show ?thesis using Cons.IH [OF r1(2)] other kv by simp
      qed
    qed
  qed simp
  show ?thesis using dec by (cases j) (auto simp: field_values_def keys)
qed

lemma dec_struct_string_field:
  assumes "dec_struct fs j r = Inr r'" "find (\<lambda>(n, _). ToLower n = ToLower name) fs = Some (n', fld get upd dec_string)" "get r = ''''"
    "\<And>v r. get (upd (\<lambda>_. v) r) = v" "\<And>n f j r r'. (n, f) \<in> set fs \<Longrightarrow> ToLower n \<noteq> ToLower name \<Longrightarrow> f j r = Inr r' \<Longrightarrow> get r' = get r"
  shows "string_field name j = Inr (get r')"
proof -
  have "\<exists>vs. field_values name j = Inr vs \<and> decode_values dec_string vs (get r) = Inr (get r')"
    by (rule dec_struct_values [OF assms(2) _ assms(4,1)]) (rule assms(5))
  then show ?thesis using assms(3) by (auto simp: string_field_def decode_string_values)
qed

lemma dec_struct_int_field:
  assumes "dec_struct fs j r = Inr r'" "find (\<lambda>(n, _). ToLower n = ToLower name) fs = Some (n', fld get upd dec_int64)" "get r = 0"
    "\<And>v r. get (upd (\<lambda>_. v) r) = v" "\<And>n f j r r'. (n, f) \<in> set fs \<Longrightarrow> ToLower n \<noteq> ToLower name \<Longrightarrow> f j r = Inr r' \<Longrightarrow> get r' = get r"
  shows "int_field name j = Inr (get r')"
proof -
  have "\<exists>vs. field_values name j = Inr vs \<and> decode_values dec_int64 vs (get r) = Inr (get r')"
    by (rule dec_struct_values [OF assms(2) _ assms(4,1)]) (rule assms(5))
  then show ?thesis using assms(3) by (auto simp: int_field_def)
qed

text \<open>The fields of the two Across answers.\<close>

lemma fees_fields:
  assumes "dec_SuggestedFeesResponse j fees_zero = Inr resp"
  shows "string_field ''outputAmount'' j = Inr (sf_OutputAmount resp)" "string_field ''fillDeadline'' j = Inr (sf_FillDeadline resp)"
    "string_field ''exclusiveRelayer'' j = Inr (sf_ExclusiveRelayer resp)" "string_field ''timestamp'' j = Inr (sf_Timestamp resp)"
    "string_field ''spokePoolAddress'' j = Inr (sf_SpokePoolAddress resp)" "int_field ''exclusivityDeadline'' j = Inr (sf_ExclusivityDeadline resp)"
proof -
  note fees = assms [unfolded dec_SuggestedFeesResponse_def]
  note simps = ToLower_fees_keys ToLower_across_keys fees_zero_def fld_Inr
  show "string_field ''outputAmount'' j = Inr (sf_OutputAmount resp)"
    by (rule dec_struct_string_field [where get = sf_OutputAmount and upd = sf_OutputAmount_update, OF fees]) (auto simp: simps)
  show "string_field ''fillDeadline'' j = Inr (sf_FillDeadline resp)"
    by (rule dec_struct_string_field [where get = sf_FillDeadline and upd = sf_FillDeadline_update, OF fees]) (auto simp: simps)
  show "string_field ''exclusiveRelayer'' j = Inr (sf_ExclusiveRelayer resp)"
    by (rule dec_struct_string_field [where get = sf_ExclusiveRelayer and upd = sf_ExclusiveRelayer_update, OF fees]) (auto simp: simps)
  show "string_field ''timestamp'' j = Inr (sf_Timestamp resp)"
    by (rule dec_struct_string_field [where get = sf_Timestamp and upd = sf_Timestamp_update, OF fees]) (auto simp: simps)
  show "string_field ''spokePoolAddress'' j = Inr (sf_SpokePoolAddress resp)"
    by (rule dec_struct_string_field [where get = sf_SpokePoolAddress and upd = sf_SpokePoolAddress_update, OF fees]) (auto simp: simps)
  show "int_field ''exclusivityDeadline'' j = Inr (sf_ExclusivityDeadline resp)"
    by (rule dec_struct_int_field [where get = sf_ExclusivityDeadline and upd = sf_ExclusivityDeadline_update, OF fees]) (auto simp: simps)
qed

lemma status_field:
  assumes "dec_DepositStatusResponse j \<lparr>ds_Status = ''''\<rparr> = Inr resp"
  shows "string_field ''status'' j = Inr (ds_Status resp)"
  using assms unfolding dec_DepositStatusResponse_def by (rule dec_struct_string_field) (auto simp: fld_Inr)

section \<open>Deposits and references\<close>

lemma ParseUint32_exact: "ParseUint32 s = Some x \<longleftrightarrow> parse_digits s = Some (unat x)"
proof -
  have "unat x < 2 ^ 32" using unsigned_less [of x] by simp
  then show ?thesis
    by (auto simp: ParseUint32_def unat_of_nat take_bit_eq_mod split: option.splits if_splits)
qed

lemma dec_int64_ok: "dec_int64 j z = Inr n \<Longrightarrow> int64_ok z \<Longrightarrow> int64_ok n"
  by (cases j) (auto simp: ParseInt64_def split: option.splits if_splits)

lemma SuggestedFees_deadline_ok: "SuggestedFees c i o' d a b m = Inr resp \<Longrightarrow> int64_ok (sf_ExclusivityDeadline resp)"
proof -
  assume "SuggestedFees c i o' d a b m = Inr resp"
  then obtain j where "dec_SuggestedFeesResponse j fees_zero = Inr resp"
    by (auto simp: SuggestedFees_def across_get_def http_result_def split: sum.splits http_reply.splits if_splits option.splits)
  then show ?thesis unfolding dec_SuggestedFeesResponse_def
    by (rule dec_struct_keeps [where P = "\<lambda>r. int64_ok (sf_ExclusivityDeadline r)", rotated 2])
       (auto simp: fld_Inr fees_zero_def int64_ok_def [of 0], rule dec_int64_ok)
qed

lemma SuggestedFees_answer:
  assumes "SuggestedFees c i o' d a b m = Inr resp"
  obtains code body j where "e_http i (across_request c ''/suggested-fees'' (fees_query o' d a b m)) = HttpReply code body (Some j)"
    "200 \<le> code" "code < 300" "dec_SuggestedFeesResponse j fees_zero = Inr resp"
  using assms by (auto simp: SuggestedFees_def across_get_def http_result_def
      split: sum.splits http_reply.splits if_splits option.splits)

text \<open>Every argument of the packed call, over the quote and its payload.\<close>

lemma across_BuildTransaction_args:
  assumes "across_BuildTransaction g p q = Inr t" "b_RawProviderPayload q = Some (across_payload_json pay)" "int64_ok (ap_ExclusivityDeadline pay)"
  obtains ts fd args where "ParseUint32 (ap_QuoteTimestamp pay) = Some ts" "ParseUint32 (ap_FillDeadline pay) = Some fd"
    "g_HexToAddress g (ap_SpokePoolAddress pay) = av_SpokePoolAddress p"
    "args = \<lparr>dv_depositor = av_WalletAddress p, dv_recipient = av_WalletAddress p, dv_inputToken = av_WETHOrigin p,
       dv_outputToken = av_WETHDestination p, dv_inputAmount = b_InputAmountBaseUnits q, dv_outputAmount = b_OutputAmountBaseUnits q,
       dv_destinationChainId = b_DestinationChainID q, dv_exclusiveRelayer = g_HexToAddress g (ap_ExclusiveRelayer pay),
       dv_quoteTimestamp = ts, dv_fillDeadline = fd, dv_exclusivityDeadline = word_of_int (ap_ExclusivityDeadline pay), dv_message = []\<rparr>"
    "g_PackDepositV3 g args = Inr (te_Data t)"
    "te_To t = av_SpokePoolAddress p" "te_Value t = b_InputAmountBaseUnits q" "te_ChainID t = b_SourceChainID q"
  using assms by (auto simp: across_BuildTransaction_def DecodeQuotePayload_def unmarshal_def dec_AcrossPayload_json
      split: if_splits option.splits sum.splits)

text \<open>
  C35. The Across deposit is the quoted one, argument by argument, over the JSON document of the 2xx answer
  to the fee request for this amount and route. The call is packed with the worker's wallet as depositor
  and recipient, the configured token contracts, the requested amount and destination, the answer's output
  amount and exclusive relayer, its timestamp and fill deadline as exact 32-bit numbers, and an empty
  message. The exclusivity deadline is a 64-bit number in the answer and is packed as its low 32 bits: the
  conversion \<open>uint32(...)\<close> of \<open>execute.go\<close> does not check it. The answer's SpokePool is the configured one,
  and the transaction goes there, on the origin chain, with the amount as its value.
\<close>

theorem across_deposit_faithful:
  assumes "across_GetQuote p i rq = Inr q" "b_Available q" "across_BuildTransaction g p q = Inr t"
  shows "\<exists>a b code body j out ts fd n relayer pool args.
    wethAddressByChainID (rq_SourceChainID rq) = Some a \<and> wethAddressByChainID (rq_DestinationChainID rq) = Some b \<and>
    e_http i (across_request (av_Client p) ''/suggested-fees''
      (fees_query (rq_SourceChainID rq) (rq_DestinationChainID rq) a b (Int_String (rq_AmountBaseUnits rq)))) = HttpReply code body (Some j) \<and>
    200 \<le> code \<and> code < 300 \<and>
    string_field ''outputAmount'' j = Inr out \<and> string_field ''timestamp'' j = Inr ts \<and> string_field ''fillDeadline'' j = Inr fd \<and>
    int_field ''exclusivityDeadline'' j = Inr n \<and> string_field ''exclusiveRelayer'' j = Inr relayer \<and> string_field ''spokePoolAddress'' j = Inr pool \<and>
    g_PackDepositV3 g args = Inr (te_Data t) \<and> dv_depositor args = av_WalletAddress p \<and> dv_recipient args = av_WalletAddress p \<and>
    dv_inputToken args = av_WETHOrigin p \<and> dv_outputToken args = av_WETHDestination p \<and>
    dv_inputAmount args = Some (rq_AmountBaseUnits rq) \<and> dv_outputAmount args = SetString10 out \<and> dv_outputAmount args \<noteq> None \<and>
    dv_destinationChainId args = rq_DestinationChainID rq \<and> dv_exclusiveRelayer args = g_HexToAddress g relayer \<and>
    parse_digits ts = Some (unat (dv_quoteTimestamp args)) \<and> parse_digits fd = Some (unat (dv_fillDeadline args)) \<and>
    uint (dv_exclusivityDeadline args) = n mod 2 ^ 32 \<and> dv_message args = [] \<and>
    g_HexToAddress g pool = av_SpokePoolAddress p \<and> te_To t = av_SpokePoolAddress p \<and>
    te_Value t = Some (rq_AmountBaseUnits rq) \<and> te_ChainID t = rq_SourceChainID rq"
  using assms(1)
proof (cases rule: across_GetQuote_cases)
  case unavailable
  with assms(2) show ?thesis by (simp add: unavailable_quote_def)
next
  case (available a b resp)
  from available(4) obtain code body j where j: "e_http i (across_request (av_Client p) ''/suggested-fees''
      (fees_query (rq_SourceChainID rq) (rq_DestinationChainID rq) a b (Int_String (rq_AmountBaseUnits rq)))) = HttpReply code body (Some j)"
      "200 \<le> code" "code < 300" "dec_SuggestedFeesResponse j fees_zero = Inr resp"
    by (rule SuggestedFees_answer)
  define pay where "pay = \<lparr>ap_ExclusiveRelayer = sf_ExclusiveRelayer resp, ap_QuoteTimestamp = sf_Timestamp resp,
         ap_FillDeadline = sf_FillDeadline resp, ap_ExclusivityDeadline = sf_ExclusivityDeadline resp, ap_SpokePoolAddress = sf_SpokePoolAddress resp\<rparr>"
  from available(5) obtain out where q: "SetString10 (sf_OutputAmount resp) = Some out"
      "b_InputAmountBaseUnits q = Some (rq_AmountBaseUnits rq)" "b_OutputAmountBaseUnits q = Some out"
      "b_SourceChainID q = rq_SourceChainID rq" "b_DestinationChainID q = rq_DestinationChainID rq"
      "b_RawProviderPayload q = Some (across_payload_json pay)"
    by (auto simp: across_quote_of_def pay_def Let_def split: if_splits option.splits)
  have "int64_ok (ap_ExclusivityDeadline pay)" using SuggestedFees_deadline_ok [OF available(4)] by (simp add: pay_def)
  from assms(3) q(6) this obtain ts fd args where t: "ParseUint32 (ap_QuoteTimestamp pay) = Some ts"
      "ParseUint32 (ap_FillDeadline pay) = Some fd" "g_HexToAddress g (ap_SpokePoolAddress pay) = av_SpokePoolAddress p"
    and args: "args = \<lparr>dv_depositor = av_WalletAddress p, dv_recipient = av_WalletAddress p, dv_inputToken = av_WETHOrigin p,
       dv_outputToken = av_WETHDestination p, dv_inputAmount = b_InputAmountBaseUnits q, dv_outputAmount = b_OutputAmountBaseUnits q,
       dv_destinationChainId = b_DestinationChainID q, dv_exclusiveRelayer = g_HexToAddress g (ap_ExclusiveRelayer pay),
       dv_quoteTimestamp = ts, dv_fillDeadline = fd, dv_exclusivityDeadline = word_of_int (ap_ExclusivityDeadline pay), dv_message = []\<rparr>"
    and env: "g_PackDepositV3 g args = Inr (te_Data t)" "te_To t = av_SpokePoolAddress p" "te_Value t = b_InputAmountBaseUnits q"
      "te_ChainID t = b_SourceChainID q"
    by (rule across_BuildTransaction_args)
  have "uint (word_of_int n :: 32 word) = n mod 2 ^ 32" for n by (simp add: uint_word_of_int)
  then have low: "uint (dv_exclusivityDeadline args) = sf_ExclusivityDeadline resp mod 2 ^ 32" by (simp add: args pay_def)
  have "parse_digits (sf_Timestamp resp) = Some (unat (dv_quoteTimestamp args))" "parse_digits (sf_FillDeadline resp) = Some (unat (dv_fillDeadline args))"
    using t(1,2) by (simp_all add: ParseUint32_exact args pay_def)
  note facts = this low available(2,3) j(1,2,3) fees_fields [OF j(4)] t(3) env q
  show ?thesis
    by (rule exI [of _ a], rule exI [of _ b], rule exI [of _ code], rule exI [of _ body], rule exI [of _ j],
        rule exI [of _ "sf_OutputAmount resp"], rule exI [of _ "sf_Timestamp resp"], rule exI [of _ "sf_FillDeadline resp"],
        rule exI [of _ "sf_ExclusivityDeadline resp"], rule exI [of _ "sf_ExclusiveRelayer resp"], rule exI [of _ "sf_SpokePoolAddress resp"],
        rule exI [of _ args]) (use facts in \<open>simp add: args pay_def\<close>)
qed

text \<open>
  An answer whose exclusivity deadline exceeds 32 bits, and a packing function that prints the three times
  of the call.
\<close>

definition demo_late_api :: env where
  "demo_late_api = env0\<lparr>e_http := (\<lambda>_. HttpReply 200 [] (Some (JObj [(''outputAmount'', JStr ''900''), (''fillDeadline'', JStr ''5000''),
     (''exclusivityDeadline'', JNum ''4294967303''), (''timestamp'', JStr ''4000''),
     (''inputToken'', JObj [(''address'', JStr ''0xfFf9976782d46CC05630D1f6eBAb18b2324d6B14''), (''chainId'', JNum ''11155111'')]),
     (''outputToken'', JObj [(''address'', JStr ''0x4200000000000000000000000000000000000006''), (''chainId'', JNum ''84532'')])])))\<rparr>"

definition demo_packer :: Geth where
  "demo_packer = demo_geth\<lparr>g_PackDepositV3 := (\<lambda>a. Inr (Int_String (uint (dv_quoteTimestamp a)) @ '' '' @
     Int_String (uint (dv_fillDeadline a)) @ '' '' @ Int_String (uint (dv_exclusivityDeadline a))))\<rparr>"

definition demo_late :: BQuote where
  "demo_late = demo_fresh\<lparr>b_EstimatedFillTimeSec := 0, b_RawProviderPayload := Some (across_payload_json
     \<lparr>ap_ExclusiveRelayer = '''', ap_QuoteTimestamp = ''4000'', ap_FillDeadline = ''5000'', ap_ExclusivityDeadline = 4294967303,
      ap_SpokePoolAddress = ''''\<rparr>)\<rparr>"

lemma demo_late_literal: "ParseInt64 ''4294967303'' = Some 4294967303"
  by (simp add: ParseInt64_def SetString10_def parse_digits_def nat_of_digits_def digit_val_def is_digit_def int64_ok_def)

lemma demo_late_fields:
  assumes "e_http demo_late_api r = HttpReply code body (Some j)"
  shows "string_field ''timestamp'' j = Inr ''4000''" "string_field ''fillDeadline'' j = Inr ''5000''"
    "int_field ''exclusivityDeadline'' j = Inr 4294967303"
  using assms by (auto simp: demo_late_api_def string_field_def int_field_def field_values_def ToLower_fees_keys ToLower_across_keys demo_late_literal)

lemma demo_late_eval: "across_GetQuote (worker_across demo_packer demo_getenv demo_wallet 0) demo_late_api demo_request = Inr demo_late"
  by (simp add: across_GetQuote_def demo_request_def wethAddressByChainID_def SuggestedFees_def across_get_def http_result_def
      demo_late_api_def env0_def dec_SuggestedFeesResponse_def dec_QuoteTokenInfo_def fees_zero_def token_zero_def fld_def
      ToLower_fees_keys ToLower_across_keys ToLower_keys demo_literals demo_late_literal across_quote_of_def demo_late_def demo_fresh_def
      worker_across_def micros_def Let_def)

theorem across_deposit_faithful_witness:
  "\<exists>t. across_BuildTransaction demo_packer (worker_across demo_packer demo_getenv demo_wallet 0) demo_late = Inr t \<and>
     te_Data t = Int_String 4000 @ '' '' @ Int_String 5000 @ '' '' @ Int_String 7 \<and>
     te_Value t = Some 1000 \<and> te_ChainID t = 11155111 \<and> te_To t = 17"
proof -
  let ?p = "worker_across demo_packer demo_getenv demo_wallet 0"
  have "\<exists>t. across_BuildTransaction demo_packer ?p demo_late = Inr t"
    by (simp add: across_BuildTransaction_def demo_late_def demo_fresh_def DecodeQuotePayload_def unmarshal_def dec_AcrossPayload_json
        int64_ok_def demo_packer_def demo_geth_def worker_across_def ParseUint32_def demo_literals)
  then obtain t where t: "across_BuildTransaction demo_packer ?p demo_late = Inr t" by blast
  have "b_Available demo_late" by (simp add: demo_late_def demo_fresh_def)
  from across_deposit_faithful [OF demo_late_eval this t] obtain r code body j ts fd n args where
      a: "e_http demo_late_api r = HttpReply code body (Some j)" "string_field ''timestamp'' j = Inr ts" "string_field ''fillDeadline'' j = Inr fd"
      "int_field ''exclusivityDeadline'' j = Inr n" "g_PackDepositV3 demo_packer args = Inr (te_Data t)"
      "parse_digits ts = Some (unat (dv_quoteTimestamp args))" "parse_digits fd = Some (unat (dv_fillDeadline args))"
      "uint (dv_exclusivityDeadline args) = n mod 2 ^ 32" "te_To t = av_SpokePoolAddress ?p"
      "te_Value t = Some (rq_AmountBaseUnits demo_request)" "te_ChainID t = rq_SourceChainID demo_request"
    by (elim exE conjE)
  have "unat (dv_quoteTimestamp args) = 4000" "unat (dv_fillDeadline args) = 5000" "uint (dv_exclusivityDeadline args) = 7"
    using a(2-4,6-8) demo_late_fields [OF a(1)] by (auto simp: demo_literals)
  then have "uint (dv_quoteTimestamp args) = 4000" "uint (dv_fillDeadline args) = 5000" "uint (dv_exclusivityDeadline args) = 7"
    unfolding uint_nat by simp_all
  then have "te_Data t = Int_String 4000 @ '' '' @ Int_String 5000 @ '' '' @ Int_String 7"
    using a(5) by (simp add: demo_packer_def)
  with t a(9-11) show ?thesis by (auto simp: demo_packer_def demo_geth_def worker_across_def demo_request_def)
qed

text \<open>
  Every available Relay quote can be followed up: the reference the executor stores with the
  execution is the request identifier of the API's answer, and it is never empty. The fee of such a
  quote is positive.
\<close>

lemma relay_reference_kept:
  assumes "relay_GetQuote g p i rq = Inr q" "b_Available q"
  shows "\<exists>a resp. relay_post (rv_Client p) i ''/quote'' (request_json (relay_quote_request g p rq a)) dec_quoteResponseBody response_zero = Inr resp \<and>
    extractProviderReferenceID q = Some (rs_RequestID resp) \<and> rs_RequestID resp \<noteq> '''' \<and>
    (\<exists>f. b_FeeBaseUnits q = Some f \<and> 0 < f)"
  using assms(1)
proof (cases rule: relay_GetQuote_cases)
  case unavailable
  with assms(2) show ?thesis by (simp add: unavailable_quote_def)
next
  case (available a resp)
  from available(5) have "extractProviderReferenceID q = Some (rs_RequestID resp) \<and> rs_RequestID resp \<noteq> '''' \<and> (\<exists>f. b_FeeBaseUnits q = Some f \<and> 0 < f)"
    by (rule relay_quote_of_Inr)
       (simp add: extractProviderReferenceID_def relay_payload_json_def string_field_def field_values_def ToLower_keys)
  with available(4) show ?thesis by blast
qed


definition demo_relay_doc :: json where
  "demo_relay_doc = JObj [(''requestId'', JStr ''0xabc''),
     (''steps'', JArr [JObj [(''kind'', JStr ''transaction''), (''items'', JArr [JObj [(''data'', JObj [(''to'', JStr ''0x5f''),
        (''data'', JStr ''0xdead''), (''value'', JStr ''1000''), (''chainId'', JNum ''11155111'')])]])]]),
     (''details'', JObj [
        (''currencyIn'', JObj [(''currency'', JObj [(''chainId'', JNum ''11155111''), (''address'', JStr nativeAddress)])]),
        (''currencyOut'', JObj [(''currency'', JObj [(''chainId'', JNum ''84532''),
           (''address'', JStr ''0x4200000000000000000000000000000000000006'')]), (''minimumAmount'', JStr ''900'')]),
        (''recipient'', JStr ''0x01'')])]"

definition demo_relay_api :: env where
  "demo_relay_api = env0\<lparr>e_http := (\<lambda>_. HttpReply 200 [] (Some demo_relay_doc))\<rparr>"

lemma ToLower_relay_keys:
  "ToLower ''steps'' = ''steps''" "ToLower ''details'' = ''details''" "ToLower ''protocol'' = ''protocol''" "ToLower ''kind'' = ''kind''"
  "ToLower ''items'' = ''items''" "ToLower ''currencyIn'' = ''currencyin''" "ToLower ''currencyOut'' = ''currencyout''"
  "ToLower ''timeEstimate'' = ''timeestimate''" "ToLower ''currency'' = ''currency''" "ToLower ''amount'' = ''amount''"
  "ToLower ''minimumAmount'' = ''minimumamount''" "ToLower ''gas'' = ''gas''" "ToLower ''status'' = ''status''"
  by (code_simp, code_simp, code_simp, code_simp, code_simp, code_simp, code_simp, code_simp, code_simp, code_simp, code_simp, code_simp, code_simp)

lemma demo_relay_eval:
  "\<exists>q. relay_GetQuote demo_geth (worker_relay demo_getenv demo_wallet 0) demo_relay_api demo_request = Inr q \<and> b_Available q \<and>
     extractProviderReferenceID q = Some ''0xabc''"
  by (simp add: relay_GetQuote_def demo_request_def wethAddressByChainID_def relay_post_def http_result_def demo_relay_api_def env0_def
      demo_relay_doc_def dec_quoteResponseBody_def dec_quoteStep_def dec_quoteStepItem_def dec_quoteStepItemData_def dec_details_def
      dec_currencyInfo_def dec_currency_def response_zero_def item_zero_def fld_def ToLower_keys ToLower_fees_keys ToLower_relay_keys
      demo_literals relay_quote_of_def Let_def extractProviderReferenceID_def relay_payload_json_def string_field_def field_values_def)

section \<open>Status answers\<close>

lemma http_result_Inr:
  "http_result path d zero reply = Inr a \<longleftrightarrow>
    (\<exists>code body j. reply = HttpReply code body (Some j) \<and> 200 \<le> code \<and> code < 300 \<and> d j zero = Inr a)"
  by (auto simp: http_result_def split: http_reply.splits option.splits)

lemma ParseQuery_single: "ParseQuery (Encode (Set k v [])) = Some [(k, v)]"
  by (simp add: ParseQuery_Encode Set_def)

lemma map_of_sort_key: "distinct (map fst q) \<Longrightarrow> map_of (sort_key fst q) = map_of q"
  by (rule map_of_inject_set [THEN iffD2]) (simp_all add: distinct_map)

text \<open>
  A Relay status reported to the reconciler is the API's own answer for this execution: a 2xx
  reply with a JSON body, to a request whose query string any server reads back as exactly the stored
  reference, whatever characters it contains. Only the answers \<open>success\<close>, \<open>refund\<close> and \<open>failure\<close> end a
  transfer; a failed request, an error reply or an unknown word never does.
\<close>

lemma relay_status_from_answer:
  assumes "relay_CheckStatus p i rq = Inr res"
  shows "sr_ProviderReferenceID rq \<noteq> '''' \<and>
    (\<exists>qs code body j. ParseQuery qs = Some [(''requestId'', sr_ProviderReferenceID rq)] \<and>
       e_http i \<lparr>hr_Method = ''GET'', hr_URL = rc_baseURL (rv_Client p) @ ''/intents/status'' @ ''?'' @ qs,
         hr_Header = bearer (rc_APIKey (rv_Client p)), hr_Body = None\<rparr> = HttpReply code body (Some j) \<and> 200 \<le> code \<and> code < 300) \<and>
    (sr_State res \<noteq> StatePending \<longrightarrow> sr_RawStatus res \<in> {''success'', ''refund'', ''failure''}) \<and>
    (sr_State res = StateFilled \<longleftrightarrow> sr_RawStatus res = ''success'')"
proof -
  let ?q = "Set ''requestId'' (sr_ProviderReferenceID rq) []"
  from assms obtain resp where 1: "sr_ProviderReferenceID rq \<noteq> ''''"
      "relay_get (rv_Client p) i ''/intents/status'' ?q dec_intentStatusResponse \<lparr>is_Status = [], is_TxHashes = [], is_InTxHashes = []\<rparr> = Inr resp"
      "sr_State res = relayStatusToState (is_Status resp)" "sr_RawStatus res = is_Status resp"
    by (auto simp: relay_CheckStatus_def split: if_splits sum.splits)
  have "?q \<noteq> []" by (simp add: Set_def)
  with 1(2) obtain code body j where "e_http i \<lparr>hr_Method = ''GET'',
      hr_URL = rc_baseURL (rv_Client p) @ ''/intents/status'' @ ''?'' @ Encode ?q, hr_Header = bearer (rc_APIKey (rv_Client p)),
      hr_Body = None\<rparr> = HttpReply code body (Some j)" "200 \<le> code" "code < 300"
    by (auto simp: relay_get_def http_result_Inr Let_def)
  then have "\<exists>qs code body j. ParseQuery qs = Some [(''requestId'', sr_ProviderReferenceID rq)] \<and>
       e_http i \<lparr>hr_Method = ''GET'', hr_URL = rc_baseURL (rv_Client p) @ ''/intents/status'' @ ''?'' @ qs,
         hr_Header = bearer (rc_APIKey (rv_Client p)), hr_Body = None\<rparr> = HttpReply code body (Some j) \<and> 200 \<le> code \<and> code < 300"
    using ParseQuery_single [of "''requestId''" "sr_ProviderReferenceID rq"] by blast
  moreover have "(sr_State res \<noteq> StatePending \<longrightarrow> sr_RawStatus res \<in> {''success'', ''refund'', ''failure''}) \<and>
      (sr_State res = StateFilled \<longleftrightarrow> sr_RawStatus res = ''success'')"
    using 1(3,4) by (auto simp: relayStatusToState_def split: if_splits)
  ultimately show ?thesis using 1(1) by blast
qed

definition demo_status_api :: "string \<Rightarrow> env" where
  "demo_status_api s = env0\<lparr>e_http := (\<lambda>_. HttpReply 200 [] (Some (JObj [(''status'', JStr s)])))\<rparr>"

text \<open>
  C36. The same for Across, down to the document: the reported status word is the value of the field
  \<open>status\<close> in the JSON body of a 2xx answer to a request for this deposit's transaction hash on the origin
  chain. The word \<open>filled\<close>, and no other, completes the deposit; \<open>expired\<close> and \<open>refunded\<close>, and no other, end it
  as refunded; every other word leaves it pending. An Across answer names no destination transaction.
\<close>

theorem across_status_from_answer:
  assumes "across_CheckStatus p i rq = Inr res"
  shows "(\<exists>qs kvs code body j. ParseQuery qs = Some kvs \<and> map_of kvs ''depositTxHash'' = Some (sr_OriginTxHash rq) \<and>
       map_of kvs ''originChainId'' = Some (Int_String (av_OriginChainID p)) \<and>
       e_http i \<lparr>hr_Method = ''GET'', hr_URL = ac_baseURL (av_Client p) @ ''/deposit/status'' @ ''?'' @ qs,
         hr_Header = bearer (ac_APIKey (av_Client p)), hr_Body = None\<rparr> = HttpReply code body (Some j) \<and> 200 \<le> code \<and> code < 300 \<and>
       string_field ''status'' j = Inr (sr_RawStatus res)) \<and>
    (sr_State res = StateFilled \<longleftrightarrow> sr_RawStatus res = ''filled'') \<and>
    (sr_State res = StateRefunded \<longleftrightarrow> sr_RawStatus res = ''expired'' \<or> sr_RawStatus res = ''refunded'') \<and>
    (sr_State res = StatePending \<longleftrightarrow> sr_RawStatus res \<notin> {''filled'', ''expired'', ''refunded''}) \<and> sr_DestinationTxHash res = None"
proof -
  let ?c = "av_Client p"
  let ?base = "Set ''depositTxHash'' (sr_OriginTxHash rq) (Set ''originChainId'' (Int_String (av_OriginChainID p)) [])"
  let ?q = "if ac_IntegratorID ?c \<noteq> [] then Set ''integratorId'' (ac_IntegratorID ?c) ?base else ?base"
  from assms obtain resp where 1: "across_get ?c i ''/deposit/status'' ?base dec_DepositStatusResponse \<lparr>ds_Status = []\<rparr> = Inr resp"
      "res = \<lparr>sr_State = acrossStatusToState (ds_Status resp), sr_RawStatus = ds_Status resp, sr_DestinationTxHash = None\<rparr>"
    by (auto simp: across_CheckStatus_def DepositStatusByTxHash_def split: sum.splits option.splits if_splits)
  have q: "distinct (map fst ?q)" "?q \<noteq> []" "map_of ?q ''depositTxHash'' = Some (sr_OriginTxHash rq)"
      "map_of ?q ''originChainId'' = Some (Int_String (av_OriginChainID p))"
    by (simp_all add: Set_def)
  have u: "across_request ?c ''/deposit/status'' ?base = \<lparr>hr_Method = ''GET'', hr_URL = ac_baseURL ?c @ ''/deposit/status'' @ ''?'' @ Encode ?q,
      hr_Header = bearer (ac_APIKey ?c), hr_Body = None\<rparr>"
    using q(2) by (simp add: across_request_def Let_def)
  from 1(1) obtain code body j where "e_http i (across_request ?c ''/deposit/status'' ?base) = HttpReply code body (Some j)" "200 \<le> code" "code < 300"
      "dec_DepositStatusResponse j \<lparr>ds_Status = []\<rparr> = Inr resp"
    by (auto simp: across_get_def http_result_Inr)
  then have "\<exists>qs kvs code body j. ParseQuery qs = Some kvs \<and> map_of kvs ''depositTxHash'' = Some (sr_OriginTxHash rq) \<and>
       map_of kvs ''originChainId'' = Some (Int_String (av_OriginChainID p)) \<and>
       e_http i \<lparr>hr_Method = ''GET'', hr_URL = ac_baseURL ?c @ ''/deposit/status'' @ ''?'' @ qs,
         hr_Header = bearer (ac_APIKey ?c), hr_Body = None\<rparr> = HttpReply code body (Some j) \<and> 200 \<le> code \<and> code < 300 \<and>
       string_field ''status'' j = Inr (ds_Status resp)"
    using q(3,4) unfolding u map_of_sort_key [OF q(1), symmetric] by (blast intro: ParseQuery_Encode status_field)
  then show ?thesis using 1(2) by (simp add: acrossStatusToState_def)
qed

theorem across_status_from_answer_witness:
  "across_CheckStatus (worker_across demo_geth demo_getenv demo_wallet 0) (demo_status_api ''filled'')
      \<lparr>sr_ProviderReferenceID = [], sr_OriginTxHash = ''h''\<rparr>
     = Inr \<lparr>sr_State = StateFilled, sr_RawStatus = ''filled'', sr_DestinationTxHash = None\<rparr> \<and>
   (\<exists>res. across_CheckStatus (worker_across demo_geth demo_getenv demo_wallet 0) (demo_status_api ''expired'')
      \<lparr>sr_ProviderReferenceID = [], sr_OriginTxHash = ''h''\<rparr> = Inr res \<and> sr_State res = StateRefunded \<and> sr_RawStatus res = ''expired'')"
proof -
  let ?p = "worker_across demo_geth demo_getenv demo_wallet 0" and ?rq = "\<lparr>sr_ProviderReferenceID = [], sr_OriginTxHash = ''h''\<rparr>"
  have ans: "\<exists>res. across_CheckStatus ?p (demo_status_api s) ?rq = Inr res \<and> sr_RawStatus res = s" for s
  proof -
    have "\<exists>res. across_CheckStatus ?p (demo_status_api s) ?rq = Inr res"
      by (simp add: across_CheckStatus_def DepositStatusByTxHash_def across_get_def http_result_def demo_status_api_def env0_def
          dec_DepositStatusResponse_def fld_def ToLower_relay_keys)
    then obtain res where r: "across_CheckStatus ?p (demo_status_api s) ?rq = Inr res" by blast
    from across_status_from_answer [OF this] obtain j where "j = JObj [(''status'', JStr s)]" "string_field ''status'' j = Inr (sr_RawStatus res)"
      by (auto simp: demo_status_api_def)
    with r show ?thesis by (auto simp: string_field_single)
  qed
  from ans [of "''filled''"] obtain r1 where r1: "across_CheckStatus ?p (demo_status_api ''filled'') ?rq = Inr r1" "sr_RawStatus r1 = ''filled''"
    by blast
  from ans [of "''expired''"] obtain r2 where r2: "across_CheckStatus ?p (demo_status_api ''expired'') ?rq = Inr r2" "sr_RawStatus r2 = ''expired''"
    by blast
  show ?thesis using across_status_from_answer [OF r1(1)] across_status_from_answer [OF r2(1)] r1 r2 by (cases r1) auto
qed

end
