(* ===== verification/Listing_Behaviour.thy ===== *)
theory Listing_Behaviour
  imports Listing Scenario
begin

text \<open>
  The payment list and the dashboard: following the cursors visits every matching payment exactly
  once, newest first, and the dashboard counters add up.
\<close>

section \<open>Keyset pagination\<close>

text \<open>One page for a cursor, and the pages a client collects until the cursor is empty.\<close>

definition page_at :: "Pg \<Rightarrow> ListFilter \<Rightarrow> env \<Rightarrow> world \<Rightarrow> string \<Rightarrow> (Payment list \<times> string) option" where
  "page_at pg f i w c = (case run_result (ListPayments pg (f\<lparr>f_Cursor := c\<rparr>)) [i] w of Some (Inr r) \<Rightarrow> Some r | _ \<Rightarrow> None)"

primrec walk_pages :: "nat \<Rightarrow> (string \<Rightarrow> (Payment list \<times> string) option) \<Rightarrow> string \<Rightarrow> Payment list option" where
  "walk_pages 0 page c = None"
| "walk_pages (Suc n) page c =
    (case page c of
       None \<Rightarrow> None
     | Some (ps, next) \<Rightarrow> if next = '''' then Some ps else map_option ((@) ps) (walk_pages n page next))"

text \<open>The matching payments, newest first: the reference for the walk.\<close>

definition newest_first :: "ListFilter \<Rightarrow> db \<Rightarrow> payment_row list" where
  "newest_first f d = rev (sort_key list_key (filter (filter_matches f) (db_payments d)))"

definition cursor_after :: "payment_row \<Rightarrow> string" where
  "cursor_after r = EncodeCursor (FormatRFC3339Nano (pr_created_at r)) (pr_id r)"

abbreviation descending :: "payment_row list \<Rightarrow> bool" where
  "descending \<equiv> sorted_wrt (\<lambda>a b. list_key b < list_key a)"

lemma descending_newest_first:
  assumes "distinct (map pr_id (db_payments d))"
  shows "descending (newest_first f d)"
proof -
  let ?s = "sort_key list_key (filter (filter_matches f) (db_payments d))"
  have "inj_on list_key (set (db_payments d))" using assms by (auto simp: inj_on_def list_key_def distinct_map)
  moreover have "distinct (db_payments d)" using assms by (simp add: distinct_map)
  ultimately have "distinct (map list_key ?s)" by (auto simp: distinct_map intro: inj_on_subset)
  moreover have "sorted (map list_key ?s)" by simp
  ultimately have "sorted_wrt (<) (map list_key ?s)" by (simp add: strict_sorted_iff)
  then show ?thesis by (simp add: newest_first_def sorted_wrt_map sorted_wrt_rev)
qed

lemma filter_below:
  assumes "descending xs" "j < length xs"
  shows "filter (\<lambda>r. list_key r < list_key (xs ! j)) xs = drop (Suc j) xs"
proof -
  have ge: "\<not> list_key r < list_key (xs ! j)" if "r \<in> set (take (Suc j) xs)" for r
  proof -
    from that obtain k where k: "k < Suc j" "k < length xs" "r = xs ! k" by (auto simp: in_set_conv_nth)
    show ?thesis
    proof (cases "k = j")
      case False
      with k assms have "list_key (xs ! j) < list_key (xs ! k)" by (simp add: sorted_wrt_iff_nth_less)
      with k show ?thesis by simp
    qed (use k in simp)
  qed
  have lt: "list_key r < list_key (xs ! j)" if "r \<in> set (drop (Suc j) xs)" for r
  proof -
    from that obtain k where "k < length xs - Suc j" "r = xs ! (Suc j + k)" by (auto simp: in_set_conv_nth)
    with assms show ?thesis by (simp add: sorted_wrt_iff_nth_less)
  qed
  have "filter (\<lambda>r. list_key r < list_key (xs ! j)) (take (Suc j) xs @ drop (Suc j) xs) = drop (Suc j) xs"
    using ge lt by (simp add: filter_empty_conv filter_id_conv del: append_take_drop_id)
  then show ?thesis by simp
qed

text \<open>The page after the first \<open>k\<close> payments.\<close>

definition cursor_at :: "payment_row list \<Rightarrow> nat \<Rightarrow> string" where
  "cursor_at xs k = (if k = 0 then '''' else cursor_after (xs ! (k - 1)))"

lemma EncodeCursor_nonempty: "EncodeCursor t i \<noteq> ''''"
  by (cases "t @ '','' @ i" rule: EncodeToString.cases) (auto simp: EncodeCursor_def)

lemma rows_after:
  assumes "descending (newest_first f d)" "k \<le> length (newest_first f d)"
    and "bound = (if k = 0 then None else Some (list_key (newest_first f d ! (k - 1))))"
  shows "rev (sort_key list_key (filter (\<lambda>r. (\<forall>b \<in> set_option bound. list_key r < b) \<and> filter_matches f r) (db_payments d)))
    = drop k (newest_first f d)"
proof -
  let ?P = "\<lambda>r. \<forall>b \<in> set_option bound. list_key r < b"
  have "rev (sort_key list_key (filter (\<lambda>r. ?P r \<and> filter_matches f r) (db_payments d))) = filter ?P (newest_first f d)"
  proof -
    have "filter (\<lambda>r. ?P r \<and> filter_matches f r) (db_payments d) = filter ?P (filter (filter_matches f) (db_payments d))"
      by (auto simp: filter_filter intro: filter_cong)
    then show ?thesis by (simp only: newest_first_def filter_sort [symmetric] rev_filter)
  qed
  also have "\<dots> = drop k (newest_first f d)"
    using assms filter_below [OF assms(1), of "k - 1"] by (cases k) simp_all
  finally show ?thesis .
qed

lemma page_at_cursor:
  assumes "pg_ok pg" "ok_env i" "descending (newest_first f (w_db w))" "k \<le> length (newest_first f (w_db w))"
    "year_of ` pr_created_at ` set (payments w) \<subseteq> {0..9999}" "\<And>r. r \<in> set (payments w) \<Longrightarrow> uuid_in (pr_id r) = Some (pr_id r)"
  shows "page_at pg f i w (cursor_at (newest_first f (w_db w)) k) =
    Some (next_page (effective_limit f) (map scan_list_row (take (nat (effective_limit f + 1)) (drop k (newest_first f (w_db w))))))"
proof -
  let ?L = "newest_first f (w_db w)" and ?c = "cursor_at (newest_first f (w_db w)) k"
  let ?f = "f\<lparr>f_Cursor := ?c\<rparr>"
  let ?cur = "if k = 0 then None else Some (FormatRFC3339Nano (pr_created_at (?L ! (k - 1))), pr_id (?L ! (k - 1)))"
  have dec: "decode_cursor_arg ?c = Inr ?cur"
    by (simp add: decode_cursor_arg_def cursor_at_def cursor_after_def EncodeCursor_nonempty DecodeCursor_EncodeCursor Format_no_comma)
  have "cursor_bound pg ?cur = Inr (if k = 0 then None else Some (list_key (?L ! (k - 1))))"
  proof (cases "k = 0")
    case False
    with assms(4) have "?L ! (k - 1) \<in> set ?L" by simp
    then have "?L ! (k - 1) \<in> set (payments w)" by (simp add: newest_first_def)
    with assms(1,5,6) False show ?thesis
      by (auto simp: cursor_bound_def pg_ok_def uuid_arg_def list_key_def image_subset_iff)
  qed (simp add: cursor_bound_def)
  moreover have "filter_matches ?f = filter_matches f" "effective_limit ?f = effective_limit f"
    by (simp_all add: filter_matches_def effective_limit_def fun_eq_iff)
  ultimately have "list_query pg ?f ?cur (w_db w) = Inr (take (nat (effective_limit f + 1)) (drop k ?L))"
    using rows_after [OF assms(3,4) refl] by (simp add: list_query_def sql_select_def)
  then show ?thesis using dec \<open>effective_limit ?f = effective_limit f\<close> assms(2)
    by (simp add: page_at_def ListPayments_def run_result_def run_tryp wrapp_def run_bindp run_query_ok)
qed

lemma next_page_more:
  "length rs = Suc m \<Longrightarrow> int m = l \<Longrightarrow> 0 < m \<Longrightarrow>
   next_page l rs = (take m rs, EncodeCursor (FormatRFC3339Nano (p_CreatedAt (rs ! (m - 1)))) (p_ID (rs ! (m - 1))))"
  by (auto simp: next_page_def Let_def nat_diff_distrib)

lemma walk_from:
  assumes "pg_ok pg" "ok_env i" "descending (newest_first f (w_db w))"
    "year_of ` pr_created_at ` set (payments w) \<subseteq> {0..9999}" "\<And>r. r \<in> set (payments w) \<Longrightarrow> uuid_in (pr_id r) = Some (pr_id r)"
  shows "k \<le> length (newest_first f (w_db w)) \<Longrightarrow> length (newest_first f (w_db w)) - k < n \<Longrightarrow>
    walk_pages n (page_at pg f i w) (cursor_at (newest_first f (w_db w)) k) = Some (map scan_list_row (drop k (newest_first f (w_db w))))"
proof (induction n arbitrary: k)
  case (Suc n)
  let ?L = "newest_first f (w_db w)" and ?m = "nat (effective_limit f)"
  have m: "0 < ?m" "int ?m = effective_limit f" "nat (effective_limit f + 1) = Suc ?m"
      "nat (effective_limit f - 1) = ?m - 1"
    by (auto simp: effective_limit_def)
  have page: "page_at pg f i w (cursor_at ?L k) =
      Some (next_page (effective_limit f) (map scan_list_row (take (nat (effective_limit f + 1)) (drop k ?L))))"
    by (rule page_at_cursor [OF assms(1-3) Suc.prems(1) assms(4)]) (rule assms(5))
  show ?case
  proof (cases "length ?L - k \<le> ?m")
    case True
    then have "take (Suc ?m) (drop k ?L) = drop k ?L" by simp
    with True page m show ?thesis by (simp add: next_page_def)
  next
    case False
    let ?r = "?L ! (k + ?m - 1)"
    have last: "map scan_list_row (take (Suc ?m) (drop k ?L)) ! (?m - 1) = scan_list_row ?r"
      using False m(1) by (simp add: nth_append)
    have next_c: "cursor_at ?L (k + ?m) = cursor_after ?r" "cursor_after ?r \<noteq> ''''"
      using m(1) by (simp_all add: cursor_at_def cursor_after_def EncodeCursor_nonempty)
    have "page_at pg f i w (cursor_at ?L k) = Some (map scan_list_row (take ?m (drop k ?L)), cursor_after ?r)"
    proof -
      have len: "length (map scan_list_row (take (Suc ?m) (drop k ?L))) = Suc ?m" using False by simp
      show ?thesis unfolding page unfolding m(3) next_page_more [OF len m(2,1)] last
        by (simp add: cursor_after_def scan_list_row_def take_map)
    qed
    moreover have "walk_pages n (page_at pg f i w) (cursor_at ?L (k + ?m)) = Some (map scan_list_row (drop (k + ?m) ?L))"
      using False m(1) Suc.prems by (intro Suc.IH) auto
    moreover have "take ?m (drop k ?L) @ drop (k + ?m) ?L = drop k ?L"
      by (metis append_take_drop_id drop_drop add.commute)
    ultimately show ?thesis using next_c by (simp flip: map_append)
  qed
qed simp

text \<open>
  C40. Following the list cursors visits every payment that matches the filter exactly once, newest
  first, whatever the page size: the pages a client collects while the table is unchanged are the
  whole sorted selection.
\<close>

theorem list_pages_complete:
  assumes "executor_ok e" "reach e (w, ts)" "pg_ok pg" "ok_env i" "year_of ` pr_created_at ` set (payments w) \<subseteq> {0..9999}"
    "length (payments w) < n"
  shows "walk_pages n (page_at pg f i w) '''' = Some (map scan_list_row (newest_first f (w_db w)))"
proof -
  have inv: "sys_inv e w" using reach_inv [OF assms(1,2)] by simp
  have "length (newest_first f (w_db w)) \<le> length (payments w)" by (simp add: newest_first_def)
  with walk_from [OF assms(3,4) descending_newest_first [OF payment_keys [OF inv]] assms(5) uuid_in_idem [OF inv], where k = 0 and n = n and f = f] assms(6)
  show ?thesis by (simp add: cursor_at_def)
qed


definition demo_pg :: Pg where
  "demo_pg = \<lparr>pg_timestamptz_in = parse_rfc3339, pg_date_trunc = (\<lambda>_ t. t), pg_minus_days = (\<lambda>t n. t - 86400000000 * n), pg_avg = hd\<rparr>"

lemma demo_pg_ok: "pg_ok demo_pg"
  by (simp add: pg_ok_def demo_pg_def parse_rfc3339_Format)

definition demo_filter :: ListFilter where
  "demo_filter = \<lparr>f_Limit = 1, f_Cursor = [], f_Status = None, f_Provider = None, f_SourceChain = None, f_DestinationChain = None,
     f_ExecutionMode = None\<rparr>"

theorem list_pages_complete_witness:
  "walk_pages 3 (page_at demo_pg demo_filter (demo_env 0) demo_settled) [] =
     Some (map scan_list_row (newest_first demo_filter (w_db demo_settled)))"
proof (rule list_pages_complete [OF demo_executor_ok demo_settled_reach demo_pg_ok demo_env_sel(2)])
  obtain r q where p: "payments demo_settled = [r, q]" "pr_created_at r = 0" "pr_created_at q = 0"
    using demo_settled_facts(2) by (auto simp: demo_rows)
  have "year_of 0 = 1970" unfolding year_of_def by code_simp
  with p show "year_of ` pr_created_at ` set (payments demo_settled) \<subseteq> {0..9999}" "length (payments demo_settled) < 3" by simp_all
qed

section \<open>The dashboard\<close>

lemma status_partition:
  "length rs = length (filter (\<lambda>r. pr_status r = COMPLETED) rs) + length (filter in_flight rs) + length (filter (\<lambda>r. pr_status r = FAILED) rs)"
proof (induction rs)
  case (Cons r rs)
  then show ?case by (cases "pr_status r") (simp_all add: in_flight_def)
qed simp

lemma sum_list_sort: "sum_list (map g (sort xs)) = (sum_list (map g xs) :: nat)"
  by (metis mset_map mset_sort sum_mset_sum_list)

lemma group_counts: "sum_list (map (\<lambda>k. length (filter (\<lambda>r. f r = k) rs)) (remdups (map f rs))) = length rs"
proof -
  have "length (filter (\<lambda>r. f r = k) rs) = count_list (map f rs) k" for k
    by (induction rs) auto
  then have "sum_list (map (\<lambda>k. length (filter (\<lambda>r. f r = k) rs)) (remdups (map f rs))) = sum (count_list (map f rs)) (set (map f rs))"
    by (simp add: sum_list_distinct_conv_sum_set)
  also have "\<dots> = length (map f rs)" by (rule sum_count_set) simp_all
  finally show ?thesis by simp
qed

lemma network_usage_total: "sum_list (map n_Count (network_usage d)) = length (db_payments d)"
proof -
  let ?t = "\<lambda>k. (- int (count_rows (\<lambda>r. corridor r = k) d), fst k, snd k)"
  have "map n_Count (network_usage d) = map (\<lambda>x. nat (- fst x)) (sort (map ?t (remdups (map corridor (db_payments d)))))"
    by (simp add: network_usage_def case_prod_beta)
  then have "sum_list (map n_Count (network_usage d)) =
      sum_list (map (\<lambda>x. nat (- fst x)) (map ?t (remdups (map corridor (db_payments d)))))"
    by (simp only: sum_list_sort)
  also have "\<dots> = sum_list (map (\<lambda>k. count_rows (\<lambda>r. corridor r = k) d) (remdups (map corridor (db_payments d))))"
    by (simp add: comp_def)
  finally show ?thesis by (simp add: count_rows_def sql_select_def group_counts)
qed

text \<open>
  The dashboard adds up: on an unchanged table, the completed, in-flight and failed payments
  partition the total, and the counts of the network breakdown sum to it.
\<close>

lemma dashboard_adds_up:
  assumes "ok_env i" "ok_env j" "ok_env k"
  shows "\<exists>st. run_result (GetDashboardStats pg) [i, j, k] w = Some (Inr st) \<and> d_TotalPayments st = length (payments w) \<and>
    d_TotalPayments st = d_CompletedPayments st + d_ProcessingPayments st + d_FailedPayments st \<and>
    sum_list (map n_Count (d_NetworkUsage st)) = d_TotalPayments st"
  using assms status_partition [of "payments w"] network_usage_total [of "w_db w"]
  by (simp add: run_result_def GetDashboardStats_def run_tryp wrapp_def run_bindp run_query_ok count_rows_def sql_select_def)

end
