(* ===== verification/Api_Behaviour.thy ===== *)
theory Api_Behaviour
  imports Bridge_Behaviour Store_Behaviour Listing_Behaviour
begin

text \<open>
  What \<open>POST /payments\<close> promises: an accepted request is a well-formed payment whose amount the database
  stores exactly, a created payment is the one that was requested, with the quote of the chosen
  bridge selected, and a retry is answered without the routing service or the bridges.
\<close>

section \<open>Validation\<close>

lemma nat_of_digits_zero:
  "list_all is_digit s \<Longrightarrow> nat_of_digits s = 0 \<Longrightarrow> set s \<subseteq> {CHR ''0''}"
proof (induction s rule: rev_induct)
  case (snoc c s)
  then have "digit_val c = 0" "is_digit c" by simp_all
  then have "(of_char c :: nat) = 48" by (simp add: digit_val_def is_digit_def)
  then have "(of_char c :: nat) = of_char (CHR ''0'')" by simp
  then have "c = CHR ''0''" by (rule injD [OF inj_of_char])
  with snoc show ?case by simp
qed simp

lemma amountPattern_parts:
  assumes "amountPattern s"
  shows "valid_amount s" "length (frac_part s) \<le> 18" "length (int_part s) \<le> 20"
    "set s \<subseteq> set (int_part s) \<union> set (frac_part s) \<union> {CHR ''.''}"
proof -
  have d: "digits_between 1 20 (int_part s)" "frac_part s = [] \<or> digits_between 1 18 (frac_part s)"
    using assms by (auto simp: amountPattern_def int_part_def frac_part_def split: option.splits)
  show "valid_amount s" "length (frac_part s) \<le> 18" "length (int_part s) \<le> 20"
    using d by (auto simp: digits_between_def valid_amount_def)
  show "set s \<subseteq> set (int_part s) \<union> set (frac_part s) \<union> {CHR ''.''}"
  proof (cases "IndexByte s (CHR ''.'')")
    case None
    then show ?thesis by (auto simp: int_part_def)
  next
    case (Some i)
    have "set (take i s @ CHR ''.'' # drop (Suc i) s) \<subseteq> set (int_part s) \<union> set (frac_part s) \<union> {CHR ''.''}"
      by (auto simp: Some int_part_def frac_part_def)
    with IndexByte_SomeD [OF Some] show ?thesis by (simp add: id_take_nth_drop [symmetric])
  qed
qed

lemma accepted_amount:
  assumes "amountPattern s" "\<not> isZeroAmount s"
  obtains n where "numeric_in 18 s = Some n" "DecimalToBaseUnits s 18 = Inr n" "0 < n" "numeric_fits n"
    "of_int n = decimal_value s * 10 ^ 18"
proof -
  note p = amountPattern_parts [OF assms(1)]
  have d: "unat (18 :: 8 word) = 18" by simp
  from numeric_in_valid [of s "18 :: 8 word"] p(1,2) obtain n where n: "numeric_in 18 s = Some n" "DecimalToBaseUnits s 18 = Inr n" "0 \<le> n"
    by (auto simp: d)
  let ?ds = "int_part s @ frac_part s"
  have dig: "list_all is_digit ?ds" using p(1) by (simp add: valid_amount_def)
  have nv: "n = int (nat_of_digits (int_part s) * 10 ^ 18 + nat_of_digits (frac_part s) * 10 ^ (18 - length (frac_part s)))"
    using DecimalToBaseUnits_valid [of s "18 :: 8 word"] p(1,2) n(2) by simp
  have "n \<noteq> 0"
  proof
    assume "n = 0"
    with nv have "nat_of_digits (int_part s) * 10 ^ 18 + nat_of_digits (frac_part s) * 10 ^ (18 - length (frac_part s)) = 0"
      by (simp only: of_nat_eq_0_iff)
    then have "nat_of_digits (int_part s) = 0" "nat_of_digits (frac_part s) = 0" by (simp_all only: add_eq_0_iff_both_eq_0 mult_eq_0_iff) simp_all
    with dig nat_of_digits_zero have "set (int_part s) \<subseteq> {CHR ''0''}" "set (frac_part s) \<subseteq> {CHR ''0''}" by auto
    with p(4) assms(2) show False by (auto simp: isZeroAmount_def list_all_iff)
  qed
  moreover have "n < 10 ^ 38"
  proof -
    have i: "nat_of_digits (int_part s) < 10 ^ 20"
      using nat_of_digits_less [of "int_part s"] dig power_increasing [OF p(3), of "10 :: nat"] by simp
    have f: "nat_of_digits (frac_part s) * 10 ^ (18 - length (frac_part s)) < 10 ^ 18"
    proof -
      have "nat_of_digits (frac_part s) < 10 ^ length (frac_part s)" using dig nat_of_digits_less by simp
      then have "nat_of_digits (frac_part s) * 10 ^ (18 - length (frac_part s)) < 10 ^ length (frac_part s) * 10 ^ (18 - length (frac_part s))"
        by simp
      also have "\<dots> = 10 ^ 18" using p(2) by (simp flip: power_add)
      finally show ?thesis .
    qed
    have "nat_of_digits (int_part s) * 10 ^ 18 + nat_of_digits (frac_part s) * 10 ^ (18 - length (frac_part s)) < (10 ^ 20 - 1) * 10 ^ 18 + 10 ^ 18"
      using i f by (intro add_le_less_mono mult_right_mono) simp_all
    also have "\<dots> = 10 ^ 38" by simp
    finally have "int (nat_of_digits (int_part s) * 10 ^ 18 + nat_of_digits (frac_part s) * 10 ^ (18 - length (frac_part s))) < int (10 ^ 38)"
      by (simp only: of_nat_less_iff)
    then show ?thesis unfolding nv by simp
  qed
  ultimately show ?thesis
    using that [OF n(1,2)] n(2,3) DecimalToBaseUnits_value [of s "18 :: 8 word"] p(1,2) by (auto simp: numeric_fits_def)
qed

lemma check_create_amount:
  assumes "check_create header doc = Inr v"
  shows "amountPattern (vc_amount v)" "\<not> isZeroAmount (vc_amount v)"
  using assms by (auto simp: check_create_def Let_def split: if_splits option.splits prod.splits bool.splits)

text \<open>
  C39. A request that passes validation is a payment the database can hold: its key has between 1 and
  255 bytes, its chains differ, its mode is known, and its amount is stored as exactly that many base
  units, positive and within the column's 38 digits.
\<close>

theorem accepted_request_exact:
  assumes "check_create header doc = Inr v"
  shows "vc_key v \<noteq> '''' \<and> length (vc_key v) \<le> 255 \<and> vc_source v \<noteq> vc_dest v \<and>
    vc_mode v \<in> {ExecutionModeSimulated, ExecutionModeTestnet} \<and>
    (\<exists>n. numeric_in 18 (vc_amount v) = Some n \<and> DecimalToBaseUnits (vc_amount v) 18 = Inr n \<and> 0 < n \<and> numeric_fits n \<and>
       of_int n = decimal_value (vc_amount v) * 10 ^ 18)"
proof -
  from assms have "vc_key v \<noteq> ''''" "length (vc_key v) \<le> 255"
      "vc_source v \<noteq> vc_dest v" "vc_mode v \<in> {ExecutionModeSimulated, ExecutionModeTestnet}"
    by (auto simp: check_create_def Let_def split: if_splits option.splits prod.splits bool.splits)
  then show ?thesis using accepted_amount [OF check_create_amount [OF assms]] by metis
qed

section \<open>What a handler ends with\<close>

text \<open>Every finished run of \<open>p\<close> ends with a result and a database that satisfy \<open>Q\<close>.\<close>

definition yields :: "('a \<Rightarrow> db \<Rightarrow> bool) \<Rightarrow> 'a pr \<Rightarrow> bool" where
  "yields Q p \<longleftrightarrow> (\<forall>is w a w' is'. run p is w = (Some a, w', is') \<longrightarrow> Q a (w_db w'))"

lemma yieldsD: "yields Q p \<Longrightarrow> run p is w = (Some a, w', is') \<Longrightarrow> Q a (w_db w')"
  unfolding yields_def by blast

lemma yields_Done [intro]: "(\<And>d. Q a d) \<Longrightarrow> yields Q (Done a)"
  by (simp add: yields_def)

lemma yields_bindp: "yields (\<lambda>a _. R a) p \<Longrightarrow> (\<And>a. R a \<Longrightarrow> yields Q (k a)) \<Longrightarrow> yields Q (bindp p k)"
  unfolding yields_def by (auto simp: run_bindp split: option.splits prod.splits) blast

lemma yields_any: "yields (\<lambda>_ _. True) p"
  by (simp add: yields_def)

lemma yields_then: "(\<And>a. yields Q (k a)) \<Longrightarrow> yields Q (bindp p k)"
  by (rule yields_bindp [OF yields_any])

lemma yields_tryp: "(\<And>e. yields Q (h e)) \<Longrightarrow> (\<And>a. yields Q (k a)) \<Longrightarrow> yields Q (tryp p h k)"
  unfolding tryp_def by (rule yields_then) (simp split: sum.split)

lemma yields_call_out: "(\<And>i. R (f i)) \<Longrightarrow> yields (\<lambda>a _. R a) (call_out f ev)"
  by (auto simp: yields_def call_out_def split: list.splits)

lemma yields_foldp:
  assumes "\<And>x s. x \<in> set xs \<Longrightarrow> R s \<Longrightarrow> yields (\<lambda>a _. R a) (f x s)"
  shows "R s \<Longrightarrow> yields (\<lambda>a _. R a) (foldp f xs s)"
  using assms by (induction xs arbitrary: s) (auto intro: yields_bindp)

text \<open>
  A response with a documented status, never a panic; one with status 201 follows a transaction that
  stored a candidate for which \<open>P\<close> holds.
\<close>

definition other_status :: "int \<Rightarrow> bool" where
  "other_status st \<longleftrightarrow> st \<in> {200, 400, 409, 422, 500, 503, 504}"

definition created :: "(Payment \<Rightarrow> bool) \<Rightarrow> http_response res \<Rightarrow> db \<Rightarrow> bool" where
  "created P r d \<longleftrightarrow> (\<exists>resp. r = Inr resp \<and> (other_status (hs_Status resp) \<or>
     (\<exists>c i d0 row. P c \<and> create_tx c i d0 = Inr (Some row, d) \<and> resp = existing_response 201 (created_payment c row))))"

lemma created_other [simp]: "other_status (hs_Status resp) \<Longrightarrow> created P (Inr resp) d"
  by (auto simp: created_def)

lemma status_of_responses [simp]:
  "hs_Status (writeJSON st b) = st" "hs_Status (writeError st msg) = st" "hs_Status (existing_response st p) = st"
  "hs_Status conflict_response = 409" "other_status (hs_Status (snd (route_failure code msg)))"
  "other_status 200" "other_status 400" "other_status 409" "other_status 422" "other_status 500" "other_status 503"
  by (simp_all add: writeJSON_def writeError_def existing_response_def conflict_response_def route_failure_def other_status_def
      split: grpc_code.splits)

lemma yields_create_payment:
  assumes "P c" "p_ExecutionMode c \<noteq> ''''"
  shows "yields (created P) (create_payment v c)"
  unfolding yields_def
proof (intro allI impI)
  fix "is" w a w' is' assume "run (create_payment v c) is w = (Some a, w', is')"
  moreover have "c\<lparr>p_ExecutionMode := normalizeExecutionMode (p_ExecutionMode c)\<rparr> = c"
    using assms(2) by (simp add: normalizeExecutionMode_def)
  ultimately show "created P a (w_db w')"
    using assms(1)
    by (auto simp: create_payment_def run_tryp run_bindp run_Inc created_def dest!: CreatedD
             split: option.splits sum.splits prod.splits CreateResult.splits) metis+
qed

text \<open>The quotes that reach the routing service, and the candidate that is stored for a request.\<close>

definition quote_ok :: "int \<Rightarrow> string \<Rightarrow> BQuote \<Rightarrow> bool" where
  "quote_ok amt n q \<longleftrightarrow> b_ProviderName q = n \<and> b_InputAmountBaseUnits q = Some amt \<and> b_FeeBaseUnits q \<noteq> None"

definition candidate_for :: "valid_create \<Rightarrow> int \<Rightarrow> Payment \<Rightarrow> bool" where
  "candidate_for v amt c \<longleftrightarrow>
     (\<exists>fee hops provider quotes. c = (lookup_candidate v)\<lparr>p_TotalFee := fee, p_Hops := hops, p_BridgeProvider := provider, p_Quotes := quotes\<rparr>) \<and>
     (vc_mode v = ExecutionModeTestnet \<longrightarrow> p_Hops c \<noteq> [] \<longrightarrow>
       (\<exists>q \<in> set (p_Quotes c). q_Selected q \<and> p_BridgeProvider c = Some (q_Provider q) \<and> q_InputAmount q = Int_String amt))"

lemma yields_create_routed:
  assumes "vc_mode v \<noteq> ''''" "\<forall>(n, q) \<in> set quotes. quote_ok amt n q"
  shows "yields (created (candidate_for v amt)) (create_routed v quotes resp)"
proof -
  have sel: "\<exists>q \<in> set (map (stored_quote n) (shuffle f quotes)). q_Selected q \<and> q_Provider q = b_ProviderName bq \<and> q_InputAmount q = Int_String amt"
    if "map_of quotes n = Some bq" for n bq f
    using map_of_SomeD [OF that] assms(2)
    by (auto intro!: bexI [of _ "(n, bq)"] simp: stored_quote_def quote_ok_def big_text_def)
  show ?thesis
    unfolding create_routed_def Let_def
    by (auto intro!: yields_then yields_create_payment split: option.splits
         simp: assms(1) candidate_for_def lookup_candidate_def dest!: sel) (metis list.set_map)+
qed

lemma yields_route_and_create:
  assumes "vc_mode v \<noteq> ''''" "\<forall>(n, q) \<in> set quotes. quote_ok amt n q"
  shows "yields (created (candidate_for v amt)) (route_and_create v edges quotes)"
  unfolding route_and_create_def Let_def
  by (auto intro!: yields_then yields_Done yields_create_routed assms split: sum.split)

text \<open>The providers of a server answer as the contract says.\<close>

definition quoting :: "env Provider \<Rightarrow> bool" where
  "quoting p \<longleftrightarrow> (\<forall>i rq q. pv_GetQuote p i rq = Inr q \<longrightarrow> b_Available q \<longrightarrow> quote_ok (rq_AmountBaseUnits rq) (pv_Name p) q)"

context bridge_provider
begin

lemma available_quote_ok: "getQuote i rq = Inr q \<Longrightarrow> b_Available q \<Longrightarrow> quote_ok (rq_AmountBaseUnits rq) name q"
  using route amounts by (fastforce simp: quote_ok_def)

end

lemma quoting_providers: "quoting (across_provider a)" "quoting (relay_provider g r)"
  using across.available_quote_ok relay.available_quote_ok
  by (auto simp: quoting_def across_provider_def relay_provider_def)

lemma server_registry_quoting:
  assumes "server_registry g getenv = Inr (Some reg)" "p \<in> set (ProvidersFor reg key)"
  shows "quoting p"
  using assms
  by (auto simp: server_registry_def bindr_def Let_def Register_def ProvidersFor_def NewRegistry_def quoting_providers split: if_splits sum.splits)

definition answers_ok :: "int \<Rightarrow> (string \<times> BQuote res) list \<Rightarrow> bool" where
  "answers_ok amt rs \<longleftrightarrow> (\<forall>(n, r) \<in> set rs. \<forall>q. r = Inr q \<longrightarrow> b_Available q \<longrightarrow> quote_ok amt n q)"

lemma yields_fetch_quotes:
  assumes "\<forall>p \<in> set ps. quoting p"
  shows "yields (\<lambda>rs _. answers_ok (rq_AmountBaseUnits rq) rs) (fetch_quotes rq ps)"
  unfolding fetch_quotes_def
proof (rule yields_foldp)
  fix p rs assume "p \<in> set ps" and rs: "answers_ok (rq_AmountBaseUnits rq) rs"
  with assms have p: "quoting p" by blast
  let ?R = "\<lambda>r. \<forall>q. r = Inr q \<longrightarrow> b_Available q \<longrightarrow> quote_ok (rq_AmountBaseUnits rq) (pv_Name p) q"
  have "yields (\<lambda>r _. ?R r) (fetch_quote rq p)"
    unfolding fetch_quote_def Let_def get_quote_def
    by (rule yields_then, rule yields_bindp [where R = ?R], rule yields_call_out)
       (use p in \<open>auto simp: quoting_def intro!: yields_then\<close>)
  then show "yields (\<lambda>rs _. answers_ok (rq_AmountBaseUnits rq) rs) (bindp (fetch_quote rq p) (\<lambda>r. Done (rs @ [(pv_Name p, r)])))"
    by (rule yields_bindp) (use rs in \<open>fastforce simp: answers_ok_def intro!: yields_Done\<close>)
qed (simp add: answers_ok_def)

lemma collect_quotes_ok:
  assumes "answers_ok amt rs" "\<forall>(n, q) \<in> set (qs_quotes s). quote_ok amt n q"
  shows "\<exists>s'. collect_quotes a rs s = Inr s' \<and> (\<forall>(n, q) \<in> set (qs_quotes s'). quote_ok amt n q)"
  using assms
proof (induction rs arbitrary: s)
  case (Cons r rs)
  then have "\<exists>s'. add_quote a s r = Inr s' \<and> (\<forall>(n, q) \<in> set (qs_quotes s'). quote_ok amt n q)"
    by (auto simp: add_quote_def Let_def answers_ok_def quote_ok_def split: sum.splits option.splits)
  with Cons show ?case by (auto simp: answers_ok_def)
qed simp

lemma testnet_request_Inr:
  assumes "testnet_request h v = Inr (rq, ps)"
  shows "DecimalToBaseUnits (vc_amount v) 18 = Inr (rq_AmountBaseUnits rq)"
    "\<exists>reg key. hd_QuoteRegistry h = Some reg \<and> ps = ProvidersFor reg key"
    "\<forall>m. hd_MaxTestnetAmountWei h = Some m \<longrightarrow> rq_AmountBaseUnits rq \<le> m"
  using assms by (auto simp: testnet_request_def Let_def split: if_splits option.splits sum.splits)

lemma testnet_request_Inl: "testnet_request h v = Inl resp \<Longrightarrow> hs_Status resp = 400"
  by (auto simp: testnet_request_def Let_def split: if_splits option.splits sum.splits)

lemma start_server_registry:
  assumes "start_server g getenv pg = Inr h" "hd_QuoteRegistry h = Some reg"
  shows "server_registry g getenv = Inr (Some reg)"
  using assms by (auto simp: start_server_def bindr_def split: if_splits sum.splits)

lemma created_mono: "yields (created P) p \<Longrightarrow> (\<And>c. P c \<Longrightarrow> Q c) \<Longrightarrow> yields (created Q) p"
  unfolding yields_def created_def by blast

text \<open>The candidate, within the ceiling when it is for the testnet.\<close>

definition allowed_candidate :: "Handler \<Rightarrow> valid_create \<Rightarrow> int \<Rightarrow> Payment \<Rightarrow> bool" where
  "allowed_candidate h v amt c \<longleftrightarrow> candidate_for v amt c \<and>
     (vc_mode v = ExecutionModeTestnet \<longrightarrow> (\<forall>m. hd_MaxTestnetAmountWei h = Some m \<longrightarrow> amt \<le> m))"

lemma check_create_mode: "check_create header doc = Inr v \<Longrightarrow> vc_mode v \<noteq> ''''"
  by (auto simp: check_create_def Let_def split: if_splits option.splits prod.splits bool.splits)

lemma yields_PostPayments:
  assumes "check_create header doc = Inr v" "start_server g getenv pg = Inr h" "DecimalToBaseUnits (vc_amount v) 18 = Inr amt"
  shows "yields (created (allowed_candidate h v amt)) (PostPayments h header doc)"
proof -
  note mode = check_create_mode [OF assms(1)]
  let ?Q = "created (allowed_candidate h v amt)"
  have quotes: "yields ?Q (bindp (fetch_quotes rq ps) (\<lambda>results.
      case collect_quotes (vc_amountForRouting v) results no_quotes of
        Inl err \<Rightarrow> Done (Inl err)
      | Inr s \<Rightarrow>
          if \<not> qs_anySucceeded s then Done (Inr (writeError 503 ''bridge quote providers unavailable''))
          else if \<not> qs_anyAvailable s then Done (Inr (writeError 422 ''no route available for the requested payment''))
          else route_and_create v (qs_edges s) (qs_quotes s)))"
    if rq: "testnet_request h v = Inr (rq, ps)" for rq ps
  proof (rule yields_bindp [OF yields_fetch_quotes])
    show "\<forall>p \<in> set ps. quoting p"
      using testnet_request_Inr(2) [OF rq] start_server_registry [OF assms(2)] server_registry_quoting by blast
    fix rs assume "answers_ok (rq_AmountBaseUnits rq) rs"
    moreover have amt: "rq_AmountBaseUnits rq = amt" using testnet_request_Inr(1) [OF rq] assms(3) by simp
    ultimately obtain s where s: "collect_quotes (vc_amountForRouting v) rs no_quotes = Inr s" "\<forall>(n, q) \<in> set (qs_quotes s). quote_ok amt n q"
      using collect_quotes_ok [of amt rs no_quotes "vc_amountForRouting v"] by (auto simp: no_quotes_def)
    have "yields ?Q (route_and_create v (qs_edges s) (qs_quotes s))"
      by (rule created_mono [OF yields_route_and_create [OF mode s(2)]])
         (use testnet_request_Inr(3) [OF rq] amt in \<open>auto simp: allowed_candidate_def\<close>)
    then show "yields ?Q (case collect_quotes (vc_amountForRouting v) rs no_quotes of
        Inl err \<Rightarrow> Done (Inl err)
      | Inr s \<Rightarrow>
          if \<not> qs_anySucceeded s then Done (Inr (writeError 503 ''bridge quote providers unavailable''))
          else if \<not> qs_anyAvailable s then Done (Inr (writeError 422 ''no route available for the requested payment''))
          else route_and_create v (qs_edges s) (qs_quotes s))"
      by (auto simp: s(1) intro!: yields_Done)
  qed
  have "yields ?Q (route_and_create v [] [])" if "vc_mode v \<noteq> ExecutionModeTestnet"
    by (rule created_mono [OF yields_route_and_create [OF mode, of _ amt]]) (use that in \<open>auto simp: allowed_candidate_def\<close>)
  then show ?thesis
    unfolding PostPayments_def assms(1)
    by (auto dest!: testnet_request_Inl intro!: yields_tryp yields_Done quotes
        split: option.split sum.split CreateResult.split)
qed

lemma check_create_Inl: "check_create header doc = Inl resp \<Longrightarrow> hs_Status resp = 400"
  by (auto simp: check_create_def Let_def split: if_splits option.splits prod.splits bool.splits)

lemma PostPayments_result:
  assumes "start_server g getenv pg = Inr h" "run (PostPayments h header doc) is w = (Some r, w', is')"
  shows "created (\<lambda>c. \<exists>v amt. check_create header doc = Inr v \<and> DecimalToBaseUnits (vc_amount v) 18 = Inr amt \<and>
      numeric_in 18 (vc_amount v) = Some amt \<and> allowed_candidate h v amt c) r (w_db w')"
proof (cases "check_create header doc")
  case (Inl resp)
  with assms(2) check_create_Inl [OF Inl] show ?thesis by (auto simp: PostPayments_def)
next
  case (Inr v)
  from accepted_amount [OF check_create_amount [OF Inr]] obtain amt
    where "numeric_in 18 (vc_amount v) = Some amt" "DecimalToBaseUnits (vc_amount v) 18 = Inr amt" by metis
  with yieldsD [OF yields_PostPayments [OF Inr assms(1)] assms(2)] Inr show ?thesis
    unfolding created_def by blast
qed

text \<open>What a run that answered 201 has done.\<close>

lemma created_row:
  assumes "start_server g getenv pg = Inr h" "run (PostPayments h header doc) is w = (Some (Inr resp), w', is')" "hs_Status resp = 201"
  obtains c i d0 row v amt where "check_create header doc = Inr v" "DecimalToBaseUnits (vc_amount v) 18 = Inr amt"
    "numeric_in 18 (vc_amount v) = Some amt" "allowed_candidate h v amt c" "candidate_for v amt c"
    "create_tx c i d0 = Inr (Some row, w_db w')" "resp = existing_response 201 (created_payment c row)"
    "row = new_payment_row i c amt" "row \<in> set (payments w')"
proof -
  from PostPayments_result [OF assms(1,2)] assms(3) obtain c i d0 row v amt where
    v: "check_create header doc = Inr v" "DecimalToBaseUnits (vc_amount v) 18 = Inr amt" "numeric_in 18 (vc_amount v) = Some amt"
      "allowed_candidate h v amt c" and tx: "create_tx c i d0 = Inr (Some row, w_db w')" "resp = existing_response 201 (created_payment c row)"
    by (auto simp: created_def other_status_def)
  have cand: "candidate_for v amt c" using v(4) by (simp add: allowed_candidate_def)
  then have "p_Amount c = vc_amount v" by (auto simp: candidate_for_def lookup_candidate_def)
  with create_txD [OF tx(1)] v(3) have "row = new_payment_row i c amt" "row \<in> set (payments w')" by (auto simp: Let_def)
  with that v cand tx show ?thesis by blast
qed

lemma insertPaymentQuotes_row:
  assumes "insertPaymentQuotes i k pid qs t = Inr t'" "q \<in> set qs"
  shows "\<exists>r \<in> set t'. qr_payment_id r = pid \<and> qr_provider r = q_Provider q \<and> qr_selected r = q_Selected q \<and>
    numeric_in 0 (q_InputAmount q) = Some (qr_input_amount r)"
  using assms
proof (induction i k pid qs t arbitrary: t' rule: insertPaymentQuotes.induct)
  case (2 i k pid p qs t)
  from 2(2) obtain r where r: "quote_row_of i k pid p = Some r" "insertPaymentQuotes i (Suc k) pid qs (t @ [r]) = Inr t'"
    and IH: "q \<in> set qs \<Longrightarrow> ?case"
    using 2(1,3) by (auto split: option.splits if_splits)
  from insertPaymentQuotes_appends [OF r(2)] have "r \<in> set t'" by auto
  with r(1) have "?case" if "q = p" using that by (auto simp: quote_row_of_def intro!: bexI [of _ r] split: option.splits)
  with IH 2(3) show ?case by auto
qed simp

text \<open>
  C37. A payment created through the API is the one that was requested: the response points to a
  ROUTED row with the request's key, chains, asset, mode and exact amount. A testnet payment is
  within the configured ceiling, and one with a route has a selected quote of the bridge that was
  chosen, for exactly that amount.
\<close>

theorem created_as_requested:
  assumes "start_server g getenv pg = Inr h" "run (PostPayments h header doc) is w = (Some (Inr resp), w', is')" "hs_Status resp = 201"
  shows "\<exists>v row b. check_create header doc = Inr v \<and> row \<in> set (payments w') \<and>
    hs_Location resp = Some (''/payments/'' @ pr_id row) \<and> hs_Body resp = PaymentBody b \<and> pp_ID b = pr_id row \<and>
    pr_idempotency_key row = vc_key v \<and> pr_source_chain row = chainNameByValue (vc_source v) \<and>
    pr_destination_chain row = chainNameByValue (vc_dest v) \<and> pr_asset row = assetNameByValue (vc_asset v) \<and>
    DecimalToBaseUnits (vc_amount v) 18 = Inr (pr_amount row) \<and> pr_execution_mode row = vc_mode v \<and> pr_status row = ROUTED \<and>
    (vc_mode v = ExecutionModeTestnet \<longrightarrow> (\<exists>m. hd_MaxTestnetAmountWei h = Some m \<and> pr_amount row \<le> m)) \<and>
    (vc_mode v = ExecutionModeTestnet \<longrightarrow> pp_Hops b \<noteq> [] \<longrightarrow>
      (\<exists>q \<in> set (db_quotes (w_db w')). qr_payment_id q = pr_id row \<and> qr_selected q \<and>
         pr_bridge_provider row = Some (qr_provider q) \<and> qr_input_amount q = pr_amount row))"
proof -
  obtain c i d0 row v amt where
    v: "check_create header doc = Inr v" "DecimalToBaseUnits (vc_amount v) 18 = Inr amt" "numeric_in 18 (vc_amount v) = Some amt"
      "allowed_candidate h v amt c" and cand: "candidate_for v amt c"
    and tx: "create_tx c i d0 = Inr (Some row, w_db w')" "resp = existing_response 201 (created_payment c row)"
    by (rule created_row [OF assms])
  have ceiling: "\<exists>m. hd_MaxTestnetAmountWei h = Some m \<and> amt \<le> m" if "vc_mode v = ExecutionModeTestnet"
    using v(4) that assms(1) by (auto simp: allowed_candidate_def start_server_def bindr_def split: if_splits sum.splits)
  from cand have c: "p_IdempotencyKey c = vc_key v" "p_SourceChain c = chainNameByValue (vc_source v)"
      "p_DestinationChain c = chainNameByValue (vc_dest v)" "p_Asset c = assetNameByValue (vc_asset v)" "p_Amount c = vc_amount v"
      "p_ExecutionMode c = vc_mode v"
    by (auto simp: candidate_for_def lookup_candidate_def)
  from create_txD [OF tx(1)] v(3) c(5) obtain quotes where
    row: "row = new_payment_row i c amt" "row \<in> set (payments w')" "insertPaymentQuotes i 2 (pr_id row) (p_Quotes c) (db_quotes d0) = Inr quotes"
      "db_quotes (w_db w') = quotes"
    by (auto simp: Let_def)
  have sel: "\<exists>q \<in> set (db_quotes (w_db w')). qr_payment_id q = pr_id row \<and> qr_selected q \<and>
         pr_bridge_provider row = Some (qr_provider q) \<and> qr_input_amount q = pr_amount row"
    if "vc_mode v = ExecutionModeTestnet" "p_Hops c \<noteq> []"
  proof -
    from cand that obtain q where q: "q \<in> set (p_Quotes c)" "q_Selected q" "p_BridgeProvider c = Some (q_Provider q)" "q_InputAmount q = Int_String amt"
      unfolding candidate_for_def by blast
    from insertPaymentQuotes_row [OF row(3) q(1)] q(2-4) row(4) show ?thesis by (auto simp: row(1) new_payment_row_def)
  qed
  show ?thesis
    by (rule exI [of _ v], rule exI [of _ row], rule exI [of _ "toPaymentResponse (created_payment c row) None"])
       (use v(1,2) c row(1,2) sel ceiling tx(2) in \<open>auto simp: existing_response_def created_payment_def toPaymentResponse_def new_payment_row_def\<close>)
qed

text \<open>A request whose key is taken by an equal one is answered from the row alone.\<close>

lemma run_PostPayments_replay:
  assumes "check_create header doc = Inr v" "sys_inv e w" "r \<in> set (payments w)" "pr_idempotency_key r = vc_key v"
    "same_request (lookup_candidate v) r" "numeric_equal 0 (vc_amount v) \<noteq> None" "ok_env i" "ok_env j"
  shows "\<exists>resp. run (PostPayments h header doc) (i # j # js) w = (Some (Inr resp), w, js) \<and> hs_Status resp = 200 \<and>
    hs_Location resp = Some (''/payments/'' @ pr_id r)"
proof -
  have f: "run (findByIdempotencyKey (lookup_candidate v)) (i # j # js) w = (Some (Inr (Some (scan_payment r, True))), w, j # js)"
    using run_find_existing [OF assms(7,2,3), of "lookup_candidate v" "j # js"] assms(4,5,6) by (simp add: lookup_candidate_def)
  have "run (hopsForPayment (pr_id r)) (j # js) w = (Some (Inr (hops_of (pr_id r) (w_db w))), w, js)"
    using assms(8) uuid_in_idem [OF assms(2,3)]
    by (simp add: hopsForPayment_def wrapp_def run_bindp run_query_ok wrap_err_def uuid_arg_def)
  then show ?thesis
    by (simp add: PostPayments_def assms(1) run_tryp LookupByIdempotencyKey_def f resolve_existing_def existing_response_def scan_payment_def)
qed

text \<open>
  C38. Retrying a request that created a payment is safe and cheap: sent again at any later time to any
  server, it is answered 200 with the same location by two reads of the database. No bridge is asked
  for a quote, the routing service is not called, and nothing changes.
\<close>

theorem retry_without_router:
  assumes "executor_ok e" "reach e (w, ts)" "start_server g getenv pg = Inr h"
    "run (PostPayments h header doc) is w = (Some (Inr resp), w', is')" "hs_Status resp = 201"
    "(sys_step (entry e) lock_loss)\<^sup>*\<^sup>* (w', ts) (w'', ts'')" "ok_env i" "ok_env j"
  shows "\<exists>resp'. run (PostPayments h' header doc) (i # j # js) w'' = (Some (Inr resp'), w'', js) \<and> hs_Status resp' = 200 \<and>
    hs_Location resp' = hs_Location resp"
proof -
  have inv: "sys_inv e w" using reach_inv [OF assms(1,2)] by simp
  note sys = run_in_system [OF assms(1,2) safe_PostPayments [OF inv] assms(4,6)]
  obtain c n d0 row v amt where
    v: "check_create header doc = Inr v" "numeric_in 18 (vc_amount v) = Some amt" "candidate_for v amt c"
    and tx: "create_tx c n d0 = Inr (Some row, w_db w')" "resp = existing_response 201 (created_payment c row)"
    and row: "row = new_payment_row n c amt" "row \<in> set (payments w')"
    by (rule created_row [OF assms(3-5)])
  from evolves_payment [OF sys(4) row(2)] obtain r where r: "r \<in> set (payments w'')" "pay_le row r" by blast
  have eq: "numeric_equal amt (vc_amount v) = Some True"
    using numeric_equal_stored [OF v(2)] amountPattern_parts(2) [OF check_create_amount(1) [OF v(1)]] by simp
  then have ne: "numeric_equal 0 (vc_amount v) \<noteq> None" by (auto simp: numeric_equal_def Let_def)
  have same: "same_request (lookup_candidate v) r" "pr_idempotency_key r = vc_key v" "pr_id r = pr_id row"
    using r(2) row(1) v(3) eq check_create_mode [OF v(1)]
    by (auto simp: pay_le_def new_payment_row_def candidate_for_def lookup_candidate_def same_request_def normalizeExecutionMode_def)
  from run_PostPayments_replay [OF v(1) sys(3) r(1) same(2,1) ne assms(7,8), of h' js] same(3) show ?thesis
    by (simp add: tx(2) existing_response_def created_payment_def)
qed

section \<open>A request\<close>

text \<open>
  A testnet request for 1 ETH from Ethereum to Base against the server's own registry: Across answers
  with a quote, Relay is unreachable, and the routing service chooses Across.
\<close>

definition demo_body :: json where
  "demo_body = JObj [(''source_chain'', JStr ''ethereum''), (''destination_chain'', JStr ''Base''), (''asset'', JStr ''ETH''),
     (''amount'', JStr ''1''), (''execution_mode'', JStr ''testnet'')]"

definition demo_valid :: valid_create where
  "demo_valid = \<lparr>vc_key = ''k9'', vc_source = CHAIN_ETHEREUM, vc_dest = CHAIN_BASE, vc_asset = ASSET_ETH, vc_assetKey = ''eth'',
     vc_amount = ''1'', vc_mode = ExecutionModeTestnet, vc_amountForRouting = fst (ParseFloat ''1'')\<rparr>"

definition demo_server_getenv :: getenv where
  "demo_server_getenv = demo_getenv(''MAX_TESTNET_AMOUNT_WEI'' := ''1000000000000000000'')"

definition demo_server_across :: AcrossProvider where
  "demo_server_across = \<lparr>av_Client = across_client demo_server_getenv, av_QuoteTTL = 120000000, av_WalletAddress = 0, av_SpokePoolAddress = 0,
     av_WETHOrigin = 0, av_WETHDestination = 0, av_OriginChainID = 0\<rparr>"

definition demo_server_relay :: RelayProvider where
  "demo_server_relay = \<lparr>rv_Client = relay_client demo_server_getenv, rv_WalletAddress = 0, rv_QuoteTTL = 120000000\<rparr>"

definition demo_route_key :: RouteKey where
  "demo_route_key = \<lparr>rk_SourceChainID = 11155111, rk_DestinationChainID = 84532, rk_Asset = ''WETH''\<rparr>"

definition demo_registry :: "env Registry" where
  "demo_registry = Register (Register NewRegistry demo_route_key (across_provider demo_server_across)) demo_route_key
     (relay_provider demo_geth demo_server_relay)"

definition demo_handler :: Handler where
  "demo_handler = \<lparr>hd_BlockchainEnv = ''testnet'', hd_MaxTestnetAmountWei = Some (10 ^ 18), hd_QuoteRegistry = Some demo_registry, hd_Pg = demo_pg\<rparr>"

definition demo_hop :: RouteHop where
  "demo_hop = \<lparr>rh_FromChain = CHAIN_ETHEREUM, rh_ToChain = CHAIN_BASE, rh_BridgeName = ''across'', rh_Fee = 0, rh_LatencyMs = 0,
     rh_Liquidity = 0, rh_Reliability = 0\<rparr>"

definition demo_front :: env where
  "demo_front = (demo_env 0)\<lparr>e_http := (\<lambda>r. if hr_Method r = ''GET'' then HttpReply 200 [] (Some demo_fees) else HttpFail (Err ''refused'')),
     e_route := (\<lambda>_. Inr \<lparr>fs_RouteFound = True, fs_Hops = [demo_hop], fs_TotalFee = 0\<rparr>)\<rparr>"

lemma demo_server_handler: "start_server demo_geth demo_server_getenv demo_pg = Inr demo_handler"
  by (simp add: start_server_def server_registry_def demo_server_getenv_def demo_getenv_def envDuration_def envBigInt_def bindr_def Let_def demo_registry_def
      demo_route_key_def demo_server_across_def demo_server_relay_def micros_def demo_handler_def SetString10_def parse_digits_def nat_of_digits_def digit_val_def
      is_digit_def fun_eq_iff)

lemma float_bits_1: "float_bits 1 1 = 1023 * 2 ^ 52"
proof -
  have "magnitude_exponent 1 1 = 0" by (simp add: magnitude_exponent_def Let_def)
  moreover have "scaled 1 1 (- 52) = 2 ^ 52" by (simp add: scaled_def round_even_def)
  ultimately show ?thesis by (simp add: float_bits_def Let_def)
qed

lemma ParseFloat_1: "snd (ParseFloat ''1'')"
proof -
  have "parse_mantissa ''1'' = Some (1, 0)" by (simp add: parse_mantissa_def nat_of_digits_def digit_val_def is_digit_def)
  moreover have "exponent_at ''1'' = None" by (simp add: exponent_at_def)
  ultimately show ?thesis by (simp add: ParseFloat_def parse_exponent_def Let_def float_bits_1 [simplified])
qed

lemma ToLower_create_keys:
  "ToLower ''source_chain'' = ''source_chain''" "ToLower ''destination_chain'' = ''destination_chain''" "ToLower ''asset'' = ''asset''"
  "ToLower ''execution_mode'' = ''execution_mode''"
  by (code_simp, code_simp, code_simp, code_simp)

lemma TrimSpace_k9: "TrimSpace ''k9'' = ''k9''"
  by code_simp

lemma lower_key_names: "lower_key ''ethereum'' = ''ethereum''" "lower_key ''Base'' = ''base''" "lower_key ''ETH'' = ''eth''"
  by (code_simp, code_simp, code_simp)

lemma demo_check: "check_create ''k9'' (Some demo_body) = Inr demo_valid"
  using ParseFloat_1
  by (cases "ParseFloat ''1''")
     (simp add: check_create_def TrimSpace_k9 demo_body_def dec_createPaymentRequest_def create_request_zero_def fld_def ToLower_create_keys
      ToLower_relay_keys lower_key_names chainByName_def assetByName_def amountPattern_def digits_between_def is_digit_def isZeroAmount_def
      demo_valid_def Let_def del: lower_key.simps)

definition demo_eth_request :: Request where
  "demo_eth_request = \<lparr>rq_SourceChainID = 11155111, rq_DestinationChainID = 84532, rq_Asset = ''WETH'', rq_AmountBaseUnits = 10 ^ 18\<rparr>"

lemma demo_eth_amount: "DecimalToBaseUnits ''1'' 18 = Inr (10 ^ 18)" "numeric_in 18 ''1'' = Some (10 ^ 18)"
  "numeric_equal 0 ''1'' = Some False"
  by (simp_all add: DecimalToBaseUnits_def numeric_in_def numeric_equal_def numeric_magnitude_def int_part_def frac_part_def SetString10_def
      Repeat_def parse_digits_def Let_def is_digit_def digit_val_def nat_of_digits_def replicate_numeral_step)

theorem accepted_request_exact_witness:
  "check_create ''k9'' (Some demo_body) = Inr demo_valid \<and> vc_amount demo_valid = ''1'' \<and> vc_source demo_valid \<noteq> vc_dest demo_valid \<and>
   numeric_in 18 ''1'' = Some (10 ^ 18) \<and> numeric_fits (10 ^ 18) \<and> of_int (10 ^ 18) = decimal_value ''1'' * 10 ^ 18"
proof -
  have "vc_amount demo_valid = ''1''" by (simp add: demo_valid_def)
  with accepted_request_exact [OF demo_check] demo_check demo_eth_amount(2) show ?thesis by auto
qed

lemma demo_testnet_request:
  "testnet_request demo_handler demo_valid = Inr (demo_eth_request, [across_provider demo_server_across, relay_provider demo_geth demo_server_relay])"
  by (simp add: testnet_request_def demo_handler_def demo_valid_def testnetChainIDByChain_def bridgedAssetSymbol_def demo_eth_amount
      demo_eth_request_def demo_registry_def ProvidersFor_Register demo_route_key_def)
     (simp add: ProvidersFor_def NewRegistry_def)

lemma demo_across_answer:
  "\<exists>q. pv_GetQuote (across_provider demo_server_across) demo_front demo_eth_request = Inr q \<and> b_Available q \<and>
     b_OutputAmountBaseUnits q = Some 900 \<and> b_EstimatedFillTimeSec q = 2"
  by (simp add: across_provider_def across_GetQuote_def demo_eth_request_def wethAddressByChainID_def SuggestedFees_def across_get_def http_result_def
      demo_front_def across_request_def demo_fees_def dec_SuggestedFeesResponse_def dec_QuoteTokenInfo_def fees_zero_def token_zero_def fld_def
      ToLower_fees_keys ToLower_across_keys ToLower_keys demo_literals across_quote_of_def Let_def)

lemma demo_relay_answer:
  "\<exists>e. pv_GetQuote (relay_provider demo_geth demo_server_relay) demo_front demo_eth_request = Inl e"
  by (simp add: relay_provider_def relay_GetQuote_def demo_eth_request_def wethAddressByChainID_def relay_post_def http_result_def demo_front_def
      isNoRoutesFound_def Let_def)

lemma demo_front_sel: "e_db demo_front = NoFault" "new_uuid demo_front n = demo_id n" "e_order demo_front = (\<lambda>n. n)"
  "e_route demo_front rq = Inr \<lparr>fs_RouteFound = True, fs_Hops = [demo_hop], fs_TotalFee = 0\<rparr>"
  by (simp_all add: demo_front_def demo_env_def env0_def new_uuid_def demo_id_def)

lemma demo_fetch:
  assumes "pv_GetQuote (across_provider demo_server_across) demo_front demo_eth_request = Inr q"
    "pv_GetQuote (relay_provider demo_geth demo_server_relay) demo_front demo_eth_request = Inl e"
  shows "\<exists>w1. run (fetch_quotes demo_eth_request [across_provider demo_server_across, relay_provider demo_geth demo_server_relay])
      (demo_front # demo_front # is) w = (Some [(''across'', Inr q), (''relay'', Inl e)], w1, is) \<and> w_db w1 = w_db w"
  by (simp add: fetch_quotes_def fetch_quote_def get_quote_def run_bindp run_Inc call_out_def Observe_def Let_def assms)
     (simp add: across_provider_def relay_provider_def)

lemma demo_create:
  assumes "w_db w = demo_db [] [] [] 7 [] 0" "quote_ok (10 ^ 18) ''across'' q" "b_OutputAmountBaseUnits q = Some 900"
    "b_FeeBaseUnits q = Some (10 ^ 18 - 900)" "b_EstimatedFillTimeSec q = 2"
  shows "\<exists>resp w'. run (create_routed demo_valid [(''across'', q)] \<lparr>fs_RouteFound = True, fs_Hops = [demo_hop], fs_TotalFee = 0\<rparr>)
    (demo_front # demo_front # demo_front # is) w = (Some (Inr resp), w', is) \<and> hs_Status resp = 201"
  using assms
  by (simp add: create_routed_def demo_hop_def hop_of_def enumerate_eq_zip Let_def demo_valid_def lookup_candidate_def run_bindp run_Inc
      Observe_def ask_env_def create_payment_def run_tryp CreateOrGetPayment_def findByIdempotencyKey_def wrapp_def wrap_err_def sql_query_def
      run_sql sql_reply_def sql_effect_def demo_front_sel shuffle_def demo_eth_amount demo_db_def create_tx_def new_payment_row_def
      numeric_fits_def normalizeExecutionMode_def int4_fits_def quote_row_of_def stored_quote_def big_text_def quote_ok_def
      sql_select_def)

lemma demo_post:
  "\<exists>resp w'. run (PostPayments demo_handler ''k9'' (Some demo_body)) (replicate 7 demo_front) demo_seeded = (Some (Inr resp), w', []) \<and>
     hs_Status resp = 201"
proof -
  obtain q where q: "pv_GetQuote (across_provider demo_server_across) demo_front demo_eth_request = Inr q" "b_Available q"
    "b_OutputAmountBaseUnits q = Some 900" "b_EstimatedFillTimeSec q = 2" using demo_across_answer by blast
  obtain e where e: "pv_GetQuote (relay_provider demo_geth demo_server_relay) demo_front demo_eth_request = Inl e"
    using demo_relay_answer by blast
  have ok: "quote_ok (10 ^ 18) ''across'' q" "b_FeeBaseUnits q = Some (10 ^ 18 - 900)"
    using across.available_quote_ok [of demo_server_across demo_front demo_eth_request q] across.amounts [of demo_server_across demo_front demo_eth_request q] q
    by (simp_all add: across_provider_def demo_eth_request_def)
  have db: "w_db demo_seeded = demo_db [] [] [] 7 [] 0" using demo_seeded_eval by (metis world.select_convs(1))
  have look: "run (LookupByIdempotencyKey (lookup_candidate demo_valid)) (demo_front # is) demo_seeded = (Some (Inr None), demo_seeded, is)" for "is"
    by (simp add: LookupByIdempotencyKey_def findByIdempotencyKey_def run_tryp wrapp_def wrap_err_def run_bindp run_query_ok demo_front_sel
        lookup_candidate_def demo_valid_def demo_eth_amount db demo_db_def sql_select_def Let_def)
  let ?four = "demo_front # demo_front # demo_front # [demo_front]"
  obtain w1 where w1: "run (fetch_quotes demo_eth_request [across_provider demo_server_across, relay_provider demo_geth demo_server_relay])
      (demo_front # demo_front # ?four) demo_seeded = (Some [(''across'', Inr q), (''relay'', Inl e)], w1, ?four)"
      "w_db w1 = demo_db [] [] [] 7 [] 0"
    using demo_fetch [OF q(1) e] db by metis
  obtain s where s: "collect_quotes (vc_amountForRouting demo_valid) [(''across'', Inr q), (''relay'', Inl e)] no_quotes = Inr s"
      "qs_anySucceeded s" "qs_anyAvailable s" "qs_quotes s = [(''across'', q)]"
    using q(2) ok by (simp add: add_quote_def no_quotes_def Let_def)
  have "\<exists>resp w'. run (route_and_create demo_valid (qs_edges s) (qs_quotes s)) ?four w1 = (Some (Inr resp), w', []) \<and> hs_Status resp = 201"
    unfolding route_and_create_def Let_def
    by (simp add: run_bindp run_Inc Observe_def call_out_def demo_front_sel s(4) del: ex_simps)
       (rule demo_create, use w1(2) ok q in simp_all)
  moreover have "vc_mode demo_valid = ExecutionModeTestnet" by (simp add: demo_valid_def)
  moreover have "replicate 7 demo_front = demo_front # demo_front # demo_front # ?four" by (simp add: replicate_numeral_step)
  ultimately show ?thesis
    by (simp add: PostPayments_def demo_check demo_testnet_request run_tryp look run_bindp w1(1) s del: collect_quotes.simps)
qed

theorem created_as_requested_witness:
  "\<exists>resp w'. run (PostPayments demo_handler ''k9'' (Some demo_body)) (replicate 7 demo_front) demo_seeded = (Some (Inr resp), w', []) \<and>
     (\<exists>row \<in> set (payments w'). pr_idempotency_key row = ''k9'' \<and> pr_amount row = 10 ^ 18 \<and> pr_execution_mode row = ExecutionModeTestnet)"
proof -
  obtain resp w' where run: "run (PostPayments demo_handler ''k9'' (Some demo_body)) (replicate 7 demo_front) demo_seeded = (Some (Inr resp), w', [])"
    "hs_Status resp = 201" using demo_post by blast
  from created_as_requested [OF demo_server_handler run] demo_check demo_eth_amount(1) run(1) show ?thesis
    by (auto simp: demo_valid_def)
qed

theorem retry_without_router_witness:
  "\<exists>resp resp' w. run_result (PostPayments demo_handler ''k9'' (Some demo_body)) (replicate 7 demo_front) demo_seeded = Some (Inr resp) \<and>
     run (PostPayments demo_handler ''k9'' (Some demo_body)) [demo_env 5, demo_env 6] w = (Some (Inr resp'), w, []) \<and>
     hs_Location resp' = hs_Location resp"
proof -
  obtain resp w' where run: "run (PostPayments demo_handler ''k9'' (Some demo_body)) (replicate 7 demo_front) demo_seeded = (Some (Inr resp), w', [])"
    "hs_Status resp = 201" using demo_post by blast
  from retry_without_router [OF demo_executor_ok demo_seeded_reach demo_server_handler run rtranclp.rtrancl_refl demo_env_sel(2) demo_env_sel(2),
      of demo_handler 5 6 "[]"] run(1) show ?thesis by (auto simp: run_result_def)
qed

end
