(* ===== verification/Testnet_Behaviour.thy ===== *)
theory Testnet_Behaviour
  imports Executor_Behaviour Store_Behaviour
begin

text \<open>
  The successful path of a testnet payment through \<open>HandleRoutedPayment\<close> and \<open>ExecuteTestnetPayment\<close>: when every
  check passes and the database, the bridge and the chain answer, one message takes the payment from
  ROUTED to SUBMITTED with one nonce and one transaction. And the order of its steps on every path, faults included:
  nothing is spent before all checks have passed.
\<close>

lemma run_MarkSubmitted_row:
  assumes "ok_env i" "distinct (map pr_id (payments w))" "r \<in> set (payments w)" "uuid_in (pr_id r) = Some (pr_id r)" "pr_status r = PROCESSING"
  shows "run (MarkSubmitted (pr_id r)) (i # is) w = (Some (Inr True),
       w\<lparr>w_db := (w_db w)\<lparr>db_payments := sql_update (\<lambda>q. pr_id q = pr_id r \<and> pr_status q = PROCESSING)
          (\<lambda>q. q\<lparr>pr_status := SUBMITTED, pr_updated_at := e_now i\<rparr>) (payments w)\<rparr>\<rparr>, is)"
  using assms(5) by (simp add: MarkSubmitted_def run_tryp run_transition_row [OF assms(1-4)])

lemma run_update_execution:
  assumes "ok_env i" "uuid_in xid = Some xid"
  shows "run (wrapp s (sql (update_execution xid upd))) (i # is) w =
    (Some (Inr ()), w\<lparr>w_db := (w_db w)\<lparr>db_executions := sql_update (\<lambda>x. x_ID x = xid) (upd (e_now i)) (executions w)\<rparr>\<rparr>, is)"
  using assms by (simp add: wrapp_def run_bindp run_sql_ok update_execution_def uuid_arg_def sql_effect_def wrap_err_def)

text \<open>Signing, persisting and broadcasting; the answers in the order of the calls.\<close>

lemma run_signAndBroadcastFresh:
  assumes geth: "geth_ok (ex_Geth e)" and x: "uuid_in (x_ID x) = Some (x_ID x)" "x_PaymentID x = pr_id r"
    and r: "distinct (map pr_id (payments w))" "r \<in> set (payments w)" "uuid_in (pr_id r) = Some (pr_id r)" "pr_status r = PROCESSING"
    and gas: "e_gas_price i2 = Inr gp" "gl = (case e_gas_limit i3 of Inl _ \<Rightarrow> fallbackGasLimit | Inr g \<Rightarrow> g)"
    and sign: "SignTx (ex_Geth e) (ex_Wallet e) (unsigned_tx x envelope gl gp) (te_ChainID envelope) = Inr stx"
      "g_MarshalBinary (ex_Geth e) stx = Inr raw"
    and db: "ok_env i4" "ok_env i7" "ok_env i8"
    and chain: "e_lookup i5 = Inl err" "err_is err NotFound" "e_send i6 = Inr ()"
  shows "\<exists>m. run (signAndBroadcastFresh e x envelope q label) (i2 # i3 # i4 # i5 # i6 # i7 # i8 # is) w = (Some (Inr ()),
    w\<lparr>w_met := m, w_trace := EvSend stx (Inr ()) # EvLookup (g_Hash (ex_Geth e) stx) (Inl err) # w_trace w,
      w_db := (w_db w)\<lparr>
        db_executions := sql_update (\<lambda>y. x_ID y = x_ID x) (\<lambda>y. y\<lparr>x_BroadcastAt := Some (e_now i7), x_UpdatedAt := e_now i7\<rparr>)
          (sql_update (\<lambda>y. x_ID y = x_ID x) (\<lambda>y. y\<lparr>x_RawSignedTx := Some raw,
             x_SignedTxHash := Some (g_HashHex (ex_Geth e) (g_Hash (ex_Geth e) stx)),
             x_ProviderReferenceID := extractProviderReferenceID q, x_UpdatedAt := e_now i4\<rparr>) (executions w)),
        db_payments := sql_update (\<lambda>p. pr_id p = pr_id r \<and> pr_status p = PROCESSING)
          (\<lambda>p. p\<lparr>pr_status := SUBMITTED, pr_updated_at := e_now i8\<rparr>) (payments w)\<rparr>\<rparr>, is)"
proof -
  have g: "g_UnmarshalBinary (ex_Geth e) raw = Inr stx" "g_HexToHash (ex_Geth e) (g_HashHex (ex_Geth e) h) = h" for h
    using geth sign(2) by (auto simp: geth_ok_def)
  note sub = run_MarkSubmitted_row [OF db(3) _ _ r(3,4)]
  show ?thesis
    using r(1,2)
    by (cases w) (simp add: x(2) signAndBroadcastFresh_def ask_env_def run_tryp run_bindp gas(1) sign g Let_def PersistSignedExecution_def
        run_update_execution [OF db(1) x(1)] broadcastWithRecovery_def call_out_def chain run_Inc mark_broadcast_submitted_def
        MarkExecutionBroadcast_def run_update_execution [OF db(2) x(1)] sub flip: gas(2))
qed

text \<open>The checks of a fresh quote, and what the outside has to answer.\<close>

definition quote_accepted :: "Executor \<Rightarrow> string \<Rightarrow> Quote \<Rightarrow> int \<Rightarrow> BQuote \<Rightarrow> TxEnvelope \<Rightarrow> bool" where
  "quote_accepted e pid quoteRow amt q envelope \<longleftrightarrow> b_Available q \<and>
     (\<exists>fee. b_FeeBaseUnits q = Some fee \<and> \<not> exceedsSlippageTolerance (q_FeeAmount quoteRow) fee (ex_MaxFeeSlippageBps e)) \<and>
     \<not> exceeds_guardrail e amt \<and> buildValidatedEnvelope e pid quoteRow q = Inr envelope"

definition answers_well :: "world \<Rightarrow> env Provider \<Rightarrow> Quote \<Rightarrow> int \<Rightarrow> BQuote \<Rightarrow> int \<Rightarrow> 64 word \<Rightarrow> env \<Rightarrow> bool" where
  "answers_well w pv quoteRow amt q gp gl i \<longleftrightarrow> ok_env i \<and> e_now i \<le> q_ExpiresAt quoteRow \<and>
     new_uuid i 0 \<notin> x_ID ` set (executions w) \<and> pv_GetQuote pv i (quote_request quoteRow amt) = Inr q \<and>
     e_gas_price i = Inr gp \<and> e_gas_limit i = Inr gl \<and> e_lookup i = Inl NotFound \<and> e_send i = Inr ()"

text \<open>What the payment, its execution and the chain look like afterwards; \<open>k\<close> execution rows and the nonces \<open>ns\<close>.\<close>

definition submitted_once ::
    "Executor \<Rightarrow> string \<Rightarrow> int \<Rightarrow> SignedTx \<Rightarrow> bytes \<Rightarrow> nat \<Rightarrow> (string \<rightharpoonup> int) \<Rightarrow> event list \<Rightarrow> world \<Rightarrow> bool" where
  "submitted_once e pid n stx raw k ns evs w \<longleftrightarrow>
     (\<exists>r \<in> set (payments w). pr_id r = pid \<and> pr_status r = SUBMITTED) \<and>
     (\<exists>x \<in> set (executions w). x_PaymentID x = pid \<and> x_Nonce x = n \<and> x_RawSignedTx x = Some raw \<and> x_BroadcastAt x \<noteq> None) \<and>
     length (executions w) = k \<and> db_wallet_nonces (w_db w) = ns \<and>
     w_trace w = EvSend stx (Inr ()) # EvLookup (g_Hash (ex_Geth e) stx) (Inl NotFound) # evs"

lemma submitted_once_met [simp]: "submitted_once e pid n stx raw k ns evs (w\<lparr>w_met := m\<rparr>) = submitted_once e pid n stx raw k ns evs w"
  by (simp add: submitted_once_def)

lemma run_signed_submits:
  assumes geth: "geth_ok (ex_Geth e)" and x: "x \<in> set (executions w)" "uuid_in (x_ID x) = Some (x_ID x)" "x_PaymentID x = pr_id r"
    and r: "distinct (map pr_id (payments w))" "r \<in> set (payments w)" "uuid_in (pr_id r) = Some (pr_id r)" "pr_status r = PROCESSING"
    and sign: "SignTx (ex_Geth e) (ex_Wallet e) (unsigned_tx x envelope gl gp) (te_ChainID envelope) = Inr stx"
      "g_MarshalBinary (ex_Geth e) stx = Inr raw"
    and env: "list_all (answers_well v pv quoteRow amt q gp gl) [i2, i3, i4, i5, i6, i7, i8]"
  shows "\<exists>w'. run (run_signed e x envelope q label) (i2 # i3 # i4 # i5 # i6 # i7 # i8 # is) w = (Some (Inr ()), w', is) \<and>
    submitted_once e (pr_id r) (x_Nonce x) stx raw (length (executions w)) (db_wallet_nonces (w_db w)) (w_trace w) w'"
proof -
  let ?u4 = "\<lambda>y. y\<lparr>x_RawSignedTx := Some raw, x_SignedTxHash := Some (g_HashHex (ex_Geth e) (g_Hash (ex_Geth e) stx)),
             x_ProviderReferenceID := extractProviderReferenceID q, x_UpdatedAt := e_now i4\<rparr>"
  let ?u7 = "\<lambda>y. y\<lparr>x_BroadcastAt := Some (e_now i7), x_UpdatedAt := e_now i7\<rparr>"
  let ?u8 = "\<lambda>p. p\<lparr>pr_status := SUBMITTED, pr_updated_at := e_now i8\<rparr>"
  have "\<exists>w'. run (signAndBroadcastFresh e x envelope q label) (i2 # i3 # i4 # i5 # i6 # i7 # i8 # is) w = (Some (Inr ()), w', is) \<and>
      executions w' = sql_update (\<lambda>y. x_ID y = x_ID x) ?u7 (sql_update (\<lambda>y. x_ID y = x_ID x) ?u4 (executions w)) \<and>
      payments w' = sql_update (\<lambda>p. pr_id p = pr_id r \<and> pr_status p = PROCESSING) ?u8 (payments w) \<and>
      db_wallet_nonces (w_db w') = db_wallet_nonces (w_db w) \<and>
      w_trace w' = EvSend stx (Inr ()) # EvLookup (g_Hash (ex_Geth e) stx) (Inl NotFound) # w_trace w"
    using run_signAndBroadcastFresh [OF geth x(2,3) r, of i2 gp gl i3 envelope stx raw i4 i7 i8 i5 NotFound i6 q label "is"] sign env
    by (auto simp: answers_well_def)
  then obtain w' where w': "run (signAndBroadcastFresh e x envelope q label) (i2 # i3 # i4 # i5 # i6 # i7 # i8 # is) w = (Some (Inr ()), w', is)"
      "executions w' = sql_update (\<lambda>y. x_ID y = x_ID x) ?u7 (sql_update (\<lambda>y. x_ID y = x_ID x) ?u4 (executions w))"
      "payments w' = sql_update (\<lambda>p. pr_id p = pr_id r \<and> pr_status p = PROCESSING) ?u8 (payments w)"
      "db_wallet_nonces (w_db w') = db_wallet_nonces (w_db w)"
      "w_trace w' = EvSend stx (Inr ()) # EvLookup (g_Hash (ex_Geth e) stx) (Inl NotFound) # w_trace w"
    by blast
  have "?u4 x \<in> set (sql_update (\<lambda>y. x_ID y = x_ID x) ?u4 (executions w))"
    by (rule in_sql_update_key [OF x(1)]) simp
  then have "?u7 (?u4 x) \<in> set (executions w')"
    unfolding w'(2) by (rule in_sql_update_key) simp
  moreover have "?u8 r \<in> set (payments w')"
    unfolding w'(3) by (rule in_sql_update_key [OF r(2)]) (simp add: r(4))
  ultimately have "submitted_once e (pr_id r) (x_Nonce x) stx raw (length (executions w)) (db_wallet_nonces (w_db w)) (w_trace w) (w'\<lparr>w_met := m\<rparr>)" for m
    unfolding submitted_once_def using w'(2,4,5) x(3)
    by (intro conjI bexI [of _ "?u8 r"] bexI [of _ "?u7 (?u4 x)"]) simp_all
  then show ?thesis
    using w'(1) by (simp add: run_signed_def run_bindp Observe_def Inc_def)
qed

lemma run_execute_fresh:
  assumes inv: "sys_inv e w" and geth: "geth_ok (ex_Geth e)"
    and r: "r \<in> set (payments w)" "pr_status r = PROCESSING" "pr_id r \<notin> x_PaymentID ` set (executions w)"
    and n: "db_wallet_nonces (w_db w) (wallet_hex e) = Some n" "n + 1 < 2 ^ 63"
    and q: "quote_accepted e (pr_id r) quoteRow amt q envelope"
    and sign: "\<And>x. x_Nonce x = n \<Longrightarrow> SignTx (ex_Geth e) (ex_Wallet e) (unsigned_tx x envelope gl gp) (te_ChainID envelope) = Inr stx"
      "g_MarshalBinary (ex_Geth e) stx = Inr raw"
    and env: "list_all (answers_well w pv quoteRow amt q gp gl) [i1, i2, i3, i4, i5, i6, i7, i8]"
  shows "\<exists>w'. run (execute_fresh e (pr_id r) quoteRow amt q) (i1 # i2 # i3 # i4 # i5 # i6 # i7 # i8 # is) w = (Some (Inr ()), w', is) \<and>
    submitted_once e (pr_id r) n stx raw (Suc (length (executions w))) ((db_wallet_nonces (w_db w))(wallet_hex e \<mapsto> n + 1)) (w_trace w) w'"
proof -
  define p where "p = \<lparr>cp_PaymentID = pr_id r, cp_WalletAddress = g_AddressHex (ex_Geth e) (wl_Address (ex_Wallet e)),
    cp_BridgeProvider = q_Provider quoteRow, cp_OriginChainID = ex_OriginChainID e, cp_DestinationChainID = ex_DestChainID e\<rparr>"
  define x where "x = new_execution i1 p (pr_id r) n"
  define w1 where "w1 = w\<lparr>w_db := (w_db w)\<lparr>db_wallet_nonces := (db_wallet_nonces (w_db w))(wallet_hex e \<mapsto> n + 1),
                               db_executions := executions w @ [x]\<rparr>\<rparr>"
  have uuid: "uuid_in (pr_id r) = Some (pr_id r)" by (rule uuid_in_idem [OF inv r(1)])
  have x: "x_ID x = new_uuid i1 0" "x_PaymentID x = pr_id r" "x_Nonce x = n" "x\<lparr>x_PaymentID := pr_id r\<rparr> = x"
    by (simp_all add: x_def new_execution_def)
  have create: "run (TryCreateExecution p) (i1 # is) w = (Some (Inr (Some x)), w1, is)" for "is"
    using try_create_execution_result [OF inv, of i1 p n "pr_id r" "is"] env r n uuid x(4)
    by (simp add: answers_well_def wallet_hex_def p_def w1_def flip: x_def [unfolded p_def])
  let ?m = "\<lambda>l. w1\<lparr>w_met := (w_met w1)((''ExecutionAttempts'', [l]) := Suc (w_met w1 (''ExecutionAttempts'', [l])))\<rparr>"
  have "\<exists>w'. run (run_signed e x envelope q l) (i2 # i3 # i4 # i5 # i6 # i7 # i8 # is) (?m l) = (Some (Inr ()), w', is) \<and>
    submitted_once e (pr_id r) n stx raw (Suc (length (executions w))) ((db_wallet_nonces (w_db w))(wallet_hex e \<mapsto> n + 1)) (w_trace w) w'" for l
    using run_signed_submits [OF geth, of x "?m l" r envelope gl gp stx raw w pv quoteRow amt q i2 i3 i4 i5 i6 i7 i8 l "is"]
      x r uuid env sign(1) [OF x(3)] sign(2) payment_keys [OF inv] by (simp add: w1_def)
  then show ?thesis
    using q create [unfolded p_def] by (auto simp: quote_accepted_def execute_fresh_def Let_def run_tryp run_bindp Inc_def)
qed

text \<open>The reads before it: the selected quote, the clock, the payment's amount and the fresh quote.\<close>

lemma run_ExecuteTestnetPayment:
  assumes inv: "sys_inv e w" and geth: "geth_ok (ex_Geth e)"
    and r: "r \<in> set (payments w)" "pr_status r = PROCESSING" "pr_id r \<notin> x_PaymentID ` set (executions w)"
    and qr: "sql_select (\<lambda>q. qr_payment_id q = pr_id r \<and> qr_selected q) (db_quotes (w_db w)) = [qr]"
      "ex_QuoteProviders e (qr_provider qr) = Some pv"
    and n: "db_wallet_nonces (w_db w) (wallet_hex e) = Some n" "n + 1 < 2 ^ 63"
    and q: "quote_accepted e (pr_id r) (scan_quote qr) (pr_amount r) q envelope"
    and sign: "\<And>x. x_Nonce x = n \<Longrightarrow> SignTx (ex_Geth e) (ex_Wallet e) (unsigned_tx x envelope gl gp) (te_ChainID envelope) = Inr stx"
      "g_MarshalBinary (ex_Geth e) stx = Inr raw"
    and env: "list_all (answers_well w pv (scan_quote qr) (pr_amount r) q gp gl) [a1, a2, a3, a4, a5, i1, i2, i3, i4, i5, i6, i7, i8]"
  shows "\<exists>w'. run (ExecuteTestnetPayment e (pr_id r)) (a1 # a2 # a3 # a4 # a5 # i1 # i2 # i3 # i4 # i5 # i6 # i7 # i8 # is) w = (Some (Inr ()), w', is) \<and>
    submitted_once e (pr_id r) n stx raw (Suc (length (executions w))) ((db_wallet_nonces (w_db w))(wallet_hex e \<mapsto> n + 1))
      (EvQuote (pv_Name pv) (quote_request (scan_quote qr) (pr_amount r)) (Inr q) # w_trace w) w'"
proof -
  let ?w1 = "w\<lparr>w_trace := EvQuote (pv_Name pv) (quote_request (scan_quote qr) (pr_amount r)) (Inr q) # w_trace w\<rparr>"
  have uuid: "uuid_in (pr_id r) = Some (pr_id r)" by (rule uuid_in_idem [OF inv r(1)])
  have row: "sql_row (sql_select (\<lambda>q. pr_id q = pr_id r) (payments w)) = Some r"
    by (rule sql_row_key [OF payment_keys [OF inv] r(1)])
  have amount: "DecimalToBaseUnits (numeric_text 18 (pr_amount r)) 18 = Inr (pr_amount r)"
    using DecimalToBaseUnits_numeric_text [of "pr_amount r" 18] inv_row [OF inv r(1)] by (simp add: row_ok_def)
  have prov: "ex_QuoteProviders e (q_Provider (scan_quote qr)) = Some pv" using qr(2) by (simp add: scan_quote_def)
  have inv1: "sys_inv e ?w1" by (rule inv_event [OF inv]) (simp add: event_ok_def)
  have "\<exists>w'. run (execute_fresh e (pr_id r) (scan_quote qr) (pr_amount r) q) (i1 # i2 # i3 # i4 # i5 # i6 # i7 # i8 # is) ?w1 = (Some (Inr ()), w', is) \<and>
    submitted_once e (pr_id r) n stx raw (Suc (length (executions w))) ((db_wallet_nonces (w_db w))(wallet_hex e \<mapsto> n + 1)) (w_trace ?w1) w'"
    using run_execute_fresh [OF inv1 geth, of r n "scan_quote qr" "pr_amount r" q envelope gl gp stx raw pv i1 i2 i3 i4 i5 i6 i7 i8 "is"]
      r n q sign env by (simp add: answers_well_def)
  then show ?thesis
    using env qr row amount uuid
    by (simp add: ExecuteTestnetPayment_def GetQuoteByPaymentID_def run_tryp wrapp_def run_bindp run_query_ok answers_well_def uuid_arg_def
        wrap_err_def Now_def with_fresh_quote_def GetPayment_def hopsForPayment_def get_quote_def call_out_def scan_payment_def prov not_less)
qed

text \<open>
  C12. A testnet payment is executed: from any reachable state, when the worker's executor accepts the bridge's
  fresh quote and the database, the bridge and the chain answer (each of the fourteen calls at its own
  time), handling the message of a ROUTED testnet payment succeeds, so its offset is committed, and leaves the payment
  SUBMITTED with one new execution that carries the next nonce and the persisted bytes of the one
  transaction that was sent; the wallet's counter has advanced by one.
\<close>

theorem testnet_payment_submitted:
  assumes "executor_ok e" "reach e (w, ts)" "po_Executor po = Some e"
    "r \<in> set (payments w)" "pr_status r = ROUTED" "pr_execution_mode r = ExecutionModeTestnet" "ev_PaymentID evt = pr_id r"
    "pr_id r \<notin> x_PaymentID ` set (executions w)"
    "sql_select (\<lambda>q. qr_payment_id q = pr_id r \<and> qr_selected q) (db_quotes (w_db w)) = [qr]"
    "ex_QuoteProviders e (qr_provider qr) = Some pv"
    "db_wallet_nonces (w_db w) (wallet_hex e) = Some n" "n + 1 < 2 ^ 63"
    "quote_accepted e (pr_id r) (scan_quote qr) (pr_amount r) q envelope"
    "\<And>x. x_Nonce x = n \<Longrightarrow> SignTx (ex_Geth e) (ex_Wallet e) (unsigned_tx x envelope gl gp) (te_ChainID envelope) = Inr stx"
    "g_MarshalBinary (ex_Geth e) stx = Inr raw"
    "length is = 14" "list_all (answers_well w pv (scan_quote qr) (pr_amount r) q gp gl) is"
  shows "\<exists>w'. run (consume_message po (Some evt)) (is @ js) w = (Some True, w', js) \<and>
    submitted_once e (pr_id r) n stx raw (Suc (length (executions w))) ((db_wallet_nonces (w_db w))(wallet_hex e \<mapsto> n + 1))
      (EvQuote (pv_Name pv) (quote_request (scan_quote qr) (pr_amount r)) (Inr q) # w_trace w) w'"
proof -
  have inv: "sys_inv e w" using reach_inv [OF assms(1,2)] by simp
  obtain c a1 a2 a3 a4 a5 i1 i2 i3 i4 i5 i6 i7 i8 where "is": "is = [c, a1, a2, a3, a4, a5, i1, i2, i3, i4, i5, i6, i7, i8]"
    using assms(16) by (auto simp: eval_nat_numeral length_Suc_conv)
  define m where "m = (w_met w)((''EventsConsumed'', []) := Suc (w_met w (''EventsConsumed'', [])))"
  let ?c = "\<lambda>q. pr_id q = pr_id r \<and> pr_status q = ROUTED"
  let ?r = "r\<lparr>pr_status := PROCESSING, pr_updated_at := e_now c\<rparr>"
  let ?w1 = "w\<lparr>w_met := m, w_db := (w_db w)\<lparr>db_payments := sql_update ?c (\<lambda>q. q\<lparr>pr_status := PROCESSING, pr_updated_at := e_now c\<rparr>) (payments w)\<rparr>\<rparr>"
  have claim: "run (ClaimPayment (pr_id r)) (c # ks) (w\<lparr>w_met := m\<rparr>) = (Some (Inr (True, ExecutionModeTestnet)), ?w1, ks)" for ks
    using run_ClaimPayment_ok [of c e "w\<lparr>w_met := m\<rparr>" r ks] inv assms(4-6,17) "is" by (simp add: answers_well_def)
  have inv1: "sys_inv e ?w1" using life.safe_run [OF safe_ClaimPayment _ claim [of "[]"], of e] inv by simp
  have row: "?r \<in> set (payments ?w1)" using in_sql_update_key [OF assms(4), of ?c] assms(5) by simp
  have geth: "geth_ok (ex_Geth e)" using assms(1) by (simp add: executor_ok_def)
  have "\<exists>w'. run (ExecuteTestnetPayment e (pr_id r)) ([a1, a2, a3, a4, a5, i1, i2, i3, i4, i5, i6, i7, i8] @ js) ?w1 = (Some (Inr ()), w', js) \<and>
    submitted_once e (pr_id r) n stx raw (Suc (length (executions w))) ((db_wallet_nonces (w_db w))(wallet_hex e \<mapsto> n + 1))
      (EvQuote (pv_Name pv) (quote_request (scan_quote qr) (pr_amount r)) (Inr q) # w_trace w) w'"
    using run_ExecuteTestnetPayment [OF inv1 geth row, of qr pv n q envelope gl gp stx raw a1 a2 a3 a4 a5 i1 i2 i3 i4 i5 i6 i7 i8 js] assms(8-17) "is"
    by (simp add: answers_well_def)
  then show ?thesis
    using claim assms(3,7) "is"
    by (auto simp: consume_message_def HandleRoutedPayment_def run_tryp run_bindp Inc_def Observe_def simp flip: m_def)
qed

definition demo_fresh_quote :: BQuote where
  "demo_fresh_quote = \<lparr>b_ProviderName = ''across'', b_SourceChainID = 84532, b_DestinationChainID = 421614, b_Asset = ''WETH'',
     b_InputAmountBaseUnits = Some 10000000000000000, b_OutputAmountBaseUnits = Some 9999999999999000, b_FeeBaseUnits = Some 1000,
     b_EstimatedFillTimeSec = 2, b_Available = True, b_QuotedAt = 0, b_ExpiresAt = 30, b_RawProviderPayload = None\<rparr>"

definition demo_transfer :: TxEnvelope where
  "demo_transfer = \<lparr>te_To = 17, te_Value = Some 10000000000000000, te_Data = ''deposit'', te_ChainID = 84532\<rparr>"

lemma demo_created_db:
  "w_db demo_created = demo_db [demo_row 0 ''k1'' ExecutionModeTestnet ROUTED, demo_row 16 ''k2'' ExecutionModeSimulated ROUTED]
     [demo_quote_row] [] 7 [demo_outbox 0 None, demo_outbox 16 None] 0"
  using demo_created_eval by (metis world.select_convs(1))

lemma demo_accepted:
  "quote_accepted demo_executor pid (scan_quote demo_quote_row) 10000000000000000 demo_fresh_quote demo_transfer"
  "answers_well demo_created demo_provider (scan_quote demo_quote_row) 10000000000000000 demo_fresh_quote 1 21000 (demo_env 0)"
  by (simp_all add: quote_accepted_def answers_well_def demo_fresh_quote_def demo_transfer_def scan_quote_def demo_quote_row_def numeric_text_0
      exceedsSlippageTolerance_def exceeds_guardrail_def buildValidatedEnvelope_def validateEnvelope_def quote_request_def demo_config
      demo_created_db demo_db_def)

theorem testnet_payment_submitted_witness:
  "\<exists>w'. run (consume_message demo_processor (Some (demo_event (demo_id 0)))) (replicate 14 (demo_env 0)) demo_created = (Some True, w', []) \<and>
     (\<exists>r \<in> set (payments w'). pr_id r = demo_id 0 \<and> pr_status r = SUBMITTED) \<and>
     (\<exists>x \<in> set (executions w'). x_PaymentID x = demo_id 0 \<and> x_Nonce x = 7) \<and> EvSend demo_tx (Inr ()) \<in> set (w_trace w')"
proof -
  let ?r = "demo_row 0 ''k1'' ExecutionModeTestnet ROUTED"
  have r: "?r \<in> set (payments demo_created)" "pr_status ?r = ROUTED" "pr_execution_mode ?r = ExecutionModeTestnet"
    "ev_PaymentID (demo_event (demo_id 0)) = pr_id ?r" "pr_id ?r \<notin> x_PaymentID ` set (executions demo_created)"
    "sql_select (\<lambda>q. qr_payment_id q = pr_id ?r \<and> qr_selected q) (db_quotes (w_db demo_created)) = [demo_quote_row]"
    "db_wallet_nonces (w_db demo_created) (wallet_hex demo_executor) = Some 7"
    by (simp_all add: demo_created_db demo_db_def wallet_hex_def demo_executor_def demo_geth_def)
       (simp_all add: demo_row_def demo_event_def demo_quote_row_def sql_select_def)
  have e: "po_Executor demo_processor = Some demo_executor" "ex_QuoteProviders demo_executor (qr_provider demo_quote_row) = Some demo_provider"
    "quote_accepted demo_executor (pr_id ?r) (scan_quote demo_quote_row) (pr_amount ?r) demo_fresh_quote demo_transfer"
    "list_all (answers_well demo_created demo_provider (scan_quote demo_quote_row) (pr_amount ?r) demo_fresh_quote 1 21000) (replicate 14 (demo_env 0))"
    using demo_accepted by (simp_all add: demo_processor_def demo_executor_def demo_quote_row_def demo_row_def list_all_iff)
  have sign: "SignTx (ex_Geth demo_executor) (ex_Wallet demo_executor) (unsigned_tx x demo_transfer 21000 1) (te_ChainID demo_transfer) = Inr demo_tx"
    if "x_Nonce x = 7" for x
    using that by (simp add: SignTx_def unsigned_tx_def demo_transfer_def demo_tx_def demo_executor_def demo_geth_def)
  have raw: "g_MarshalBinary (ex_Geth demo_executor) demo_tx = Inr ''rlp''" by (simp add: demo_executor_def demo_geth_def)
  have "\<exists>w'. run (consume_message demo_processor (Some (demo_event (demo_id 0)))) (replicate 14 (demo_env 0) @ []) demo_created = (Some True, w', []) \<and>
     submitted_once demo_executor (pr_id ?r) 7 demo_tx ''rlp'' (Suc (length (executions demo_created)))
       ((db_wallet_nonces (w_db demo_created))(wallet_hex demo_executor \<mapsto> 7 + 1))
       (EvQuote (pv_Name demo_provider) (quote_request (scan_quote demo_quote_row) (pr_amount ?r)) (Inr demo_fresh_quote) # w_trace demo_created) w'"
    by (rule testnet_payment_submitted [OF demo_executor_ok demo_created_reach e(1) r(1-6) e(2) r(7) _ e(3) sign raw _ e(4)]) simp_all
  moreover have "pr_id ?r = demo_id 0" by (simp add: demo_row_def)
  ultimately show ?thesis by (fastforce simp: submitted_once_def)
qed

section \<open>Nothing is spent before the checks\<close>

definition is_send :: "event \<Rightarrow> bool" where
  "is_send ev = (case ev of EvSend _ _ \<Rightarrow> True | _ \<Rightarrow> False)"

text \<open>No execution row, no nonce and no transaction more than before.\<close>

definition unspent :: "world \<Rightarrow> world \<Rightarrow> bool" where
  "unspent w w' \<longleftrightarrow> executions w' = executions w \<and> db_wallet_nonces (w_db w') = db_wallet_nonces (w_db w) \<and>
     filter is_send (w_trace w') = filter is_send (w_trace w)"

lemma unspent_refl [simp]: "unspent w w"
  by (simp add: unspent_def)

lemma run_tryp_cases:
  assumes "run (tryp p h k) is w = (res, w', is')"
  obtains (crash) "run p is w = (None, w', is')" "res = None"
  | (err) err w1 is1 where "run p is w = (Some (Inl err), w1, is1)" "run (h err) is1 w1 = (res, w', is')"
  | (ok) a w1 is1 where "run p is w = (Some (Inr a), w1, is1)" "run (k a) is1 w1 = (res, w', is')"
  using assms by (auto simp: run_tryp split: prod.splits option.splits sum.splits)

lemma run_bindp_cases:
  assumes "run (bindp p k) is w = (res, w', is')"
  obtains (crash) "run p is w = (None, w', is')" "res = None"
  | (ok) a w1 is1 where "run p is w = (Some a, w1, is1)" "run (k a) is1 w1 = (res, w', is')"
  using assms by (auto simp: run_bindp split: prod.splits option.splits)

lemma run_answers: "run p is w = (res, w', is') \<Longrightarrow> set is' \<subseteq> set is"
proof (induction p arbitrary: "is" w rule: proc_induct)
  case (Ask u c)
  then show ?case by (fastforce split: list.splits)
qed auto

text \<open>What a statement that only reads can answer, faults included.\<close>

lemma run_query_reads:
  assumes "run (sql_query q) is w = (res, w', is')"
  shows "w' = w \<and> (\<forall>a. res = Some (Inr a) \<longrightarrow> (\<exists>i. q i (w_db w) = Inr a))"
proof -
  have same: "sql_effect (\<lambda>i d. map_sum id (\<lambda>a. (a, d)) (q i d)) i d = d" for i d
    by (cases "q i d") (simp_all add: sql_effect_def split: db_fault.splits)
  have reply: "q i d = Inr a" if "sql_reply (\<lambda>i d. map_sum id (\<lambda>a. (a, d)) (q i d)) i d = Inr a" for i d a
    using that by (cases "q i d") (auto simp: sql_reply_cases)
  show ?thesis using assms by (auto simp: sql_query_def run_sql same dest: reply split: list.splits)
qed

lemma GetQuoteByPaymentID_reads:
  assumes "run (GetQuoteByPaymentID pid) is w = (res, w', is')"
  shows "w' = w \<and> (\<forall>q. res = Some (Inr (Some q)) \<longrightarrow>
    (\<exists>qr \<in> set (db_quotes (w_db w)). uuid_in pid = Some (qr_payment_id qr) \<and> qr_selected qr \<and> q = scan_quote qr))"
  using assms unfolding GetQuoteByPaymentID_def wrapp_def
proof (cases rule: run_bindp_cases)
  case (ok a w1 is1)
  from run_query_reads [OF ok(1)] ok(2) show ?thesis
    by (cases a) (auto simp: wrap_err_def uuid_arg_def dest!: sql_row_select_Some split: option.splits)
qed (use run_query_reads in fastforce)

lemma hopsForPayment_reads: "run (hopsForPayment pid) is w = (res, w', is') \<Longrightarrow> w' = w"
  unfolding hopsForPayment_def wrapp_def by (erule run_bindp_cases) (auto dest!: run_query_reads)

lemma GetPayment_reads:
  assumes "run (GetPayment pid) is w = (res, w', is')"
  shows "w' = w \<and> (\<forall>p. res = Some (Inr (Some p)) \<longrightarrow>
    (\<exists>r \<in> set (payments w). uuid_in pid = Some (pr_id r) \<and> p_Amount p = numeric_text 18 (pr_amount r)))"
  using assms unfolding GetPayment_def
proof (cases rule: run_bindp_cases)
  case (ok a w1 is1)
  note q = run_query_reads [OF ok(1)]
  show ?thesis
  proof (cases "\<exists>p. a = Inr (Some p)")
    case True
    then obtain p where p: "a = Inr (Some p)" by blast
    with q obtain r where r: "r \<in> set (payments w)" "uuid_in pid = Some (pr_id r)" "p = scan_payment r"
      by (auto simp: uuid_arg_def dest!: sql_row_select_Some split: option.splits)
    from ok(2) show ?thesis unfolding p sum.case option.case
    proof (cases rule: run_tryp_cases)
      case (ok hops w2 is2)
      then show ?thesis using q r hopsForPayment_reads [OF ok(1)] by (auto simp: scan_payment_def)
    qed (use q hopsForPayment_reads in fastforce)+
  next
    case False
    with ok(2) q show ?thesis by (auto split: sum.splits option.splits if_splits)
  qed
qed (use run_query_reads in fastforce)

lemma no_nonce_unspent: "no_nonce w w' \<Longrightarrow> unspent w w'"
  by (simp add: no_nonce_def unspent_def)

lemma execute_fresh_spends:
  assumes "run (execute_fresh e pid q v fq) is w = (res, w', is')"
  shows "unspent w w' \<or> (\<exists>envelope. quote_accepted e pid q v fq envelope)"
proof -
  have w': "w' = run_world (execute_fresh e pid q v fq) is w" by (simp add: run_world_def assms)
  show ?thesis
  proof (cases "\<exists>envelope. quote_accepted e pid q v fq envelope")
    case False
    then have "\<not> b_Available fq \<or> b_FeeBaseUnits fq = None \<or>
      (\<exists>f. b_FeeBaseUnits fq = Some f \<and> exceedsSlippageTolerance (q_FeeAmount q) f (ex_MaxFeeSlippageBps e)) \<or>
      exceeds_guardrail e v \<or> (\<exists>err. buildValidatedEnvelope e pid q fq = Inl err)"
      by (cases "buildValidatedEnvelope e pid q fq") (auto simp: quote_accepted_def)
    from failed_checks_allocate_nothing [OF this, of "is" w] show ?thesis by (simp add: w' unspent_def Let_def)
  qed simp
qed

text \<open>Up to the fresh quote nothing is spent either; \<open>k\<close> gets the payment's amount and the provider's answer.\<close>

lemma with_fresh_quote_spends:
  assumes "run (with_fresh_quote pid quoteRow pv k) is w = (res, w', is')"
  shows "unspent w w' \<or> (\<exists>r \<in> set (payments w). \<exists>amt q w1 is1. uuid_in pid = Some (pr_id r) \<and>
    DecimalToBaseUnits (numeric_text 18 (pr_amount r)) wethDecimals = Inr amt \<and> (\<exists>i \<in> set is. pv_GetQuote pv i (quote_request quoteRow amt) = Inr q) \<and>
    unspent w w1 \<and> run (k amt q) is1 w1 = (res, w', is'))"
  using assms unfolding with_fresh_quote_def
proof (cases rule: run_tryp_cases)
  case crash
  then show ?thesis using GetPayment_reads by fastforce
next
  case (err err' w1 is1)
  then show ?thesis using GetPayment_reads [OF err(1)] by auto
next
  case (ok a w1 is1)
  note reads = GetPayment_reads [OF ok(1)] and answers = run_answers [OF ok(1)]
  show ?thesis
  proof (cases "\<exists>p amt. a = Some p \<and> DecimalToBaseUnits (p_Amount p) wethDecimals = Inr amt")
    case False
    then show ?thesis using ok(2) reads by (auto split: option.splits sum.splits)
  next
    case True
    then obtain p amt where p: "a = Some p" "DecimalToBaseUnits (p_Amount p) wethDecimals = Inr amt" by blast
    with reads obtain r where r: "r \<in> set (payments w)" "uuid_in pid = Some (pr_id r)" "DecimalToBaseUnits (numeric_text 18 (pr_amount r)) wethDecimals = Inr amt"
      by auto
    have call: "unspent w w2 \<and> (\<forall>a. rs = Some a \<longrightarrow> (\<exists>i \<in> set is1. a = pv_GetQuote pv i rq))"
      if "run (get_quote pv rq) is1 w1 = (rs, w2, is2)" for rq rs w2 is2
      using that reads by (auto simp: get_quote_def call_out_def unspent_def is_send_def split: list.splits)
    from ok(2) show ?thesis unfolding p(1) option.case p(2) sum.case
    proof (cases rule: run_tryp_cases)
      case (ok q w2 is2)
      from call [OF ok(1)] obtain i where i: "i \<in> set is1" "pv_GetQuote pv i (quote_request quoteRow amt) = Inr q" "unspent w w2" by auto
      with answers have "\<exists>i \<in> set is. pv_GetQuote pv i (quote_request quoteRow amt) = Inr q" by blast
      with r i(3) ok(2) show ?thesis by blast
    qed (use call in fastforce)+
  qed
qed

text \<open>The checks of a run with the answers \<open>is\<close>, from the clock to the envelope, for the selected quote \<open>qr\<close>.\<close>

definition checks_passed :: "Executor \<Rightarrow> string \<Rightarrow> env list \<Rightarrow> world \<Rightarrow> quote_row \<Rightarrow> bool" where
  "checks_passed e pid is w qr \<longleftrightarrow> (\<exists>r \<in> set (payments w). \<exists>pv q envelope. uuid_in pid = Some (pr_id r) \<and>
     (\<exists>i \<in> set is. e_now i \<le> qr_expires_at qr) \<and> ex_QuoteProviders e (qr_provider qr) = Some pv \<and>
     (\<exists>i \<in> set is. pv_GetQuote pv i (quote_request (scan_quote qr) (pr_amount r)) = Inr q) \<and>
     quote_accepted e pid (scan_quote qr) (pr_amount r) q envelope)"

lemma execute_with_quote_spends:
  assumes inv: "sys_inv e w" and "run (with_fresh_quote pid (scan_quote qr) pv (execute_fresh e pid (scan_quote qr))) is2 w = (res, w', is')"
    "set is2 \<subseteq> set is" "\<exists>i \<in> set is. e_now i \<le> qr_expires_at qr" "ex_QuoteProviders e (qr_provider qr) = Some pv"
  shows "unspent w w' \<or> checks_passed e pid is w qr"
proof (cases "unspent w w'")
  case False
  with with_fresh_quote_spends [OF assms(2)] obtain r amt q w1 is1 where r: "r \<in> set (payments w)" "uuid_in pid = Some (pr_id r)"
      "DecimalToBaseUnits (numeric_text 18 (pr_amount r)) wethDecimals = Inr amt" "\<exists>i \<in> set is2. pv_GetQuote pv i (quote_request (scan_quote qr) amt) = Inr q"
      "unspent w w1" "run (execute_fresh e pid (scan_quote qr) amt q) is1 w1 = (res, w', is')" by blast
  have amount: "amt = pr_amount r"
    using r(3) DecimalToBaseUnits_numeric_text [of "pr_amount r" 18] inv_row [OF inv r(1)] by (simp add: row_ok_def)
  have "\<not> unspent w1 w'" using r(5) False by (simp add: unspent_def)
  with execute_fresh_spends [OF r(6)] obtain envelope where "quote_accepted e pid (scan_quote qr) amt q envelope" by blast
  with r assms(3-5) show ?thesis unfolding checks_passed_def amount by blast
qed simp

lemma ExecuteTestnetPayment_spends:
  assumes inv: "sys_inv e w" and run: "run (ExecuteTestnetPayment e pid) is w = (res, w', is')"
  shows "unspent w w' \<or> (\<exists>qr \<in> set (db_quotes (w_db w)). uuid_in pid = Some (qr_payment_id qr) \<and> qr_selected qr \<and> checks_passed e pid is w qr)"
  using run unfolding ExecuteTestnetPayment_def
proof (cases rule: run_tryp_cases)
  case (ok a w1 is1)
  note reads = GetQuoteByPaymentID_reads [OF ok(1)] and answers = run_answers [OF ok(1)]
  show ?thesis
  proof (cases a)
    case None
    with ok(2) reads show ?thesis by simp
  next
    case (Some quoteRow)
    with reads obtain qr where qr: "qr \<in> set (db_quotes (w_db w))" "uuid_in pid = Some (qr_payment_id qr)" "qr_selected qr" "quoteRow = scan_quote qr"
      by auto
    have sel: "q_Provider quoteRow = qr_provider qr" "q_ExpiresAt quoteRow = qr_expires_at qr" by (simp_all add: qr(4) scan_quote_def)
    from ok(2) show ?thesis unfolding Some option.case
    proof (cases rule: run_bindp_cases)
      case (ok now w2 is2)
      then obtain i where i: "is1 = i # is2" "now = e_now i" "w2 = w" using reads by (auto simp: Now_def split: list.splits)
      consider (expired) "qr_expires_at qr < e_now i" | (unknown) "\<not> qr_expires_at qr < e_now i" "ex_QuoteProviders e (qr_provider qr) = None"
        | (quoted) pv where "\<not> qr_expires_at qr < e_now i" "ex_QuoteProviders e (qr_provider qr) = Some pv" by fastforce
      then show ?thesis
      proof cases
        case expired
        with ok(2) i sel show ?thesis by (auto intro: no_nonce_unspent run_fail_payment_no_nonce)
      next
        case unknown
        with ok(2) i sel show ?thesis by simp
      next
        case (quoted pv)
        then have "run (with_fresh_quote pid (scan_quote qr) pv (execute_fresh e pid (scan_quote qr))) is2 w = (res, w', is')"
          using ok(2) i sel qr(4) by simp
        from execute_with_quote_spends [OF inv this, of "is"] show ?thesis using quoted i answers qr(1-3) by fastforce
      qed
    qed (use reads in \<open>auto simp: Now_def split: list.splits\<close>)
  qed
qed (use GetQuoteByPaymentID_reads in fastforce)+

text \<open>
  C29. Every check of a payment's execution comes before the first thing it spends, whatever faults and crashes occur:
  from any reachable state, a run of \<open>ExecuteTestnetPayment\<close> either writes no execution row, takes no nonce and sends
  no transaction, or all its checks passed. Then the payment has a selected quote that had not expired when the clock was read, of
  a provider this worker is configured with; that provider answered for exactly the payment's amount, with a
  quote that is available and whose fee is within the tolerance of the stored one; the amount is within the guardrail, and a valid
  envelope was built. A failed check may still mark the payment's own row in \<open>payments\<close> as FAILED.
\<close>

theorem nonce_only_after_checks:
  assumes "executor_ok e" "reach e (w, ts)" "run (ExecuteTestnetPayment e pid) is w = (res, w', is')"
  shows "executions w' = executions w \<and> db_wallet_nonces (w_db w') = db_wallet_nonces (w_db w) \<and>
      filter is_send (w_trace w') = filter is_send (w_trace w) \<or>
    (\<exists>qr \<in> set (db_quotes (w_db w)). \<exists>r \<in> set (payments w). \<exists>pv q fee envelope.
      uuid_in pid = Some (pr_id r) \<and> qr_payment_id qr = pr_id r \<and> qr_selected qr \<and> (\<exists>i \<in> set is. e_now i \<le> qr_expires_at qr) \<and>
      ex_QuoteProviders e (qr_provider qr) = Some pv \<and>
      (\<exists>i \<in> set is. pv_GetQuote pv i (quote_request (scan_quote qr) (pr_amount r)) = Inr q) \<and> b_Available q \<and> b_FeeBaseUnits q = Some fee \<and>
      \<not> exceedsSlippageTolerance (numeric_text 0 (qr_fee_amount qr)) fee (ex_MaxFeeSlippageBps e) \<and> \<not> exceeds_guardrail e (pr_amount r) \<and>
      buildValidatedEnvelope e pid (scan_quote qr) q = Inr envelope)"
proof -
  have fee: "q_FeeAmount (scan_quote qr) = numeric_text 0 (qr_fee_amount qr)" for qr by (simp add: scan_quote_def)
  have "sys_inv e w" using reach_inv [OF assms(1,2)] by simp
  from ExecuteTestnetPayment_spends [OF this assms(3)] show ?thesis
  proof
    assume "\<exists>qr \<in> set (db_quotes (w_db w)). uuid_in pid = Some (qr_payment_id qr) \<and> qr_selected qr \<and> checks_passed e pid is w qr"
    then show ?thesis unfolding checks_passed_def quote_accepted_def fee by (intro disjI2) force
  qed (simp add: unspent_def)
qed

text \<open>An expired quote, on the concrete payment: the clock reads 31 and the quote expired at 30.\<close>

theorem nonce_only_after_checks_witness:
  "let w' = run_world (ExecuteTestnetPayment demo_executor (demo_id 0)) (replicate 14 ((demo_env 0)\<lparr>e_now := 31\<rparr>)) demo_created in
     db_quotes (w_db demo_created) = [demo_quote_row] \<and> qr_expires_at demo_quote_row = 30 \<and>
     executions w' = [] \<and> db_wallet_nonces (w_db w') (wallet_hex demo_executor) = Some 7 \<and> filter is_send (w_trace w') = []"
proof -
  let ?is = "replicate 14 ((demo_env 0)\<lparr>e_now := 31\<rparr>)"
  obtain res w' is' where run: "run (ExecuteTestnetPayment demo_executor (demo_id 0)) ?is demo_created = (res, w', is')" by (metis prod_cases3)
  have db: "db_quotes (w_db demo_created) = [demo_quote_row]" "qr_expires_at demo_quote_row = 30" "executions demo_created = []"
      "db_wallet_nonces (w_db demo_created) (wallet_hex demo_executor) = Some 7"
    by (simp_all add: demo_created_db demo_db_def demo_quote_row_def wallet_hex_def demo_executor_def demo_geth_def)
  have "w_trace demo_created = []" using demo_created_eval by (metis world.select_convs(2))
  moreover have "\<not> (\<exists>i \<in> set ?is. e_now i \<le> qr_expires_at qr)" if "qr \<in> set (db_quotes (w_db demo_created))" for qr
    using that by (simp add: db)
  ultimately show ?thesis
    using nonce_only_after_checks [OF demo_executor_ok demo_created_reach run] by (metis db run run_world_def fst_conv snd_conv filter.simps(1))
qed

end
