(* ===== verification/Ledger.thy ===== *)
theory Ledger
  imports Safety
begin

text \<open>
  The abstract specification of the service: a ledger that maps an idempotency key to an account.
  The ledger knows nothing of tables, outbox, broker, goroutines, nonces or crashes; its steps are
  the seven things that may ever happen to a payment. \<open>ledger_of\<close> reads the ledger off the shared
  world, and the interleaved system refines it: what any run of the processes does to the
  database, the broker and the chain is a sequence of ledger steps.
\<close>

section \<open>The specification\<close>

record account =
  ac_id :: string
  ac_source_chain :: string
  ac_destination_chain :: string
  ac_asset :: string
  ac_amount :: int
  ac_mode :: ExecutionMode
  ac_status :: Status
  ac_broadcast :: bool
  ac_filled :: bool

type_synonym ledger = "string \<rightharpoonup> account"

text \<open>A new account: a positive amount between two chains, nothing sent for it, and a new identifier.\<close>

definition fresh_account :: "ledger \<Rightarrow> account \<Rightarrow> bool" where
  "fresh_account L a \<longleftrightarrow> 0 < ac_amount a \<and> ac_source_chain a \<noteq> ac_destination_chain a \<and>
     ac_mode a \<in> {ExecutionModeSimulated, ExecutionModeTestnet} \<and> ac_status a = ROUTED \<and>
     \<not> ac_broadcast a \<and> \<not> ac_filled a \<and> (\<forall>b \<in> ran L. ac_id b \<noteq> ac_id a)"

inductive account_step :: "account \<Rightarrow> account \<Rightarrow> bool" where
  claim: "ac_status a = ROUTED \<Longrightarrow> account_step a (a\<lparr>ac_status := PROCESSING\<rparr>)"
| simulate: "ac_mode a = ExecutionModeSimulated \<Longrightarrow> ac_status a = PROCESSING \<Longrightarrow>
    account_step a (a\<lparr>ac_status := outcome_status (ac_id a)\<rparr>)"
| broadcast: "ac_mode a = ExecutionModeTestnet \<Longrightarrow> \<not> ac_broadcast a \<Longrightarrow> account_step a (a\<lparr>ac_broadcast := True\<rparr>)"
| fill: "ac_broadcast a \<Longrightarrow> account_step a (a\<lparr>ac_filled := True\<rparr>)"
| submit: "ac_broadcast a \<Longrightarrow> ac_status a = PROCESSING \<Longrightarrow> account_step a (a\<lparr>ac_status := SUBMITTED\<rparr>)"
| complete: "ac_filled a \<Longrightarrow> ac_status a = SUBMITTED \<Longrightarrow> account_step a (a\<lparr>ac_status := COMPLETED\<rparr>)"
| fail: "ac_mode a = ExecutionModeTestnet \<Longrightarrow> ac_status a = PROCESSING \<or> ac_status a = SUBMITTED \<Longrightarrow>
    account_step a (a\<lparr>ac_status := FAILED\<rparr>)"

inductive ledger_step :: "ledger \<Rightarrow> ledger \<Rightarrow> bool" where
  open_account: "L k = None \<Longrightarrow> fresh_account L a \<Longrightarrow> ledger_step L (L(k \<mapsto> a))"
| move: "L k = Some a \<Longrightarrow> account_step a b \<Longrightarrow> ledger_step L (L(k \<mapsto> b))"

lemma account_same [simp]: "s = ac_status a \<Longrightarrow> a\<lparr>ac_status := s\<rparr> = a" "b = ac_broadcast a \<Longrightarrow> a\<lparr>ac_broadcast := b\<rparr> = a"
  by simp_all

inductive_cases account_stepE: "account_step a b"
inductive_cases ledger_stepE: "ledger_step L L'"

text \<open>What the ledger promises, proved on the ledger alone.\<close>

definition account_ok :: "account \<Rightarrow> bool" where
  "account_ok a \<longleftrightarrow> ac_mode a \<in> {ExecutionModeSimulated, ExecutionModeTestnet} \<and>
     (ac_mode a = ExecutionModeSimulated \<longrightarrow> \<not> ac_broadcast a \<and> ac_status a \<noteq> SUBMITTED \<and>
        (terminal (ac_status a) \<longrightarrow> ac_status a = outcome_status (ac_id a))) \<and>
     (ac_filled a \<longrightarrow> ac_broadcast a) \<and> (ac_status a = SUBMITTED \<longrightarrow> ac_broadcast a) \<and>
     (ac_mode a = ExecutionModeTestnet \<and> ac_status a = COMPLETED \<longrightarrow> ac_filled a)"

lemma outcome_terminal: "outcome_status u \<in> {COMPLETED, FAILED}"
  by (simp add: outcome_status_def)

lemma account_step_ok: "account_step a b \<Longrightarrow> account_ok a \<Longrightarrow> account_ok b"
  using outcome_terminal [of "ac_id a"] by (elim account_stepE) (auto simp: account_ok_def)

definition ledger_ok :: "ledger \<Rightarrow> bool" where
  "ledger_ok L \<longleftrightarrow> (\<forall>a \<in> ran L. account_ok a)"

lemma ran_updD: "x \<in> ran (L(k \<mapsto> a)) \<Longrightarrow> x = a \<or> x \<in> ran L"
  by (auto simp: ran_def split: if_splits)

lemma ledger_step_ok: "ledger_step L L' \<Longrightarrow> ledger_ok L \<Longrightarrow> ledger_ok L'"
proof (induction rule: ledger_step.induct)
  case (open_account L k a)
  then have "account_ok a" by (auto simp: fresh_account_def account_ok_def)
  with open_account show ?case unfolding ledger_ok_def by (blast dest: ran_updD)
next
  case (move L k a b)
  then have "account_ok b" using account_step_ok by (auto simp: ledger_ok_def ran_def)
  with move show ?case unfolding ledger_ok_def by (blast dest: ran_updD)
qed

section \<open>Refinement\<close>

text \<open>
  The interface between a system with an evolution and its specification: what the evolution lets
  happen between two good worlds is a sequence of steps of the specification.
\<close>

locale refines_spec = evolution I R for I :: "'w \<Rightarrow> bool" and R :: "'w \<Rightarrow> 'w \<Rightarrow> bool" +
  fixes abs :: "'w \<Rightarrow> 's" and spec_step :: "'s \<Rightarrow> 's \<Rightarrow> bool"
  assumes simulates: "I w \<Longrightarrow> I w' \<Longrightarrow> R w w' \<Longrightarrow> spec_step\<^sup>*\<^sup>* (abs w) (abs w')"
begin

lemma steps_simulated:
  assumes E: "\<And>p w. E p \<Longrightarrow> I w \<Longrightarrow> safe I R p (\<lambda>_ _. True) w"
    and X: "\<And>w w'. X w w' \<Longrightarrow> I w \<Longrightarrow> I w' \<and> R w w'"
    and w0: "I w0" and s: "reachable E X w0 s" and steps: "(sys_step E X)\<^sup>*\<^sup>* s s'"
  shows "spec_step\<^sup>*\<^sup>* (abs (fst s)) (abs (fst s'))"
proof -
  have safe: "state_safe s" by (rule reachable_safe [OF E X w0 s])
  have "state_safe s' \<and> R (fst s) (fst s')" using steps_evolve [OF E X safe steps] by blast
  with safe simulates show ?thesis by (simp add: state_safe_def)
qed

lemma promise_holds:
  assumes E: "\<And>p w. E p \<Longrightarrow> I w \<Longrightarrow> safe I R p (\<lambda>_ _. True) w"
    and X: "\<And>w w'. X w w' \<Longrightarrow> I w \<Longrightarrow> I w' \<and> R w w'"
    and w0: "I w0" and s: "reachable E X w0 (s :: ('i, 'w) sys)"
    and J0: "J (abs w0)" and J: "\<And>a b. spec_step a b \<Longrightarrow> J a \<Longrightarrow> J b"
  shows "J (abs (fst s))"
proof -
  have "(sys_step E X)\<^sup>*\<^sup>* (w0, []) s"
    using s by (induction rule: reachable.induct) (auto intro: rtranclp.rtrancl_into_rtrancl)
  then have "spec_step\<^sup>*\<^sup>* (abs (fst (w0, [] :: ('i, 'w, unit) proc list))) (abs (fst s))"
    using steps_simulated [OF E X w0 reachable.start] by blast
  then have "spec_step\<^sup>*\<^sup>* (abs w0) (abs (fst s))" by simp
  then show ?thesis by (induction rule: rtranclp_induct) (use J0 J in auto)
qed

end

text \<open>The ledger of a world.\<close>

definition account_of :: "Executor \<Rightarrow> world \<Rightarrow> payment_row \<Rightarrow> account" where
  "account_of e w r = \<lparr>ac_id = pr_id r, ac_source_chain = pr_source_chain r, ac_destination_chain = pr_destination_chain r,
     ac_asset = pr_asset r, ac_amount = pr_amount r, ac_mode = pr_execution_mode r, ac_status = pr_status r,
     ac_broadcast = (\<exists>x. broadcast_for w (pr_id r) x),
     ac_filled = (\<exists>x. broadcast_for w (pr_id r) x \<and> filled_seen e w x)\<rparr>"

definition ledger_of :: "Executor \<Rightarrow> world \<Rightarrow> ledger" where
  "ledger_of e w = map_of (map (\<lambda>r. (pr_idempotency_key r, account_of e w r)) (db_payments (w_db w)))"

text \<open>How one account may differ between two worlds.\<close>

definition account_le :: "account \<Rightarrow> account \<Rightarrow> bool" where
  "account_le a b \<longleftrightarrow> b = a\<lparr>ac_status := ac_status b, ac_broadcast := ac_broadcast b, ac_filled := ac_filled b\<rparr> \<and>
     status_le (ac_status a) (ac_status b) \<and> (ac_broadcast a \<longrightarrow> ac_broadcast b) \<and> (ac_filled a \<longrightarrow> ac_filled b)"

text \<open>The status of an account moves along the steps of its mode.\<close>

lemma submitted_path:
  assumes "account_ok (a\<lparr>ac_status := s\<rparr>)" "ac_mode a = ExecutionModeTestnet" "ac_status a = SUBMITTED" "status_le SUBMITTED s"
  shows "account_step\<^sup>*\<^sup>* a (a\<lparr>ac_status := s\<rparr>)"
  using assms account_step.complete [of a] account_step.fail [of a]
  by (cases s) (auto simp: account_ok_def simp del: account.update_convs)

lemma processing_path:
  assumes ok: "account_ok (a\<lparr>ac_status := s\<rparr>)" and st: "ac_status a = PROCESSING" "s \<noteq> ROUTED"
  shows "account_step\<^sup>*\<^sup>* a (a\<lparr>ac_status := s\<rparr>)"
proof (cases "s = PROCESSING")
  case True
  with st have "a\<lparr>ac_status := s\<rparr> = a" by simp
  then show ?thesis by simp
next
  case moved: False
  show ?thesis
  proof (cases "ac_mode a = ExecutionModeSimulated")
    case True
    with ok st moved have "s = outcome_status (ac_id a)" by (cases s) (auto simp: account_ok_def)
    with account_step.simulate [OF True st(1)] show ?thesis by auto
  next
    case False
    with ok have mode: "ac_mode a = ExecutionModeTestnet" by (auto simp: account_ok_def)
    show ?thesis
    proof (cases "s = FAILED")
      case True
      with account_step.fail [OF mode] st(1) show ?thesis by auto
    next
      case False
      with ok mode st moved have b: "ac_broadcast a" by (cases s) (auto simp: account_ok_def)
      let ?c = "a\<lparr>ac_status := SUBMITTED\<rparr>"
      have "account_step a ?c" by (rule account_step.submit [OF b st(1)])
      also have "account_step\<^sup>*\<^sup>* ?c (?c\<lparr>ac_status := s\<rparr>)"
        by (rule submitted_path) (use ok mode st moved in \<open>cases s; simp\<close>)+
      finally show ?thesis by simp
    qed
  qed
qed

lemma status_path:
  assumes ok: "account_ok (a\<lparr>ac_status := s\<rparr>)" and le: "status_le (ac_status a) s"
    and sim: "ac_mode a = ExecutionModeSimulated \<longrightarrow> ac_status a \<noteq> SUBMITTED"
  shows "account_step\<^sup>*\<^sup>* a (a\<lparr>ac_status := s\<rparr>)"
proof (cases "ac_status a = s")
  case True
  then have "a\<lparr>ac_status := s\<rparr> = a" by simp
  then show ?thesis by simp
next
  case moved: False
  show ?thesis
  proof (cases "ac_status a")
    case ROUTED
    let ?c = "a\<lparr>ac_status := PROCESSING\<rparr>"
    have "account_step a ?c" by (rule account_step.claim [OF ROUTED])
    also have "account_step\<^sup>*\<^sup>* ?c (?c\<lparr>ac_status := s\<rparr>)"
      by (rule processing_path) (use ok moved ROUTED in simp_all)
    finally show ?thesis by simp
  next
    case SUBMITTED
    with ok sim have "ac_mode a = ExecutionModeTestnet" by (auto simp: account_ok_def)
    with SUBMITTED ok le show ?thesis by (intro submitted_path) simp_all
  next
    case PROCESSING
    with ok le show ?thesis by (intro processing_path) auto
  qed (use le moved in auto)
qed

lemma account_path:
  assumes le: "account_le a b" and ok: "account_ok a" "account_ok b"
  shows "account_step\<^sup>*\<^sup>* a b"
proof -
  let ?a1 = "a\<lparr>ac_broadcast := ac_broadcast b\<rparr>" and ?a2 = "a\<lparr>ac_broadcast := ac_broadcast b, ac_filled := ac_filled b\<rparr>"
  have b: "?a2\<lparr>ac_status := ac_status b\<rparr> = b"
    using le unfolding account_le_def by (cases a; cases b) auto
  then have same: "ac_mode b = ac_mode a" by (metis account.select_convs(6) account.surjective account.update_convs(7,8,9))
  have "account_step\<^sup>*\<^sup>* a ?a1"
  proof (cases "ac_broadcast a = ac_broadcast b")
    case False
    with le ok same have "ac_mode a = ExecutionModeTestnet" "\<not> ac_broadcast a" "ac_broadcast b"
      by (auto simp: account_le_def account_ok_def)
    with account_step.broadcast [of a] show ?thesis by auto
  qed simp
  also have "account_step\<^sup>*\<^sup>* ?a1 ?a2"
  proof (cases "ac_filled a = ac_filled b")
    case True
    then have "?a2 = ?a1" by simp
    then show ?thesis by simp
  next
    case False
    with le ok have "ac_filled b" "ac_broadcast b" by (auto simp: account_le_def account_ok_def)
    with account_step.fill [of ?a1] show ?thesis by auto
  qed
  also have "account_step\<^sup>*\<^sup>* ?a2 (?a2\<lparr>ac_status := ac_status b\<rparr>)"
    by (rule status_path) (use ok le in \<open>simp_all add: b account_le_def account_ok_def\<close>)
  finally show ?thesis by (simp only: b)
qed

section \<open>The system refines the ledger\<close>

lemma account_of_ok:
  assumes inv: "sys_inv e w" and r: "r \<in> set (db_payments (w_db w))"
  shows "account_ok (account_of e w r)"
proof -
  have ok: "row_ok r" "status_ok e w r" using inv_row [OF inv r] by auto
  have "pr_execution_mode r = ExecutionModeTestnet" if "broadcast_for w (pr_id r) x" for x
    using that known_mode_row [OF inv execution_copy(3) [OF inv] r] by (auto simp: broadcast_for_def)
  then have "\<forall>x. \<not> broadcast_for w (pr_id r) x" if "pr_execution_mode r = ExecutionModeSimulated" using that by auto
  with ok show ?thesis
    unfolding account_ok_def account_of_def row_ok_def status_ok_def account.simps by blast
qed

lemma account_of_mono:
  assumes ev: "evolves w w'" and le: "pay_le r r'"
  shows "account_le (account_of e w r) (account_of e w' r')"
proof -
  have "\<exists>x'. broadcast_for w' (pr_id r) x' \<and> (filled_seen e w x \<longrightarrow> filled_seen e w' x')"
    if "broadcast_for w (pr_id r) x" for x
    using broadcast_for_stable [OF ev that] filled_seen_stable [OF ev] by metis
  then have "(\<exists>x. broadcast_for w (pr_id r) x) \<longrightarrow> (\<exists>x. broadcast_for w' (pr_id r) x)"
    "(\<exists>x. broadcast_for w (pr_id r) x \<and> filled_seen e w x) \<longrightarrow> (\<exists>x. broadcast_for w' (pr_id r) x \<and> filled_seen e w' x)"
    by blast+
  with le show ?thesis by (simp add: account_le_def account_of_def pay_le_def)
qed

text \<open>Moving one account of the ledger, and opening one.\<close>

lemma ledger_move: "account_step\<^sup>*\<^sup>* a b \<Longrightarrow> L k = Some a \<Longrightarrow> ledger_step\<^sup>*\<^sup>* L (L(k \<mapsto> b))"
proof (induction rule: rtranclp_induct)
  case (step b c)
  have "ledger_step (L(k \<mapsto> b)) ((L(k \<mapsto> b))(k \<mapsto> c))" by (rule ledger_step.move) (use step in simp_all)
  with step.IH [OF step.prems] show ?case by (simp only: fun_upd_upd rtranclp.rtrancl_into_rtrancl)
qed (simp only: map_upd_triv rtranclp.rtrancl_refl)

lemma map_of_middle:
  "distinct (map fst (us @ (k, a) # vs)) \<Longrightarrow> map_of (us @ (k, b) # vs) = (map_of (us @ (k, a) # vs))(k \<mapsto> b)"
  by (auto simp: map_add_def fun_eq_iff split: option.splits dest: map_of_SomeD) force

type_synonym entries = "(string \<times> account) list"

lemma ledger_moves:
  assumes "list_all2 (\<lambda>x y. fst y = fst x \<and> account_le (snd x) (snd y) \<and> account_ok (snd x) \<and> account_ok (snd y)) xs ys"
    "distinct (map fst (us @ xs))"
  shows "ledger_step\<^sup>*\<^sup>* (map_of (us @ xs)) (map_of (us @ (ys :: entries)))"
  using assms
proof (induction xs ys arbitrary: us rule: list_all2_induct)
  case (Cons x xs y ys)
  obtain k a b where xy: "x = (k, a)" "y = (k, b)" using Cons.hyps(1) by (cases x; cases y) auto
  have "map_of (us @ x # xs) k = Some a" using Cons.prems by (auto simp: xy map_of_eq_None_iff map_add_Some_iff)
  moreover have "account_step\<^sup>*\<^sup>* a b" using Cons.hyps(1) by (auto simp: xy intro: account_path)
  ultimately have "ledger_step\<^sup>*\<^sup>* (map_of (us @ x # xs)) ((map_of (us @ x # xs))(k \<mapsto> b))" by (intro ledger_move)
  also have "(map_of (us @ x # xs))(k \<mapsto> b) = map_of ((us @ [y]) @ xs)"
    using map_of_middle [of us k a xs b] Cons.prems by (simp add: xy)
  also have "ledger_step\<^sup>*\<^sup>* (map_of ((us @ [y]) @ xs)) (map_of ((us @ [y]) @ ys))"
    by (rule Cons.IH) (use Cons.prems in \<open>auto simp: xy\<close>)
  finally show ?case by simp
qed simp

lemma ledger_opens:
  assumes "\<And>k a. (k, a) \<in> set (zs :: entries) \<Longrightarrow> account_ok a \<and> 0 < ac_amount a \<and> ac_source_chain a \<noteq> ac_destination_chain a"
    "distinct (map fst (us @ zs))" "distinct (map (ac_id \<circ> snd) (us @ zs))"
  shows "ledger_step\<^sup>*\<^sup>* (map_of us) (map_of (us @ zs))"
  using assms
proof (induction zs arbitrary: us)
  case (Cons z zs)
  obtain k b where z: "z = (k, b)" by (cases z)
  let ?a = "b\<lparr>ac_status := ROUTED, ac_broadcast := False, ac_filled := False\<rparr>"
  have b: "account_ok b" "0 < ac_amount b" "ac_source_chain b \<noteq> ac_destination_chain b" using Cons.prems(1) z by auto
  have new: "map_of us k = None" using Cons.prems(2) by (auto simp: z map_of_eq_None_iff)
  have "\<forall>c \<in> ran (map_of us). ac_id c \<noteq> ac_id b"
    using Cons.prems(3) by (force simp: z ran_def dest: map_of_SomeD)
  with b have "fresh_account (map_of us) ?a" by (simp add: fresh_account_def account_ok_def)
  with new have "ledger_step (map_of us) ((map_of us)(k \<mapsto> ?a))" by (rule ledger_step.open_account)
  also have "ledger_step\<^sup>*\<^sup>* ((map_of us)(k \<mapsto> ?a)) (((map_of us)(k \<mapsto> ?a))(k \<mapsto> b))"
    by (rule ledger_move [OF account_path]) (use b in \<open>simp_all add: account_le_def account_ok_def\<close>)
  also have "((map_of us)(k \<mapsto> ?a))(k \<mapsto> b) = map_of (us @ [z])"
    using new by (auto simp: z fun_eq_iff map_add_def split: option.splits)
  also have "ledger_step\<^sup>*\<^sup>* (map_of (us @ [z])) (map_of ((us @ [z]) @ zs))"
    by (rule Cons.IH) (use Cons.prems in auto)
  finally show ?case by simp
qed simp

lemma ledger_simulates:
  assumes inv: "sys_inv e w" "sys_inv e w'" and ev: "evolves w w'"
  shows "ledger_step\<^sup>*\<^sup>* (ledger_of e w) (ledger_of e w')"
proof -
  let ?P = "db_payments (w_db w)" and ?P' = "db_payments (w_db w')"
  let ?f = "\<lambda>w r. (pr_idempotency_key r, account_of e w r)"
  obtain us vs where P': "?P' = us @ vs" and le: "list_all2 pay_le ?P us"
    using ev append_take_drop_id [of "length ?P" ?P'] unfolding evolves_def db_evolves_def grows_def by metis
  have keys: "distinct (map pr_idempotency_key ?P)" "distinct (map pr_idempotency_key ?P')" "distinct (map pr_id ?P')"
    using keys_okD [OF inv(1)] keys_okD [OF inv(2)] by (simp_all add: keys_ok_def)
  have "list_all2 (\<lambda>x y. fst y = fst x \<and> account_le (snd x) (snd y) \<and> account_ok (snd x) \<and> account_ok (snd y))
      (map (?f w) ?P) (map (?f w') us)"
    unfolding list.rel_map
  proof (rule list.rel_mono_strong [OF le])
    fix r r' assume r: "r \<in> set ?P" "r' \<in> set us" "pay_le r r'"
    with account_of_ok [OF inv(1), of r] account_of_ok [OF inv(2), of r'] account_of_mono [OF ev r(3)]
    show "fst (?f w' r') = fst (?f w r) \<and> account_le (snd (?f w r)) (snd (?f w' r')) \<and>
        account_ok (snd (?f w r)) \<and> account_ok (snd (?f w' r'))" by (simp add: P' pay_le_def)
  qed
  from ledger_moves [OF this, of "[]"] keys(1)
  have "ledger_step\<^sup>*\<^sup>* (ledger_of e w) (map_of (map (?f w') us))" by (simp add: ledger_of_def comp_def)
  also have "ledger_step\<^sup>*\<^sup>* (map_of (map (?f w') us)) (map_of (map (?f w') us @ map (?f w') vs))"
  proof (rule ledger_opens)
    fix k a assume "(k, a) \<in> set (map (?f w') vs)"
    then obtain r where r: "r \<in> set ?P'" "a = account_of e w' r" by (auto simp: P')
    with account_of_ok [OF inv(2) r(1)] inv_row [OF inv(2) r(1)]
    show "account_ok a \<and> 0 < ac_amount a \<and> ac_source_chain a \<noteq> ac_destination_chain a"
      by (auto simp: account_of_def row_ok_def)
  qed (use keys(2,3) in \<open>simp_all add: P' account_of_def comp_def\<close>)
  finally show ?thesis by (simp add: ledger_of_def P')
qed

interpretation books: refines_spec "sys_inv e" evolves "ledger_of e" ledger_step for e
  by unfold_locales (rule ledger_simulates)

text \<open>
  C3. The service refines the ledger. From any reachable state of the interleaved system (API requests,
  publishers, consumers, sweeps and reconcilers of any number of processes, with crashes, lost
  replies and database faults), what any further steps do is, read through \<open>ledger_of\<close>, a sequence
  of the ledger's own steps: open an account for a new key, claim it, end a simulated one with the
  outcome of its identifier, broadcast once, see the fill, submit, complete, fail. The system
  starts at the empty ledger.
\<close>

theorem system_refines_ledger:
  assumes "executor_ok e" "reach e s" "(sys_step (entry e) lock_loss)\<^sup>*\<^sup>* s s'"
  shows "ledger_step\<^sup>*\<^sup>* (ledger_of e (fst s)) (ledger_of e (fst s')) \<and> ledger_of e empty_world = Map.empty"
proof -
  have "ledger_step\<^sup>*\<^sup>* (ledger_of e (fst s)) (ledger_of e (fst s'))"
    using books.steps_simulated [OF _ lock_loss_safe empty_world_inv assms(2,3)] entry_safe [OF assms(1)] by blast
  then show ?thesis by (simp add: ledger_of_def empty_world_def empty_db_def)
qed

theorem system_refines_ledger_witness:
  "ledger_step\<^sup>*\<^sup>* (ledger_of demo_executor demo_submitted) (ledger_of demo_executor demo_settled) \<and>
   map_option ac_status (ledger_of demo_executor demo_submitted ''k1'') = Some SUBMITTED \<and>
   map_option ac_status (ledger_of demo_executor demo_settled ''k1'') = Some COMPLETED"
  using system_refines_ledger [OF demo_executor_ok demo_submitted_reach demo_steps_settled]
  by (simp add: ledger_of_def demo_submitted_facts demo_settled_facts)
     (simp add: demo_row_def account_of_def)

text \<open>The promises of the ledger hold of the running service.\<close>

lemma service_keeps_ledger_promises:
  assumes "executor_ok e" "reach e s"
  shows "ledger_ok (ledger_of e (fst s))"
proof -
  have "ledger_ok (ledger_of e empty_world)" by (simp add: ledger_ok_def ledger_of_def empty_world_def empty_db_def)
  then show ?thesis
    using books.promise_holds [OF _ lock_loss_safe empty_world_inv assms(2), of e ledger_ok] entry_safe [OF assms(1)]
      ledger_step_ok by blast
qed

end
