(* ===== verification/Termination.thy ===== *)
theory Termination
  imports Api_Behaviour
begin

text \<open>
  How many answers of the outside a process waits for. \<open>ends_within n p\<close> bounds every path through
  the call tree of \<open>p\<close>: whatever the answers, the process returns after at most \<open>n\<close> of them. It is
  proved call by call, and gives that a run with \<open>n\<close> answers returns, so that what the other
  theories show of a run that returned is about every run.
\<close>

section \<open>The judgement\<close>

primrec ends_within :: "('i, 'w, 'a) proc \<Rightarrow> nat \<Rightarrow> bool" where
  "ends_within (Done a) = (\<lambda>n. True)"
| "ends_within (Act u p) = (\<lambda>n. ends_within p n)"
| "ends_within (Ask u c) = (\<lambda>n. 0 < n \<and> (\<forall>i w. ends_within (c i w) (n - 1)))"

lemma ends_mono: "ends_within p m \<Longrightarrow> m \<le> n \<Longrightarrow> ends_within p n"
proof (induction p arbitrary: m n rule: proc_induct)
  case (Ask u c)
  then show ?case by simp (meson diff_le_mono less_le_trans)
qed auto

lemma ends_bindp:
  assumes "ends_within p m" "\<And>a. ends_within (k a) n"
  shows "ends_within (bindp p k) (m + n)"
  using assms(1)
proof (induction p arbitrary: m rule: proc_induct)
  case (Done a)
  show ?case using ends_mono [OF assms(2) [of a], of "m + n"] by simp
next
  case (Ask u c)
  show ?case
  proof (simp, intro conjI allI)
    show "0 < m \<or> 0 < n" using Ask.prems by simp
    fix i w
    have "ends_within (bindp (c i w) k) (m - 1 + n)" by (rule Ask.IH) (use Ask.prems in simp)
    moreover have "m - 1 + n = m + n - Suc 0" using Ask.prems by auto
    ultimately show "ends_within (bindp (c i w) k) (m + n - Suc 0)" by simp
  qed
qed simp

text \<open>A process that ends within \<open>n\<close> answers returns when it gets them, and leaves the rest.\<close>

lemma ends_run:
  assumes "ends_within p n" "n \<le> length is"
  obtains a w' is' where "run p is w = (Some a, w', is')" "length is \<le> n + length is'"
proof -
  have "\<exists>a w' is'. run p is w = (Some a, w', is') \<and> length is \<le> n + length is'"
    using assms
  proof (induction p arbitrary: n "is" w rule: proc_induct)
    case (Ask u c)
    then obtain i js where "is": "is = i # js" "n - 1 \<le> length js" "0 < n" "ends_within (c i w) (n - 1)"
      by (cases "is") auto
    from Ask.IH [OF this(4,2)] "is" show ?case by fastforce
  qed auto
  then show ?thesis using that by blast
qed

section \<open>The calls\<close>

named_theorems ends \<open>bounds of the operations\<close>

lemma ends_bind:
  assumes "ends_within p m" "m \<le> n" "\<And>a. ends_within (k a) (n - m)"
  shows "ends_within (bindp p k) n"
  using ends_bindp [OF assms(1,3)] assms(2) by simp

lemma ends_try:
  assumes "ends_within p m" "m \<le> n" "\<And>e. ends_within (h e) (n - m)" "\<And>a. ends_within (k a) (n - m)"
  shows "ends_within (tryp p h k) n"
  unfolding tryp_def by (rule ends_bind [OF assms(1,2)]) (simp split: sum.split add: assms(3,4))

lemma ends_foldp:
  assumes "\<And>x s. x \<in> set xs \<Longrightarrow> ends_within (f x s) n"
  shows "ends_within (foldp f xs s) (length xs * n)"
  using assms by (induction xs arbitrary: s) (auto intro: ends_bindp)

lemma ends_basic [ends]:
  "ends_within (sql q) 1" "ends_within (sql_query q') 1" "ends_within (call_out reply ev) 1" "ends_within Now 1"
  "ends_within (ask_env f) 1" "ends_within (Inc m l) 0" "ends_within (Observe m l) 0"
  by (simp_all add: sql_def sql_query_def call_out_def Now_def ask_env_def Inc_def Observe_def)

lemma ends_wrapp: "ends_within p n \<Longrightarrow> ends_within (wrapp s p) n"
  unfolding wrapp_def by (rule ends_bind, assumption) simp_all

lemma ends_voidp: "ends_within p n \<Longrightarrow> ends_within (voidp p) n"
  unfolding voidp_def by (rule ends_bind, assumption) simp_all

lemma ends_Done: "ends_within (Done a) n"
  by simp

lemma ends_Act: "ends_within p n \<Longrightarrow> ends_within (Act u p) n"
  by simp

lemma ends_cases:
  "ends_within p n \<Longrightarrow> (\<And>x. ends_within (k x) n) \<Longrightarrow> ends_within (case r of None \<Rightarrow> p | Some x \<Rightarrow> k x) n"
  "(\<And>e. ends_within (h e) n) \<Longrightarrow> (\<And>x. ends_within (f x) n) \<Longrightarrow> ends_within (case s of Inl e \<Rightarrow> h e | Inr x \<Rightarrow> f x) n"
  "(\<And>a b. ends_within (g a b) n) \<Longrightarrow> ends_within (case t of (a, b) \<Rightarrow> g a b) n"
  "ends_within p n \<Longrightarrow> ends_within q n \<Longrightarrow> ends_within (if c then p else q) n"
  by (simp_all split: option.split sum.split prod.split)

lemma ends_case_result:
  "ends_within p n \<Longrightarrow> ends_within q n \<Longrightarrow> ends_within r n \<Longrightarrow>
    ends_within (case c of Created \<Rightarrow> p | Replayed \<Rightarrow> q | Conflict \<Rightarrow> r) n"
  by (simp split: CreateResult.split)

lemmas ends_split = ends_Done ends_Act ends_cases ends_case_result

text \<open>The store.\<close>

lemma ends_read [ends]:
  "ends_within (findByIdempotencyKey p) 1" "ends_within (hopsForPayment pid) 1" "ends_within (GetQuoteByPaymentID pid) 1"
  "ends_within (PersistSignedExecution xid raw hash ref) 1" "ends_within (MarkExecutionBroadcast xid) 1"
  unfolding findByIdempotencyKey_def hopsForPayment_def GetQuoteByPaymentID_def PersistSignedExecution_def
    MarkExecutionBroadcast_def Let_def
  by (rule ends_wrapp, rule ends)+

lemma ends_wrapp_query [ends]: "ends_within (wrapp s (sql_query q)) 1"
  by (rule ends_wrapp, rule ends)

lemma ends_store [ends]:
  "ends_within (GetPayment pid) 2" "ends_within (resolve_existing p b) 1"
  "ends_within (ClaimPayment pid) 1" "ends_within (CompletePayment pid s) 1" "ends_within (MarkProcessingFailed pid reason) 1"
  "ends_within (MarkSubmitted pid) 1" "ends_within (TryCreateExecution cp) 1"
  unfolding GetPayment_def resolve_existing_def ClaimPayment_def
    CompletePayment_def MarkProcessingFailed_def MarkSubmitted_def TryCreateExecution_def Let_def
  by (rule ends_split | (rule ends_bind ends_try, rule ends, simp) | (rule ends_mono, rule ends, simp))+

text \<open>The HTTP server.\<close>

lemma ends_create [ends]:
  "ends_within (LookupByIdempotencyKey p) 2" "ends_within (CreateOrGetPayment p) 5" "ends_within (fetch_quote rq pv) 1"
  unfolding LookupByIdempotencyKey_def CreateOrGetPayment_def fetch_quote_def get_quote_def Let_def
  by (rule ends_split | (rule ends_bind ends_try, rule ends, simp) | (rule ends_mono, rule ends, simp)
      | (rule ends_bind, (rule ends_split ends)+, simp))+

lemma ends_create_payment [ends]: "ends_within (create_payment v c) 5"
  unfolding create_payment_def
  by (rule ends_split | (rule ends_bind ends_try, rule ends, simp) | (rule ends_mono, rule ends, simp))+

lemma ends_route_and_create [ends]: "ends_within (route_and_create v edges quotes) 7"
  unfolding route_and_create_def create_routed_def Let_def
  by (rule ends_split | (rule ends_bind ends_try, rule ends, simp) | (rule ends_mono, rule ends, simp))+

lemma ends_fetch_quotes: "length ps \<le> n \<Longrightarrow> ends_within (fetch_quotes rq ps) n"
proof -
  assume n: "length ps \<le> n"
  have "ends_within (bindp (fetch_quote rq p) (\<lambda>r. Done (rs @ [(pv_Name p, r)]))) 1" for p rs
    by (rule ends_bind, rule ends) simp_all
  then have "ends_within (fetch_quotes rq ps) (length ps * 1)" unfolding fetch_quotes_def by (rule ends_foldp)
  with n show ?thesis by (simp add: ends_mono)
qed

text \<open>A started server asks at most two bridges for a quote.\<close>

lemma started_providers:
  assumes "start_server g getenv pg = Inr h" "testnet_request h v = Inr (rq, ps)"
  shows "length ps \<le> 2"
proof -
  obtain reg key where "server_registry g getenv = Inr (Some reg)" "ps = ProvidersFor reg key"
    using testnet_request_Inr(2) [OF assms(2)] start_server_registry [OF assms(1)] by blast
  then show ?thesis
    by (auto simp: server_registry_def bindr_def Let_def Register_def ProvidersFor_def NewRegistry_def split: if_splits sum.splits)
qed

lemma ends_PostPayments:
  assumes "start_server g getenv pg = Inr h"
  shows "ends_within (PostPayments h header doc) 11"
proof -
  have quotes: "ends_within (case testnet_request h v of Inl resp \<Rightarrow> Done (Inr resp)
      | Inr (rq, ps) \<Rightarrow> bindp (fetch_quotes rq ps) K) (11 - 2)" if "\<And>rs. ends_within (K rs) 7" for v K
  proof (cases "testnet_request h v")
    case (Inr rp)
    then obtain rq ps where rp: "rp = (rq, ps)" "length ps \<le> 2" using started_providers [OF assms] by (cases rp) blast
    show ?thesis unfolding Inr rp using that by (auto intro: ends_bind [OF ends_fetch_quotes [OF rp(2)]])
  qed simp
  show ?thesis
    unfolding PostPayments_def
    by (rule quotes ends_split | (rule ends_bind ends_try, rule ends, simp) | (rule ends_mono, rule ends, simp))+
qed

text \<open>The worker.\<close>

lemma ends_broadcast [ends]:
  "ends_within (fail_payment pid label cl reason) 1" "ends_within (broadcastWithRecovery e x) 2" "ends_within (mark_broadcast_submitted f x) 2"
  "ends_within (count_finished mode s cl) 0"
  unfolding fail_payment_def broadcastWithRecovery_def mark_broadcast_submitted_def count_finished_def Let_def
  by (rule ends_split | (rule ends_bind ends_try, rule ends, simp) | (rule ends_mono, rule ends, simp))+

lemma ends_counting [ends]:
  "ends_within (if c then Inc m l else Done ()) 0" "ends_within (case r of Inl x \<Rightarrow> Inc m l | Inr y \<Rightarrow> Done ()) 0"
  by (simp_all add: Inc_def split: sum.split)

lemma ends_signAndBroadcastFresh [ends]: "ends_within (signAndBroadcastFresh e x env q label) 7"
  unfolding signAndBroadcastFresh_def Let_def
  by (rule ends_split | (rule ends_bind ends_try, rule ends, simp) | (rule ends_mono, rule ends, simp))+

lemma ends_execute_fresh [ends]: "ends_within (execute_fresh e pid q v fq) 8"
  unfolding execute_fresh_def run_signed_def Let_def
  by (rule ends_split | (rule ends_bind ends_try, rule ends, simp) | (rule ends_mono, rule ends, simp))+

lemma ends_ExecuteTestnetPayment [ends]: "ends_within (ExecuteTestnetPayment e pid) 13"
  unfolding ExecuteTestnetPayment_def with_fresh_quote_def get_quote_def
  by (rule ends_split | (rule ends_bind ends_try, rule ends, simp) | (rule ends_mono, rule ends, simp))+

lemma ends_HandleRoutedPayment [ends]: "ends_within (HandleRoutedPayment po evt) 14"
  unfolding HandleRoutedPayment_def Let_def
  by (rule ends_split | (rule ends_bind ends_try, rule ends, simp) | (rule ends_mono, rule ends, simp))+

lemma ends_consume_message [ends]: "ends_within (consume_message po msg) 14"
  unfolding consume_message_def
  by (rule ends_split | (rule ends_bind ends_try, rule ends, simp) | (rule ends_mono, rule ends, simp))+

section \<open>Every message is dealt with\<close>

text \<open>
  C16. Every message handed to a consumer is dealt with: after at most fourteen replies of the database, the
  chain and the bridge, the handler has returned and the consume loop has decided whether to commit
  the offset. A message that does not decode is always committed, so it never blocks its partition.
\<close>

theorem consume_returns:
  assumes "14 \<le> length is"
  shows "\<exists>b w' is'. run (consume_message po msg) is w = (Some b, w', is') \<and> length is \<le> 14 + length is' \<and> (msg = None \<longrightarrow> b)"
proof -
  obtain b w' is' where run: "run (consume_message po msg) is w = (Some b, w', is')" "length is \<le> 14 + length is'"
    by (rule ends_run [OF ends_consume_message assms])
  moreover have "b" if "msg = None" using run(1) that by (simp add: consume_message_def)
  ultimately show ?thesis by blast
qed

theorem consume_returns_witness:
  "\<exists>b w' is'. run (consume_message demo_processor (Some (demo_event (demo_id 0)))) (replicate 14 (demo_env 0)) demo_published = (Some b, w', is')"
  using consume_returns [of "replicate 14 (demo_env 0)" demo_processor "Some (demo_event (demo_id 0))" demo_published] by auto

end
