(* ===== verification/End_To_End.thy ===== *)
theory End_To_End
  imports Ledger Termination
begin

text \<open>
  The composition of the parts: what a client who was answered 201 can rely on for its money, from
  the HTTP request through the database, the broker and the workers to the origin chain and the
  bridge, however the processes interleave after the answer.
\<close>

text \<open>A transaction sent with the nonce of an execution was made for that execution.\<close>

lemma sent_for_execution:
  assumes inv: "sys_inv e w" and x: "x \<in> set (executions w)" and sent: "EvSend stx reply \<in> set (w_trace w)"
    and n: "lt_Nonce (st_Tx stx) = word_of_int (x_Nonce x)"
  shows "tx_for e w x stx"
proof -
  from inv sent have "event_ok e w (EvSend stx reply)" unfolding sys_inv_def by blast
  then obtain y where y: "y \<in> set (executions w)" "tx_for e w y stx" by (auto simp: event_ok_def)
  with n have "(word_of_int (x_Nonce x) :: 64 word) = word_of_int (x_Nonce y)" by (simp add: tx_for_def)
  with same_nonce_same_execution [OF inv x y(1)] y(2) show ?thesis by simp
qed

lemma tx_for_value:
  assumes inv: "sys_inv e w" and r: "r \<in> set (payments w)" and "x_PaymentID x = pr_id r" and tx: "tx_for e w x stx"
  shows "lt_Value (st_Tx stx) = pr_amount r"
proof -
  from tx obtain r' where "r' \<in> set (payments w)" "pr_id r' = x_PaymentID x" "lt_Value (st_Tx stx) = pr_amount r'"
    by (auto simp: tx_for_def)
  with assms(3) distinct_map_eqD [OF payment_keys [OF inv]] r show ?thesis by metis
qed

text \<open>
  The row behind a 201 at any later time: it has what the request said, and an execution for it
  means that the request was for the testnet.
\<close>

lemma requested_row:
  assumes "executor_ok e" "reach e (w, ts)" "start_server g getenv pg = Inr h"
    "run (PostPayments h header doc) is w = (Some (Inr resp), w', is')" "hs_Status resp = 201"
    "(sys_step (entry e) lock_loss)\<^sup>*\<^sup>* (w', ts) (w'', ts'')"
  obtains v amt row where "sys_inv e w''" "check_create header doc = Inr v" "DecimalToBaseUnits (vc_amount v) 18 = Inr amt"
    "row \<in> set (payments w'')" "hs_Location resp = Some (''/payments/'' @ pr_id row)" "pr_idempotency_key row = vc_key v"
    "pr_execution_mode row = vc_mode v" "pr_amount row = amt"
    "\<forall>x \<in> set (executions w''). x_PaymentID x = pr_id row \<longrightarrow> vc_mode v = ExecutionModeTestnet"
proof -
  have inv: "sys_inv e w" using reach_inv [OF assms(1,2)] by simp
  note sys = run_in_system [OF assms(1,2) safe_PostPayments [OF inv] assms(4,6)]
  obtain c n row v amt where v: "check_create header doc = Inr v" "DecimalToBaseUnits (vc_amount v) 18 = Inr amt"
    "candidate_for v amt c" and resp: "resp = existing_response 201 (created_payment c row)"
    and row: "row = new_payment_row n c amt" "row \<in> set (payments w')"
    by (rule created_row [OF assms(3-5)])
  obtain r where r: "r \<in> set (payments w'')" "pay_le row r" using evolves_payment [OF sys(4) row(2)] by blast
  have same: "pr_id r = pr_id row" "pr_idempotency_key r = vc_key v" "pr_execution_mode r = vc_mode v" "pr_amount r = amt"
    using r(2) row(1) v(3) check_create_mode [OF v(1)]
    by (auto simp: pay_le_def new_payment_row_def candidate_for_def lookup_candidate_def normalizeExecutionMode_def)
  have loc: "hs_Location resp = Some (''/payments/'' @ pr_id r)"
    by (simp add: resp existing_response_def created_payment_def same(1))
  have "vc_mode v = ExecutionModeTestnet" if "x \<in> set (executions w'')" "x_PaymentID x = pr_id r" for x
    using known_mode_row [OF sys(3) execution_copy(3) [OF sys(3) that(1)] r(1)] that(2) same(3) by simp
  with that [OF sys(3) v(1,2) r(1) loc same(2-4)] show ?thesis by blast
qed

text \<open>
  C5. A client answered 201 gets exactly what it asked for, whatever happens afterwards. At any later
  time the row named in the Location header is there, with the requested key and the requested
  amount; every transaction ever sent under the nonce of an execution of this payment moves exactly
  that amount, in base units, to the contract pinned for the provider; a simulated payment never
  has an execution; and a testnet payment that reads COMPLETED has been reported filled for a transaction of
  exactly that amount.
\<close>

theorem request_paid_as_requested:
  assumes "executor_ok e" "reach e (w, ts)" "start_server g getenv pg = Inr h"
    "run (PostPayments h header doc) is w = (Some (Inr resp), w', is')" "hs_Status resp = 201"
    "(sys_step (entry e) lock_loss)\<^sup>*\<^sup>* (w', ts) (w'', ts'')"
  shows "\<exists>v amt row. check_create header doc = Inr v \<and> DecimalToBaseUnits (vc_amount v) 18 = Inr amt \<and>
    row \<in> set (payments w'') \<and> hs_Location resp = Some (''/payments/'' @ pr_id row) \<and>
    pr_idempotency_key row = vc_key v \<and> pr_execution_mode row = vc_mode v \<and> pr_amount row = amt \<and>
    (\<forall>x \<in> set (executions w''). x_PaymentID x = pr_id row \<longrightarrow>
       vc_mode v = ExecutionModeTestnet \<and>
       (\<forall>stx reply. EvSend stx reply \<in> set (w_trace w'') \<and> lt_Nonce (st_Tx stx) = word_of_int (x_Nonce x) \<longrightarrow>
          lt_Value (st_Tx stx) = amt \<and> ex_ExpectedContractByProvider e (x_BridgeProvider x) = Some (lt_To (st_Tx stx)))) \<and>
    (vc_mode v = ExecutionModeTestnet \<and> pr_status row = COMPLETED \<longrightarrow>
       (\<exists>x stx req res. x \<in> set (executions w'') \<and> x_PaymentID x = pr_id row \<and> lt_Value (st_Tx stx) = amt \<and>
          sr_OriginTxHash req = g_HashHex (ex_Geth e) (g_Hash (ex_Geth e) stx) \<and>
          EvStatus (x_BridgeProvider x) req (Inr res) \<in> set (w_trace w'') \<and> sr_State res = StateFilled))"
proof -
  obtain v amt r where inv: "sys_inv e w''" and v: "check_create header doc = Inr v" "DecimalToBaseUnits (vc_amount v) 18 = Inr amt"
    and r: "r \<in> set (payments w'')" "hs_Location resp = Some (''/payments/'' @ pr_id r)" "pr_idempotency_key r = vc_key v"
      "pr_execution_mode r = vc_mode v" "pr_amount r = amt"
    and testnet: "\<forall>x \<in> set (executions w''). x_PaymentID x = pr_id r \<longrightarrow> vc_mode v = ExecutionModeTestnet"
    by (rule requested_row [OF assms])
  have sends: "vc_mode v = ExecutionModeTestnet \<and>
       (\<forall>stx reply. EvSend stx reply \<in> set (w_trace w'') \<and> lt_Nonce (st_Tx stx) = word_of_int (x_Nonce x) \<longrightarrow>
          lt_Value (st_Tx stx) = amt \<and> ex_ExpectedContractByProvider e (x_BridgeProvider x) = Some (lt_To (st_Tx stx)))"
    if x: "x \<in> set (executions w'')" "x_PaymentID x = pr_id r" for x
    using testnet x sent_for_execution [OF inv x(1)] tx_for_value [OF inv r(1) x(2)] r(5) by (auto simp: tx_for_def)
  have "\<exists>x stx req res. x \<in> set (executions w'') \<and> x_PaymentID x = pr_id r \<and> lt_Value (st_Tx stx) = amt \<and>
          sr_OriginTxHash req = g_HashHex (ex_Geth e) (g_Hash (ex_Geth e) stx) \<and>
          EvStatus (x_BridgeProvider x) req (Inr res) \<in> set (w_trace w'') \<and> sr_State res = StateFilled"
    if ended: "vc_mode v = ExecutionModeTestnet" "pr_status r = COMPLETED"
  proof -
    from inv_row [OF inv r(1)] ended r(4) obtain x where "broadcast_for w'' (pr_id r) x" "filled_seen e w'' x"
      by (auto simp: status_ok_def)
    then show ?thesis
      using tx_for_value [OF inv r(1), of x] r(5) unfolding broadcast_for_def filled_seen_def by blast
  qed
  with v r sends show ?thesis by blast
qed

theorem request_paid_as_requested_witness:
  "\<exists>resp w'. run (PostPayments demo_handler ''k9'' (Some demo_body)) (replicate 7 demo_front) demo_seeded = (Some (Inr resp), w', []) \<and>
     (\<exists>row \<in> set (payments w'). hs_Location resp = Some (''/payments/'' @ pr_id row) \<and> pr_amount row = 10 ^ 18)"
proof -
  obtain resp w' where run: "run (PostPayments demo_handler ''k9'' (Some demo_body)) (replicate 7 demo_front) demo_seeded = (Some (Inr resp), w', [])"
    "hs_Status resp = 201" using demo_post by blast
  from request_paid_as_requested [OF demo_executor_ok demo_seeded_reach demo_server_handler run rtranclp.rtrancl_refl]
    demo_check demo_eth_amount(1) run(1) show ?thesis by (auto simp: demo_valid_def)
qed

end
