(* ===== verification/Effects.thy ===== *)
theory Effects
  imports Store
begin

text \<open>
  A judgement on the actions of a process, with its rules for the ways the code composes calls. The
  metrics and the isolation of the payments are proved with it.
\<close>

text \<open>
  \<open>effects I U p Q\<close>: whatever the answers, each action of the process \<open>p\<close> changes the world as \<open>U\<close> says, from worlds that
  satisfy \<open>I\<close>, and what \<open>p\<close> returns satisfies \<open>Q\<close>. It looks at one action at a time, so it does not depend on what
  other processes do in between.
\<close>

primrec effects :: "('w \<Rightarrow> bool) \<Rightarrow> ('w \<Rightarrow> 'w \<Rightarrow> bool) \<Rightarrow> ('i, 'w, 'a) proc \<Rightarrow> ('a \<Rightarrow> bool) \<Rightarrow> bool" where
  "effects I U (Done a) = (\<lambda>Q. Q a)"
| "effects I U (Act u p) = (\<lambda>Q. (\<forall>w. U w (u w)) \<and> effects I U p Q)"
| "effects I U (Ask u c) = (\<lambda>Q. \<forall>i w. I w \<longrightarrow> U w (u i w) \<and> effects I U (c i w) Q)"

lemma effects_bind: "effects I U p P \<Longrightarrow> (\<And>a. P a \<Longrightarrow> effects I U (k a) Q) \<Longrightarrow> effects I U (bindp p k) Q"
  by (induction p rule: proc_induct) auto

lemma effects_then: "effects I U p (\<lambda>_. True) \<Longrightarrow> (\<And>a. effects I U (k a) Q) \<Longrightarrow> effects I U (bindp p k) Q"
  by (rule effects_bind)

lemma effects_try:
  "effects I U p (\<lambda>_. True) \<Longrightarrow> (\<And>e. effects I U (h e) Q) \<Longrightarrow> (\<And>a. effects I U (k a) Q) \<Longrightarrow> effects I U (tryp p h k) Q"
  unfolding tryp_def by (rule effects_then) (simp_all split: sum.split)

lemma effects_try_known:
  "effects I U p P \<Longrightarrow> (\<And>e. effects I U (h e) Q) \<Longrightarrow> (\<And>a. P (Inr a) \<Longrightarrow> effects I U (k a) Q) \<Longrightarrow> effects I U (tryp p h k) Q"
  unfolding tryp_def by (erule effects_bind) (auto split: sum.split)

lemma effects_voidp: "effects I U p (\<lambda>_. True) \<Longrightarrow> effects I U (voidp p) (\<lambda>_. True)"
  unfolding voidp_def by (rule effects_then) simp_all

lemma effects_forp: "(\<And>x. effects I U (f x) (\<lambda>_. True)) \<Longrightarrow> effects I U (forp xs f) (\<lambda>_. True)"
  by (induction xs) (auto intro: effects_then)

lemma effects_foldp: "(\<And>x s. effects I U (f x s) (\<lambda>_. True)) \<Longrightarrow> effects I U (foldp f xs s) (\<lambda>_. True)"
  by (induction xs arbitrary: s) (auto intro: effects_then)

lemma effects_cases:
  "effects I U p Q \<Longrightarrow> (\<And>x. effects I U (k x) Q) \<Longrightarrow> effects I U (case r of None \<Rightarrow> p | Some x \<Rightarrow> k x) Q"
  "(\<And>e. effects I U (h e) Q) \<Longrightarrow> (\<And>x. effects I U (f x) Q) \<Longrightarrow> effects I U (case s of Inl e \<Rightarrow> h e | Inr x \<Rightarrow> f x) Q"
  "(\<And>a b. effects I U (g a b) Q) \<Longrightarrow> effects I U (case t of (a, b) \<Rightarrow> g a b) Q"
  "effects I U p Q \<Longrightarrow> effects I U q Q \<Longrightarrow> effects I U (if c then p else q) Q"
  "effects I U p Q \<Longrightarrow> effects I U q Q \<Longrightarrow> effects I U r' Q \<Longrightarrow>
    effects I U (case cr of Created \<Rightarrow> p | Replayed \<Rightarrow> q | Conflict \<Rightarrow> r') Q"
  by (simp_all split: option.split sum.split prod.split CreateResult.split)

text \<open>A run only makes such changes, when they preserve \<open>I\<close> and compose.\<close>

lemma effects_run:
  assumes "effects I U p Q" "I w" "\<And>w w'. I w \<Longrightarrow> U w w' \<Longrightarrow> I w'" "\<And>w. U w w" "\<And>w w' w''. U w w' \<Longrightarrow> U w' w'' \<Longrightarrow> U w w''"
  shows "U w (run_world p is w)"
  using assms(1,2)
proof (induction p arbitrary: "is" w rule: proc_induct)
  case (Done a)
  then show ?case using assms(4) by (simp add: run_world_def)
next
  case (Act u p)
  then have "U w (u w)" "U (u w) (run_world p is (u w))" using assms(3) by auto
  then show ?case using assms(5) [of w "u w"] by (simp add: run_world_def)
next
  case (Ask u c)
  show ?case
  proof (cases "is")
    case Nil
    then show ?thesis using assms(4) by (simp add: run_world_def)
  next
    case (Cons i js)
    with Ask have "U w (u i w)" "U (u i w) (run_world (c i w) js (u i w))" using assms(3) by auto
    then show ?thesis using Cons assms(5) [of w "u i w"] by (simp add: run_world_def)
  qed
qed

lemma effects_mono: "effects I U p Q \<Longrightarrow> (\<And>w w'. U w w' \<Longrightarrow> V w w') \<Longrightarrow> effects I V p Q"
  by (induction p rule: proc_induct) auto

text \<open>So does any interleaving of such processes, with the environment and with crashes.\<close>

lemma effects_steps:
  assumes "\<And>p. E p \<Longrightarrow> effects (\<lambda>_. True) U p (\<lambda>_. True)" "\<And>w w'. X w w' \<Longrightarrow> U w w'" "\<And>w. U w w" "\<And>w w' w''. U w w' \<Longrightarrow> U w' w'' \<Longrightarrow> U w w''"
    and "(sys_step E X)\<^sup>*\<^sup>* s s'" "\<forall>t \<in> set (snd s). effects (\<lambda>_. True) U t (\<lambda>_. True)"
  shows "U (fst s) (fst s') \<and> (\<forall>t \<in> set (snd s'). effects (\<lambda>_. True) U t (\<lambda>_. True))"
  using assms(5)
proof (induction rule: rtranclp_induct)
  case base
  show ?case using assms(3,6) by simp
next
  case (step s' s'')
  from step.hyps(2) step.IH have "U (fst s') (fst s'') \<and> (\<forall>t \<in> set (snd s''). effects (\<lambda>_. True) U t (\<lambda>_. True))"
    by (cases rule: sys_step.cases) (auto simp: assms(1-3))
  with step.IH show ?case using assms(4) by blast
qed

end
