(* ===== verification/Metrics.thy ===== *)
theory Metrics
  imports Safety Effects
begin

text \<open>
  \<open>internal/observability/metrics.go\<close>: the metrics the processes construct and register, and how the code
  of the server and the worker uses them. \<open>WithLabelValues\<close> of the Prometheus library panics when the number
  of values differs from the number of label names, and every new combination of values is a new
  time series; so the uses are checked against the declarations: each update, in every reachable
  state, is of a registered metric, with one value per label, from a finite set.
\<close>

section \<open>Declarations\<close>

text \<open>The start of an exponential bucket layout is a decimal literal, as mantissa and exponent; help texts are left out.\<close>

datatype buckets = ExponentialBuckets "int \<times> int" nat nat

datatype metric_kind = Counter | Gauge | Histogram buckets

record metric =
  mt_Field :: string
  mt_Name :: string
  mt_Kind :: metric_kind
  mt_Labels :: "string list"

abbreviation NewCounterVec :: "string \<Rightarrow> string \<Rightarrow> string list \<Rightarrow> metric" where
  "NewCounterVec field name labels \<equiv> \<lparr>mt_Field = field, mt_Name = name, mt_Kind = Counter, mt_Labels = labels\<rparr>"

abbreviation NewCounter :: "string \<Rightarrow> string \<Rightarrow> metric" where
  "NewCounter field name \<equiv> NewCounterVec field name []"

abbreviation NewHistogramVec :: "string \<Rightarrow> string \<Rightarrow> buckets \<Rightarrow> string list \<Rightarrow> metric" where
  "NewHistogramVec field name bs labels \<equiv> \<lparr>mt_Field = field, mt_Name = name, mt_Kind = Histogram bs, mt_Labels = labels\<rparr>"

definition NewMetrics :: "metric list" where
  "NewMetrics = [
     NewCounterVec ''PaymentsCreated'' ''chainroute_payments_created_total'' [''execution_mode''],
     NewCounterVec ''PaymentsCompleted'' ''chainroute_payments_completed_total'' [''execution_mode''],
     NewCounterVec ''PaymentsFailed'' ''chainroute_payments_failed_total'' [''execution_mode'', ''failure_reason_class''],
     NewHistogramVec ''PaymentDuration'' ''chainroute_payment_duration_seconds'' (ExponentialBuckets (5, - 2) 2 12) [''execution_mode'', ''outcome''],
     NewCounterVec ''RoutingRequests'' ''chainroute_routing_requests_total'' [''execution_mode''],
     NewHistogramVec ''RoutingDuration'' ''chainroute_routing_duration_seconds'' (ExponentialBuckets (1, - 3) 2 14) [''execution_mode''],
     NewCounterVec ''RoutingFailures'' ''chainroute_routing_failures_total'' [''reason''],
     NewCounterVec ''RoutingSelectedProvider'' ''chainroute_routing_selected_provider_total'' [''provider''],
     NewHistogramVec ''RoutingSelectedFee'' ''chainroute_routing_selected_fee_base_units'' (ExponentialBuckets (1, 9) 4 16) [''provider''],
     NewCounterVec ''QuoteRequests'' ''chainroute_quote_requests_total'' [''provider''],
     NewCounterVec ''QuoteFailures'' ''chainroute_quote_failures_total'' [''provider'', ''reason''],
     NewHistogramVec ''QuoteDuration'' ''chainroute_quote_duration_seconds'' (ExponentialBuckets (1, - 2) 2 12) [''provider''],
     NewCounterVec ''QuoteAvailable'' ''chainroute_quote_available_total'' [''provider'', ''available''],
     NewCounterVec ''QuoteSelected'' ''chainroute_quote_selected_total'' [''provider''],
     NewCounter ''EventsPublished'' ''chainroute_events_published_total'',
     NewCounter ''EventsConsumed'' ''chainroute_events_consumed_total'',
     NewHistogramVec ''ProcessingDuration'' ''chainroute_processing_duration_seconds'' (ExponentialBuckets (1, - 2) 2 14) [''execution_mode''],
     NewCounterVec ''ProcessingFailures'' ''chainroute_processing_failures_total'' [''execution_mode'', ''reason''],
     NewCounterVec ''StaleRecoveries'' ''chainroute_stale_recoveries_total'' [''source''],
     NewCounterVec ''ExecutionAttempts'' ''chainroute_execution_attempts_total'' [''provider''],
     NewCounterVec ''Broadcasts'' ''chainroute_broadcasts_total'' [''provider''],
     NewCounterVec ''Reconciliations'' ''chainroute_reconciliations_total'' [''provider''],
     NewCounterVec ''ExecutionsCompleted'' ''chainroute_executions_completed_total'' [''provider''],
     NewCounterVec ''ExecutionsFailed'' ''chainroute_executions_failed_total'' [''provider'', ''reason''],
     NewHistogramVec ''ExecutionDuration'' ''chainroute_execution_duration_seconds'' (ExponentialBuckets (5, - 2) 2 12) [''provider''],
     NewHistogramVec ''ReconciliationDuration'' ''chainroute_reconciliation_duration_seconds'' (ExponentialBuckets (5, - 3) 2 12) [''provider'']]"

text \<open>The arguments of \<open>reg.MustRegister\<close>, by field.\<close>

definition registered :: "string list" where
  "registered = [''PaymentsCreated'', ''PaymentsCompleted'', ''PaymentsFailed'', ''PaymentDuration'', ''RoutingRequests'',
     ''RoutingDuration'', ''RoutingFailures'', ''RoutingSelectedProvider'', ''RoutingSelectedFee'',
     ''QuoteRequests'', ''QuoteFailures'', ''QuoteDuration'', ''QuoteAvailable'', ''QuoteSelected'',
     ''EventsPublished'', ''EventsConsumed'', ''ProcessingDuration'', ''ProcessingFailures'', ''StaleRecoveries'',
     ''ExecutionAttempts'', ''Broadcasts'', ''Reconciliations'', ''ExecutionsCompleted'', ''ExecutionsFailed'',
     ''ExecutionDuration'', ''ReconciliationDuration'']"

text \<open>\<open>inflight_collector.go\<close>: the gauge that the server registers beside them; it is no field of \<open>Metrics\<close>.\<close>

definition NewPaymentsInFlightCollector :: metric where
  "NewPaymentsInFlightCollector =
    \<lparr>mt_Field = '''', mt_Name = ''chainroute_payments_processing'', mt_Kind = Gauge, mt_Labels = [''execution_mode'']\<rparr>"

text \<open>
  The registration cannot panic and misses nothing: every field is registered exactly once, no two
  metrics share a name, the server's gauge included, the names are in the namespace of the program, and a counter, and only a
  counter, ends in \<open>_total\<close>.
\<close>

definition has_prefix :: "string \<Rightarrow> string \<Rightarrow> bool" where
  "has_prefix p s \<longleftrightarrow> take (length p) s = p"

lemma metrics_registered:
  "registered = map mt_Field NewMetrics" "distinct registered" "distinct (map mt_Name (NewMetrics @ [NewPaymentsInFlightCollector]))"
  "\<forall>m \<in> set NewMetrics. has_prefix ''chainroute_'' (mt_Name m) \<and>
     (mt_Kind m = Counter \<longleftrightarrow> has_prefix (rev ''_total'') (rev (mt_Name m)))"
  by (simp_all add: registered_def NewMetrics_def NewPaymentsInFlightCollector_def has_prefix_def)

section \<open>Uses\<close>

text \<open>The values a label takes.\<close>

definition label_values :: "string \<rightharpoonup> string list" where
  "label_values = map_of [
     (''execution_mode'', [ExecutionModeSimulated, ExecutionModeTestnet, ''unknown'']),
     (''provider'', [''across'', ''relay'', ''unknown'']),
     (''outcome'', [''completed'', ''failed'']),
     (''failure_reason_class'', [''execution'', ''reconciliation'']),
     (''available'', [''true'', ''false'']),
     (''source'', [''recovery'', ''reconciler'']),
     (''reason'', [''invalid_request'', ''grpc_error'', ''no_route'', ''http_error'', ''claim_conflict'', ''execution_error'',
        ''quote_expired'', ''route_unavailable'', ''slippage_exceeded'', ''amount_exceeds_guardrail'', ''envelope_invalid'',
        ''broadcast_error'', ''reconciled_failed''])]"

definition label_ok :: "string \<Rightarrow> string \<Rightarrow> bool" where
  "label_ok name value = (case label_values name of None \<Rightarrow> False | Some vs \<Rightarrow> value \<in> set vs)"

definition labels_of :: "string \<rightharpoonup> string list" where
  "labels_of = map_of (map (\<lambda>m. (mt_Field m, mt_Labels m)) NewMetrics)"

definition series_ok :: "string \<times> string list \<Rightarrow> bool" where
  "series_ok k = (case labels_of (fst k) of None \<Rightarrow> False | Some names \<Rightarrow> list_all2 label_ok names (snd k))"

text \<open>The updates the processes make to the counters.\<close>

definition tallies :: "world \<Rightarrow> world \<Rightarrow> bool" where
  "tallies w w' \<longleftrightarrow> (\<forall>k. w_met w' k \<noteq> w_met w k \<longrightarrow> series_ok k)"

abbreviation tally :: "Executor \<Rightarrow> 'a pr \<Rightarrow> bool" where
  "tally e p \<equiv> effects (sys_inv e) tallies p (\<lambda>_. True)"

lemma tally_calls:
  "tally e (sql q)" "tally e (sql_query q')" "tally e (call_out reply ev)" "tally e Now" "tally e (ask_env f)" "tally e (Done a)"
  by (simp_all add: sql_def sql_query_def call_out_def Now_def ask_env_def tallies_def)

lemma tally_Inc: "series_ok (m, l) \<Longrightarrow> tally e (Inc m l)" "series_ok (m, l) \<Longrightarrow> tally e (Observe m l)"
  by (simp_all add: Inc_def Observe_def tallies_def)

lemma tally_wrapp: "tally e p \<Longrightarrow> tally e (wrapp s p)"
  unfolding wrapp_def by (rule effects_then) simp_all

lemma tally_rollback: "tally e p \<Longrightarrow> tally e (Act (rollback_outbox oid tx) p)"
  by (simp add: rollback_outbox_def tallies_def)

lemmas tally_rules = tally_calls tally_wrapp tally_rollback effects_then effects_try effects_voidp effects_forp effects_foldp effects_cases

lemma labels_of_simps [simp]:
  "labels_of ''PaymentsCreated'' = Some [''execution_mode'']"
  "labels_of ''PaymentsCompleted'' = Some [''execution_mode'']"
  "labels_of ''PaymentsFailed'' = Some [''execution_mode'', ''failure_reason_class'']"
  "labels_of ''PaymentDuration'' = Some [''execution_mode'', ''outcome'']"
  "labels_of ''RoutingRequests'' = Some [''execution_mode'']"
  "labels_of ''RoutingDuration'' = Some [''execution_mode'']"
  "labels_of ''RoutingFailures'' = Some [''reason'']"
  "labels_of ''RoutingSelectedProvider'' = Some [''provider'']"
  "labels_of ''RoutingSelectedFee'' = Some [''provider'']"
  "labels_of ''QuoteRequests'' = Some [''provider'']"
  "labels_of ''QuoteFailures'' = Some [''provider'', ''reason'']"
  "labels_of ''QuoteDuration'' = Some [''provider'']"
  "labels_of ''QuoteAvailable'' = Some [''provider'', ''available'']"
  "labels_of ''QuoteSelected'' = Some [''provider'']"
  "labels_of ''EventsPublished'' = Some []"
  "labels_of ''EventsConsumed'' = Some []"
  "labels_of ''ProcessingDuration'' = Some [''execution_mode'']"
  "labels_of ''ProcessingFailures'' = Some [''execution_mode'', ''reason'']"
  "labels_of ''StaleRecoveries'' = Some [''source'']"
  "labels_of ''ExecutionAttempts'' = Some [''provider'']"
  "labels_of ''Broadcasts'' = Some [''provider'']"
  "labels_of ''Reconciliations'' = Some [''provider'']"
  "labels_of ''ExecutionsCompleted'' = Some [''provider'']"
  "labels_of ''ExecutionsFailed'' = Some [''provider'', ''reason'']"
  "labels_of ''ExecutionDuration'' = Some [''provider'']"
  "labels_of ''ReconciliationDuration'' = Some [''provider'']"
  by (simp_all add: labels_of_def NewMetrics_def)

lemma label_ok_provider [simp]: "label_ok ''provider'' (SanitizeProviderLabel n)"
  using SanitizeProviderLabel_bounded [of n] by (auto simp: label_ok_def label_values_def)

lemma label_ok_simps [simp]:
  "label_ok ''execution_mode'' v \<longleftrightarrow> v \<in> {ExecutionModeSimulated, ExecutionModeTestnet, ''unknown''}"
  "label_ok ''outcome'' v \<longleftrightarrow> v \<in> {''completed'', ''failed''}"
  "label_ok ''failure_reason_class'' v \<longleftrightarrow> v \<in> {''execution'', ''reconciliation''}"
  "label_ok ''available'' v \<longleftrightarrow> v \<in> {''true'', ''false''}"
  "label_ok ''source'' v \<longleftrightarrow> v \<in> {''recovery'', ''reconciler''}"
  by (auto simp: label_ok_def label_values_def)

lemma label_ok_reason:
  "label_ok ''reason'' v \<longleftrightarrow> v \<in> {''invalid_request'', ''grpc_error'', ''no_route'', ''http_error'', ''claim_conflict'', ''execution_error'',
        ''quote_expired'', ''route_unavailable'', ''slippage_exceeded'', ''amount_exceeds_guardrail'', ''envelope_invalid'',
        ''broadcast_error'', ''reconciled_failed''}"
  by (auto simp: label_ok_def label_values_def)

lemmas series_simps = series_ok_def label_ok_reason

text \<open>The store counts nothing.\<close>

lemma tally_store:
  "tally e (GetPayment pid)" "tally e (LookupByIdempotencyKey p)" "tally e (CreateOrGetPayment p)" "tally e (CompletePayment pid s)"
  "tally e (StalePaymentIDs st)" "tally e (GetQuoteByPaymentID pid)" "tally e (GetQuotesByPaymentID pid)"
  "tally e (MarkProcessingFailed pid reason)" "tally e (MarkSubmitted pid)" "tally e (CompleteSubmittedPayment pid s)"
  "tally e (TryCreateExecution cp)" "tally e (GetExecutionByPaymentID pid)" "tally e (PersistSignedExecution xid raw hash ref)"
  "tally e (MarkExecutionBroadcast xid)" "tally e (UpdateExecutionExternalStatus xid xs raw t)"
  "tally e (StaleTestnetProcessingWithoutExecutionIDs st)" "tally e (ReconciliationCandidates st)"
  "tally e (LowestUnconfirmedNonce a)" "tally e (SeedWalletNonce a n)" "tally e (ListPayments pg f)"
  "tally e (GetDashboardStats pg)" "tally e (GetTimeseries pg m iv ds)"
  unfolding findByIdempotencyKey_def hopsForPayment_def GetPayment_def resolve_existing_def LookupByIdempotencyKey_def
    CreateOrGetPayment_def CompletePayment_def StalePaymentIDs_def GetQuoteByPaymentID_def GetQuotesByPaymentID_def
    MarkProcessingFailed_def MarkSubmitted_def CompleteSubmittedPayment_def TryCreateExecution_def GetExecutionByPaymentID_def
    PersistSignedExecution_def MarkExecutionBroadcast_def UpdateExecutionExternalStatus_def
    StaleTestnetProcessingWithoutExecutionIDs_def ReconciliationCandidates_def LowestUnconfirmedNonce_def SeedWalletNonce_def
    ListPayments_def GetDashboardStats_def GetTimeseries_def Let_def
  by (rule tally_rules)+

text \<open>The mode a claim returns is that of a row.\<close>

lemma effects_ClaimPayment:
  "effects (sys_inv e) tallies (ClaimPayment pid)
     (\<lambda>r. \<forall>mode. r = Inr (True, mode) \<longrightarrow> mode \<in> {ExecutionModeSimulated, ExecutionModeTestnet})"
proof -
  let ?t = "transition pid ROUTED (\<lambda>now r. r\<lparr>pr_status := PROCESSING, pr_updated_at := now\<rparr>)"
  let ?P = "\<lambda>r. \<forall>row. r = Inr (Some row) \<longrightarrow> pr_execution_mode row \<in> {ExecutionModeSimulated, ExecutionModeTestnet}"
  have "effects (sys_inv e) tallies (sql ?t) ?P"
    unfolding sql_def
    using inv_row
    by (auto simp: tallies_def sql_reply_cases transition_def uuid_arg_Inr Let_def row_ok_def dest!: sql_row_select_Some)
  then show ?thesis
    unfolding ClaimPayment_def tryp_def by (rule effects_bind) (auto split: sum.split option.split)
qed

text \<open>The server.\<close>

lemma check_create_modes: "check_create header doc = Inr v \<Longrightarrow> vc_mode v \<in> {ExecutionModeSimulated, ExecutionModeTestnet}"
  by (auto simp: check_create_def Let_def split: if_splits option.splits prod.splits bool.splits)

lemma route_failure_reason: "label_ok ''reason'' (fst (route_failure code msg))"
  by (cases code) (simp_all add: route_failure_def label_ok_reason)

lemma tally_route_and_create:
  assumes "vc_mode v \<in> {ExecutionModeSimulated, ExecutionModeTestnet}"
  shows "tally e (route_and_create v edges quotes)"
  unfolding route_and_create_def create_routed_def create_payment_def Let_def
  by (rule tally_store tally_rules tally_Inc | (use assms route_failure_reason in \<open>auto simp: series_simps\<close>)[1])+

lemma tally_fetch_quotes: "tally e (fetch_quotes rq ps)"
  unfolding fetch_quotes_def fetch_quote_def get_quote_def Let_def
  by (rule tally_rules tally_Inc | (simp add: series_simps)[1])+

lemma tally_PostPayments: "tally e (PostPayments h header doc)"
proof (cases "check_create header doc")
  case (Inr v)
  note mode = check_create_modes [OF Inr]
  show ?thesis unfolding PostPayments_def Inr
    by (simp only: sum.case) (rule tally_store tally_fetch_quotes tally_route_and_create [OF mode] tally_rules)+
qed (simp add: PostPayments_def)

lemma tally_reads:
  "tally e (Handler_GetPayment pid)" "tally e (GetPaymentQuotes pid)" "tally e (Handler_ListPayments h q)"
  "tally e (Handler_GetDashboardStats h)" "tally e (GetDashboardTimeseries h q)" "tally e (PostRoutes doc)"
  unfolding Handler_GetPayment_def GetPaymentQuotes_def Handler_ListPayments_def Handler_GetDashboardStats_def
    GetDashboardTimeseries_def PostRoutes_def Let_def
  by (rule tally_store tally_rules)+

text \<open>The worker.\<close>

lemma tally_executor:
  "tally e (ExecuteTestnetPayment e' pid)" "tally e (DriveExecutionForward e' x)"
  unfolding ExecuteTestnetPayment_def DriveExecutionForward_def drive_signed_def drive_unsigned_def with_fresh_quote_def get_quote_def
    execute_fresh_def drive_fresh_def run_signed_def signAndBroadcastFresh_def broadcastWithRecovery_def mark_broadcast_submitted_def
    fail_payment_def Let_def
  by (rule tally_store tally_rules tally_Inc | (simp add: series_simps)[1])+

lemma tally_count_finished:
  "mode \<in> {ExecutionModeSimulated, ExecutionModeTestnet} \<Longrightarrow> tally e (count_finished mode s ''execution'')"
  unfolding count_finished_def outcome_label_def
  by (rule tally_rules tally_Inc | (auto simp: series_simps)[1])+

text \<open>A claimed payment, by the mode its row has.\<close>

lemma tally_claimed:
  assumes "mode \<in> {ExecutionModeSimulated, ExecutionModeTestnet}"
  shows "tally e (case ex of
             None \<Rightarrow> bindp (Inc ''ProcessingFailures'' [mode, ''execution_error'']) (\<lambda>_. Done (Inl er))
           | Some e' \<Rightarrow>
               bindp (ExecuteTestnetPayment e' pid) (\<lambda>r.
               bindp (Observe ''ProcessingDuration'' [mode]) (\<lambda>_.
               bindp (case r of Inl _ \<Rightarrow> Inc ''ProcessingFailures'' [mode, ''execution_error''] | Inr _ \<Rightarrow> Done ()) (\<lambda>_.
               Done r))))"
    "tally e (bindp (CompletePayment pid s) (\<lambda>r.
           bindp (Observe ''ProcessingDuration'' [mode]) (\<lambda>_.
           case r of
             Inl err \<Rightarrow> bindp (Inc ''ProcessingFailures'' [mode, ''execution_error'']) (\<lambda>_. Done (Inl (Wrap ''complete payment'' err)))
           | Inr None \<Rightarrow> Done (Inr ())
           | Inr (Some createdAt) \<Rightarrow> bindp (count_finished mode s ''execution'') (\<lambda>_. Done (Inr ())))))"
  by (rule tally_store tally_executor tally_count_finished [OF assms] tally_rules tally_Inc | (use assms in \<open>auto simp: series_simps\<close>)[1])+

lemma tally_HandleRoutedPayment: "tally e (HandleRoutedPayment po evt)"
  unfolding HandleRoutedPayment_def
proof (rule effects_then, rule tally_Inc, simp add: series_simps, rule effects_try_known [OF effects_ClaimPayment], goal_cases)
  case (1 _ err)
  show ?case by (rule tally_rules tally_Inc | (simp add: series_simps)[1])+
next
  case (2 _ a)
  then show ?case
    by (cases a; cases "fst a") (auto simp: Let_def tally_claimed tally_claimed [of ExecutionModeTestnet, simplified])
qed

lemma tally_worker:
  "tally e (consume_message po msg)" "tally e (Recovery_SweepOnce st)" "tally e PollOnce" "tally e (Reconciler_SweepOnce rc)"
  "tally e (checkNonceDivergence rc)" "tally e (seed_wallet e')"
  unfolding consume_message_def Recovery_SweepOnce_def recover_one_def PollOnce_def PublishNextOutboxEvent_def publish_event_def
    Reconciler_SweepOnce_def recoverStaleProcessingWithoutExecution_def driveStaleNotYetBroadcast_def checkBroadcastOutcomes_def
    checkAndUpdateOutcome_def check_status_def markTerminal_def checkNonceDivergence_def seed_wallet_def Let_def
  by (rule tally_HandleRoutedPayment tally_store tally_executor tally_count_finished tally_rules tally_Inc | (simp add: series_simps)[1])+

lemma tally_FetchMessage: "tally e (FetchMessage k)"
  by (simp add: FetchMessage_def tallies_def)

lemma tally_loops:
  "tally e (Publisher_Run ctx_done n)" "tally e (recovery_turns ctx_done st n)" "tally e (reconciler_turns pick rc n)"
  by (induction n)
     (auto intro!: effects_then tally_worker tally_calls split: turn.split)

lemma tally_runConsumeLoop: "tally e (runConsumeLoop k ctx_done po n committed)"
  by (induction n arbitrary: committed)
     (auto intro!: effects_then effects_try tally_worker tally_calls tally_FetchMessage simp: CommitMessages_def)

lemma tally_runs: "tally e (Recovery_Run ctx_done st d n)" "tally e (Reconciler_Run pick rc d d' n)"
  unfolding Recovery_Run_def Reconciler_Run_def by (rule tally_loops tally_rules)+

section \<open>Every update is well labelled\<close>

lemma tally_entry: "entry e p \<Longrightarrow> tally e p"
  by (cases rule: entry.cases, assumption)
     (auto intro: effects_voidp tally_store tally_PostPayments tally_reads tally_worker tally_loops tally_runConsumeLoop tally_runs)

definition counted_ok :: "Executor \<Rightarrow> (env, world) sys \<Rightarrow> bool" where
  "counted_ok e s \<longleftrightarrow> (\<forall>t \<in> set (snd s). tally e t) \<and> (\<forall>k. w_met (fst s) k \<noteq> 0 \<longrightarrow> series_ok k)"

lemma tallies_met: "tallies w w' \<Longrightarrow> \<forall>k. w_met w k \<noteq> 0 \<longrightarrow> series_ok k \<Longrightarrow> \<forall>k. w_met w' k \<noteq> 0 \<longrightarrow> series_ok k"
  unfolding tallies_def by metis

lemma step_counted:
  assumes "sys_step (entry e) lock_loss s s'" "sys_inv e (fst s)" "counted_ok e s"
  shows "counted_ok e s'"
  using assms(1)
proof (cases rule: sys_step.cases)
  case (spawn p w ts)
  with assms(3) tally_entry show ?thesis by (auto simp: counted_ok_def)
next
  case (act w us u p vs)
  with assms(3) have "tallies w (u w)" "tally e p" by (auto simp: counted_ok_def)
  moreover from this(1) have "\<forall>k. w_met (u w) k \<noteq> 0 \<longrightarrow> series_ok k"
    by (rule tallies_met) (use act assms(3) in \<open>simp add: counted_ok_def\<close>)
  ultimately show ?thesis using assms(3) unfolding act counted_ok_def by simp
next
  case (ask w us u c vs i)
  with assms(2,3) have "tallies w (u i w)" "tally e (c i w)" by (simp_all add: counted_ok_def)
  moreover from this(1) have "\<forall>k. w_met (u i w) k \<noteq> 0 \<longrightarrow> series_ok k"
    by (rule tallies_met) (use ask assms(3) in \<open>simp add: counted_ok_def\<close>)
  ultimately show ?thesis using assms(3) unfolding ask counted_ok_def by simp
next
  case (stop w us p vs)
  with assms(3) show ?thesis by (auto simp: counted_ok_def)
next
  case (environment w w' ts)
  then have "w_met w' = w_met w" by (auto simp: lock_loss_def)
  with environment assms(3) show ?thesis by (auto simp: counted_ok_def)
qed

lemma reach_counted:
  assumes "executor_ok e" "reach e s"
  shows "counted_ok e s"
  using assms(2)
proof (induction rule: reachable.induct)
  case (step s s')
  then show ?case using step_counted reach_inv [OF assms(1)] by blast
qed (simp add: counted_ok_def empty_world_def)

lemma finite_labels: "finite {l. list_all2 label_ok names l}"
proof -
  have "finite {v. label_ok n v}" for n
    by (cases "label_values n") (simp_all add: label_ok_def)
  then show ?thesis
  proof (induction names)
    case Nil
    have "{l. list_all2 label_ok [] l} = {[]}" by auto
    then show ?case by simp
  next
    case (Cons n names)
    have "{l. list_all2 label_ok (n # names) l} = (\<lambda>(v, l). v # l) ` ({v. label_ok n v} \<times> {l. list_all2 label_ok names l})"
      by (auto simp: list_all2_Cons1 image_iff)
    with Cons show ?case by simp
  qed
qed

lemma labels_ofD: "labels_of f = Some names \<Longrightarrow> \<exists>m \<in> set NewMetrics. mt_Field m = f \<and> mt_Labels m = names"
  unfolding labels_of_def by (drule map_of_SomeD) auto

lemma finite_series: "finite {k. series_ok k}"
proof -
  have "{k. series_ok k} \<subseteq> (\<Union>m \<in> set NewMetrics. Pair (mt_Field m) ` {l. list_all2 label_ok (mt_Labels m) l})"
  proof
    fix k assume "k \<in> {k. series_ok k}"
    then obtain names where n: "labels_of (fst k) = Some names" "list_all2 label_ok names (snd k)"
      by (auto simp: series_ok_def split: option.splits)
    from labels_ofD [OF n(1)] obtain m where "m \<in> set NewMetrics" "mt_Field m = fst k" "mt_Labels m = names" by blast
    with n(2) show "k \<in> (\<Union>m \<in> set NewMetrics. Pair (mt_Field m) ` {l. list_all2 label_ok (mt_Labels m) l})"
      by (auto intro!: bexI [of _ m] image_eqI [of _ _ "snd k"] simp: prod_eq_iff)
  qed
  then show ?thesis by (rule finite_subset) (simp add: finite_labels)
qed

text \<open>
  C20. No metric update panics, and the number of time series is bounded: in every reachable state each
  counter or histogram that was ever touched is a registered metric, was given exactly one value
  per declared label, and every value is from the label's fixed list, whatever provider names, rows
  and replies the processes met. So at most finitely many series exist.
\<close>

theorem metrics_well_labelled:
  assumes "executor_ok e" "reach e (w, ts)" "w_met w (m, labels) \<noteq> 0"
  shows "(\<exists>mt \<in> set NewMetrics. mt_Field mt = m \<and> m \<in> set registered \<and> length labels = length (mt_Labels mt) \<and>
      list_all2 label_ok (mt_Labels mt) labels) \<and> finite {k. w_met w k \<noteq> 0}"
proof -
  have ok: "\<forall>k. w_met w k \<noteq> 0 \<longrightarrow> series_ok k" using reach_counted [OF assms(1,2)] by (simp add: counted_ok_def)
  then have "finite {k. w_met w k \<noteq> 0}" by (intro finite_subset [OF _ finite_series]) auto
  moreover have "series_ok (m, labels)" using ok assms(3) by blast
  then obtain names where n: "labels_of m = Some names" "list_all2 label_ok names labels"
    by (auto simp: series_ok_def split: option.splits)
  moreover from labels_ofD [OF n(1)] obtain mt where "mt \<in> set NewMetrics" "mt_Field mt = m" "mt_Labels mt = names" by blast
  moreover from this have "m \<in> set registered" unfolding metrics_registered(1) by (auto intro: rev_image_eqI)
  ultimately show ?thesis using list_all2_lengthD [OF n(2)] by metis
qed

theorem metrics_well_labelled_witness:
  "\<exists>w mt. reach demo_executor (w, []) \<and> w_met w (''ProcessingFailures'', [''unknown'', ''claim_conflict'']) \<noteq> 0 \<and>
     mt \<in> set NewMetrics \<and> mt_Field mt = ''ProcessingFailures'' \<and> length (mt_Labels mt) = 2 \<and>
     list_all2 label_ok (mt_Labels mt) [''unknown'', ''claim_conflict''] \<and> finite {k. w_met w k \<noteq> 0}"
proof -
  let ?p = "voidp (consume_message demo_processor (Some (demo_event (demo_id 0))))"
  let ?is = "[env0\<lparr>e_db := FaultBefore NotFound\<rparr>]"
  have "w_met (run_world ?p ?is empty_world) (''ProcessingFailures'', [''unknown'', ''claim_conflict'']) \<noteq> 0"
    by (simp add: consume_message_def HandleRoutedPayment_def ClaimPayment_def run_ops)
  moreover have "reach demo_executor (run_world ?p ?is empty_world, [])"
    by (intro reachable_run reachable.start demo_consume_entry)
  ultimately show ?thesis using metrics_well_labelled [OF demo_executor_ok, of "run_world ?p ?is empty_world" "[]"] by fastforce
qed

end
