(* ===== verification/Worker_Main.thy ===== *)
theory Worker_Main
  imports Bridge_Behaviour
begin

text \<open>
  \<open>main\<close> of \<open>cmd/worker\<close>, once its configuration is read (\<open>Wiring\<close>): the Kafka settings, the number of
  goroutines, and the goroutines themselves, each running one of the loops of \<open>Loops\<close>. The
  metrics endpoint and the signals are in \<open>Startup\<close>.
\<close>

section \<open>Kafka settings\<close>


datatype required_acks = RequireNone | RequireOne | RequireAll




section \<open>The goroutines\<close>



text \<open>
  The loops that \<open>main\<close> starts. The poll interval of the publishers is only the length of a wait
  (\<open>time.After\<close> between two polls): the order of the answers that a run is given stands for every timing.
\<close>

record shutdown_signal =
  sd_Done :: "env \<Rightarrow> bool"
  sd_Select :: "env \<Rightarrow> turn"

definition start_goroutines ::
    "Kafka \<Rightarrow> shutdown_signal \<Rightarrow> nat \<Rightarrow> Processor \<Rightarrow> WorkerDurations \<Rightarrow> Reconciler option \<Rightarrow> int \<Rightarrow> int \<Rightarrow> unit pr list" where
  "start_goroutines k ctx turns processor d reconciler publisherConcurrency consumerConcurrency =
     replicate (nat publisherConcurrency) (Publisher_Run (sd_Done ctx) turns) @
     [voidp (Recovery_Run (sd_Done ctx) (micros (wd_RecoveryStaleness d)) (wd_RecoverySweepInterval d) turns)] @
     replicate (nat consumerConcurrency) (voidp (runConsumeLoop k (sd_Done ctx) processor turns [])) @
     (case reconciler of
        None \<Rightarrow> []
      | Some r \<Rightarrow> [voidp (Reconciler_Run (sd_Select ctx) r (wd_ReconcileSweepInterval d) (wd_NonceDivergenceCheckInterval d) turns)])"







text \<open>A broker that delivers what was acknowledged, in order: the answer picks the offset, and its clock says whether the context is done.\<close>

definition acknowledged :: "world \<Rightarrow> RoutedPayment list" where
  "acknowledged w = concat (map (\<lambda>ev. case ev of EvPublish pid evt (Inr _) \<Rightarrow> [evt] | _ \<Rightarrow> []) (rev (w_trace w)))"

definition demo_kafka :: Kafka where
  "demo_kafka = \<lparr>k_FetchMessage = (\<lambda>i w. let log = acknowledged w; n = e_order i 0 in
       if e_now i > 0 then Inl (Err ''context canceled'')
       else if n < length log then Inr \<lparr>km_Partition = 0, km_Offset = n, km_Value = Some (log ! n)\<rparr> else Inl (Err ''timeout'')),
     k_CommitMessages = (\<lambda>i msg. Inr ())\<rparr>"





section \<open>Shutting down\<close>

text \<open>
  The worker shuts down: once the context is done, every goroutine that comes to the head of its loop
  returns at once, without touching the database, the chain or a counter, whatever number of
  turns it had left, provided the fetch of a done context fails, as kafka-go documents. So \<open>wg.Wait\<close> returns
  when the turns in progress have ended.
\<close>

lemma worker_shuts_down:
  assumes "sd_Done ctx i" "sd_Done ctx j" "sd_Select ctx i = CtxDone" "\<And>w. \<exists>err. k_FetchMessage k i w = Inl err"
    "p \<in> set (start_goroutines k ctx (Suc n) po d rc pub con)"
  shows "\<exists>is'. run p (i # j # is) w = (Some (), w, is')"
proof -
  obtain err where "k_FetchMessage k i w = Inl err" using assms(4) by blast
  then have "\<exists>is'. run (voidp (runConsumeLoop k (sd_Done ctx) po (Suc n) [])) (i # j # is) w = (Some (), w, is')"
    using assms(2) by (simp add: voidp_def run_bindp run_tryp FetchMessage_def ask_env_def)
  moreover have "\<exists>is'. run (Publisher_Run (sd_Done ctx) (Suc n)) (i # j # is) w = (Some (), w, is')"
    using assms(1) by (simp add: run_bindp ask_env_def)
  moreover have "\<exists>is'. run (voidp (Recovery_Run (sd_Done ctx) st iv (Suc n))) (i # j # is) w = (Some (), w, is')" for st iv
    using assms(1) by (simp add: Recovery_Run_def voidp_def run_tryp run_bindp ask_env_def NewTicker_def)
  moreover have "\<exists>is'. run (voidp (Reconciler_Run (sd_Select ctx) r iv iv' (Suc n))) (i # j # is) w = (Some (), w, is')" for r iv iv'
    using assms(3) by (simp add: Reconciler_Run_def voidp_def run_tryp run_bindp ask_env_def NewTicker_def)
  ultimately show ?thesis using assms(5) by (auto simp: start_goroutines_def split: option.splits)
qed

definition worker_defaults :: WorkerDurations where
  "worker_defaults = \<lparr>wd_OutboxPollInterval = 500 * Millisecond, wd_RecoverySweepInterval = 30 * Second,
     wd_RecoveryStaleness = 120 * Second, wd_ReconcileStaleness = 120 * Second, wd_ReconcileSweepInterval = 30 * Second,
     wd_NonceDivergenceCheckInterval = 60 * Second, wd_TestnetHandleTimeout = 30 * Second\<rparr>"

lemma worker_defaults: "worker_durations (\<lambda>_. '''') = Inr worker_defaults"
  by (simp add: worker_durations_def worker_defaults_def envDuration_def bindr_def)

section \<open>Failed messages\<close>

text \<open>More answers than a process needs are left over.\<close>

lemma run_append: "run p is w = (Some a, w', is') \<Longrightarrow> run p (is @ js) w = (Some a, w', is' @ js)"
  by (induction p arbitrary: "is" w rule: proc_induct) (auto split: list.splits)

text \<open>
  C18. A message whose handling failed is not retried by the loop, and its offset does not stay uncommitted: the loop goes on
  with the next message, and committing that one, at a higher offset of the same partition, moves the
  group past the failed one. The result of the two turns is the commit of the second message
  alone.
\<close>

theorem failed_message_passed_over:
  assumes "k_FetchMessage k i w = Inr m1" "run (consume_message po (km_Value m1)) is1 w = (Some False, w1, [])"
    "k_FetchMessage k i' w1 = Inr m2" "run (consume_message po (km_Value m2)) is2 w1 = (Some True, w2, [])"
    "k_CommitMessages k j m2 = Inr ()"
  shows "run (runConsumeLoop k ctx_done po 2 []) (i # is1 @ i' # is2 @ [j]) w = (Some [m2], w2, [])"
proof -
  have "run (consume_message po (km_Value m1)) (is1 @ i' # is2 @ [j]) w = (Some False, w1, i' # is2 @ [j])"
    "run (consume_message po (km_Value m2)) (is2 @ [j]) w1 = (Some True, w2, [j])"
    using run_append [OF assms(2)] run_append [OF assms(4)] by auto
  with assms(1,3,5) show ?thesis
    by (simp add: numeral_2_eq_2 run_tryp run_bindp FetchMessage_def CommitMessages_def ask_env_def)
qed

text \<open>
  On the concrete run: both events are published, and the database fails once while the first payment is claimed. The
  loop commits the second offset alone, and the first payment stays ROUTED.
\<close>

definition demo_log :: world where
  "demo_log = run_world (voidp PollOnce) (replicate 20 (demo_env 0)) demo_published"

lemma demo_log_eval:
  "\<exists>m. demo_log = \<lparr>w_db = demo_db [demo_row 0 ''k1'' ExecutionModeTestnet ROUTED, demo_row 16 ''k2'' ExecutionModeSimulated ROUTED]
       [demo_quote_row] [] 7 [demo_outbox 0 (Some 0), demo_outbox 16 (Some 0)] 2,
       w_trace = [EvPublish (demo_id 16) (demo_event (demo_id 16)) (Inr ()), EvPublish (demo_id 0) (demo_event (demo_id 0)) (Inr ())],
       w_met = m\<rparr>"
proof -
  obtain m where pub: "demo_published = \<lparr>w_db = demo_db [demo_row 0 ''k1'' ExecutionModeTestnet ROUTED,
       demo_row 16 ''k2'' ExecutionModeSimulated ROUTED] [demo_quote_row] [] 7 [demo_outbox 0 (Some 0), demo_outbox 16 None] 1,
       w_trace = [EvPublish (demo_id 0) (demo_event (demo_id 0)) (Inr ())], w_met = m\<rparr>"
    using demo_published_eval by blast
  show ?thesis unfolding demo_log_def pub
    by (simp add: run_ops PollOnce_def PublishNextOutboxEvent_def claim_outbox_def commit_outbox_def publish_event_def
      scan_outbox_def shuffle_def demo_rows)
qed

abbreviation demo_message :: "nat \<Rightarrow> nat \<Rightarrow> kmessage" where
  "demo_message n k \<equiv> \<lparr>km_Partition = 0, km_Offset = n, km_Value = Some (demo_event (demo_id k))\<rparr>"

abbreviation demo_fault :: env where
  "demo_fault \<equiv> env0\<lparr>e_db := FaultBefore NotFound\<rparr>"

lemma demo_first_fails:
  "\<exists>m. run (consume_message demo_processor (Some (demo_event (demo_id 0)))) [demo_fault] demo_log = (Some False, demo_log\<lparr>w_met := m\<rparr>, [])"
  by (simp add: run_ops consume_message_def HandleRoutedPayment_def ClaimPayment_def) (rule exI, rule refl)

lemma demo_second_handled:
  "\<exists>w2. run (consume_message demo_processor (Some (demo_event (demo_id 16)))) [demo_env 0, demo_env 0] (demo_log\<lparr>w_met := m\<rparr>) = (Some True, w2, []) \<and>
     demo_row 0 ''k1'' ExecutionModeTestnet ROUTED \<in> set (payments w2)"
proof -
  obtain m' where log: "demo_log = \<lparr>w_db = demo_db [demo_row 0 ''k1'' ExecutionModeTestnet ROUTED,
       demo_row 16 ''k2'' ExecutionModeSimulated ROUTED] [demo_quote_row] [] 7 [demo_outbox 0 (Some 0), demo_outbox 16 (Some 0)] 2,
       w_trace = [EvPublish (demo_id 16) (demo_event (demo_id 16)) (Inr ()), EvPublish (demo_id 0) (demo_event (demo_id 0)) (Inr ())],
       w_met = m'\<rparr>"
    using demo_log_eval by blast
  show ?thesis unfolding log
    by (simp add: run_ops execute_ops CompletePayment_def count_finished_def demo_config demo_rows if_distribR)
qed

lemma demo_fetched:
  "k_FetchMessage demo_kafka (demo_env 0) demo_log = Inr (demo_message 0 0)"
  "k_FetchMessage demo_kafka ((demo_env 0)\<lparr>e_order := (\<lambda>_. 1)\<rparr>) (demo_log\<lparr>w_met := m\<rparr>) = Inr (demo_message 1 16)"
proof -
  obtain m' where log: "demo_log = \<lparr>w_db = demo_db [demo_row 0 ''k1'' ExecutionModeTestnet ROUTED,
       demo_row 16 ''k2'' ExecutionModeSimulated ROUTED] [demo_quote_row] [] 7 [demo_outbox 0 (Some 0), demo_outbox 16 (Some 0)] 2,
       w_trace = [EvPublish (demo_id 16) (demo_event (demo_id 16)) (Inr ()), EvPublish (demo_id 0) (demo_event (demo_id 0)) (Inr ())],
       w_met = m'\<rparr>"
    using demo_log_eval by blast
  show "k_FetchMessage demo_kafka (demo_env 0) demo_log = Inr (demo_message 0 0)"
    "k_FetchMessage demo_kafka ((demo_env 0)\<lparr>e_order := (\<lambda>_. 1)\<rparr>) (demo_log\<lparr>w_met := m\<rparr>) = Inr (demo_message 1 16)"
    unfolding log by (simp_all add: demo_kafka_def acknowledged_def Let_def)
qed

theorem failed_message_passed_over_witness:
  "\<exists>is w2. run (runConsumeLoop demo_kafka (\<lambda>_. False) demo_processor 2 []) is demo_log = (Some [demo_message 1 16], w2, []) \<and>
     demo_row 0 ''k1'' ExecutionModeTestnet ROUTED \<in> set (payments w2)"
proof -
  obtain m where 1: "run (consume_message demo_processor (km_Value (demo_message 0 0))) [demo_fault] demo_log =
      (Some False, demo_log\<lparr>w_met := m\<rparr>, [])" using demo_first_fails by auto
  obtain w2 where 2: "run (consume_message demo_processor (km_Value (demo_message 1 16))) [demo_env 0, demo_env 0] (demo_log\<lparr>w_met := m\<rparr>) =
      (Some True, w2, [])" "demo_row 0 ''k1'' ExecutionModeTestnet ROUTED \<in> set (payments w2)" using demo_second_handled [of m] by auto
  have "k_CommitMessages demo_kafka env0 (demo_message 1 16) = Inr ()" by (simp add: demo_kafka_def)
  from failed_message_passed_over [OF demo_fetched(1) 1 demo_fetched(2) 2(1) this] 2(2) show ?thesis by blast
qed

section \<open>Intervals\<close>

text \<open>
  A duration in the environment is read exactly as long as it fits an \<open>int64\<close> of nanoseconds, some 292 years;
  a larger one wraps around.
\<close>

lemma envDuration_exact:
  assumes "getenv key = Int_String n" "int64_ok n" "int64_ok (n * unit)"
  shows "envDuration getenv key def unit = Inr (n * unit)"
proof -
  have "Int_String n \<noteq> ''''" by (simp add: Int_String_def)
  moreover have "int64 (n * unit) = n * unit"
    unfolding int64_def signed_of_int using assms(3) by (simp add: int64_ok_def signed_take_bit_int_eq_self)
  ultimately show ?thesis using assms(1,2) by (simp add: envDuration_def Let_def ParseInt64_Int_String)
qed

text \<open>
  An interval of zero or less is accepted by the configuration, and the sweep that is started with it panics
  before its first turn.
\<close>

lemma nonpositive_interval_panics:
  assumes "getenv ''WORKER_RECOVERY_SWEEP_INTERVAL_SECONDS'' = Int_String n" "- 9223372036 \<le> n" "n \<le> 0" "worker_durations getenv = Inr d"
  shows "wd_RecoverySweepInterval d = n * Second \<and>
    run (Recovery_Run ctx_done staleness (wd_RecoverySweepInterval d) turns) is w =
      (Some (Inl (Err ''non-positive interval for NewTicker'')), w, is)"
proof -
  have "envDuration getenv ''WORKER_RECOVERY_SWEEP_INTERVAL_SECONDS'' (30 * Second) Second = Inr (n * Second)"
    by (rule envDuration_exact) (use assms(1-3) in \<open>simp_all add: int64_ok_def\<close>)
  with assms(4) have "wd_RecoverySweepInterval d = n * Second"
    by (auto simp: worker_durations_def bindr_def split: sum.splits)
  with assms(3) show ?thesis by (simp add: Recovery_Run_def run_tryp NewTicker_def mult_nonpos_nonneg)
qed

end
