(* ===== verification/Server_Main.thy ===== *)
theory Server_Main
  imports Termination Metrics
begin

text \<open>
  \<open>main\<close> of \<open>cmd/server\<close> after its configuration (\<open>Wiring\<close>): the JSON documents of the responses, the
  routes of the \<open>ServeMux\<close>, and one request through the CORS middleware, the mux and its handler. A path is
  given by its decoded segments and is clean, so that the mux does not redirect it. Its
  connections, listening and shutdown are in \<open>Startup\<close>; the spans of the tracing middleware are left out.
\<close>

section \<open>Response documents\<close>

text \<open>
  \<open>json.Encode\<close> of the response structs, by their tags; no field is omitted when empty. \<open>num\<close> prints a
  \<open>float64\<close>, which the program never reads back.
\<close>

definition json_opt :: "string option \<Rightarrow> json" where
  "json_opt s = (case s of None \<Rightarrow> JNull | Some t \<Rightarrow> JStr t)"

definition json_int :: "int \<Rightarrow> json" where
  "json_int n = JNum (Int_String n)"

definition hop_json :: "(float64 \<Rightarrow> string) \<Rightarrow> hopResponse \<Rightarrow> json" where
  "hop_json num h = JObj [(''hop_index'', json_int (hp_HopIndex h)), (''from_chain'', JStr (hp_FromChain h)),
     (''to_chain'', JStr (hp_ToChain h)), (''bridge_name'', JStr (hp_BridgeName h)), (''fee'', JNum (num (hp_Fee h))),
     (''latency_ms'', JNum (num (hp_LatencyMs h))), (''liquidity'', JNum (num (hp_Liquidity h))),
     (''reliability'', JNum (num (hp_Reliability h)))]"

definition payment_json :: "(float64 \<Rightarrow> string) \<Rightarrow> paymentResponse \<Rightarrow> json" where
  "payment_json num p = JObj [(''id'', JStr (pp_ID p)), (''source_chain'', JStr (pp_SourceChain p)),
     (''destination_chain'', JStr (pp_DestinationChain p)), (''asset'', JStr (pp_Asset p)), (''amount'', JStr (pp_Amount p)),
     (''status'', JStr (pp_Status p)), (''total_fee'', JNum (num (pp_TotalFee p))), (''hops'', JArr (map (hop_json num) (pp_Hops p))),
     (''execution_mode'', JStr (pp_ExecutionMode p)), (''bridge_provider'', json_opt (pp_BridgeProvider p)),
     (''failure_reason'', json_opt (pp_FailureReason p)), (''external_tx_hash'', json_opt (pp_ExternalTxHash p)),
     (''submitted_at'', json_opt (pp_SubmittedAt p)), (''created_at'', JStr (pp_CreatedAt p)), (''updated_at'', JStr (pp_UpdatedAt p)),
     (''completed_at'', json_opt (pp_CompletedAt p)), (''provider_reference_id'', json_opt (pp_ProviderReferenceID p)),
     (''external_status'', json_opt (pp_ExternalStatus p)), (''raw_external_status'', json_opt (pp_RawExternalStatus p))]"

definition list_item_json :: "(float64 \<Rightarrow> string) \<Rightarrow> paymentListItem \<Rightarrow> json" where
  "list_item_json num p = JObj [(''id'', JStr (li_ID p)), (''source_chain'', JStr (li_SourceChain p)),
     (''destination_chain'', JStr (li_DestinationChain p)), (''asset'', JStr (li_Asset p)), (''amount'', JStr (li_Amount p)),
     (''status'', JStr (li_Status p)), (''execution_mode'', JStr (li_ExecutionMode p)), (''bridge_provider'', json_opt (li_BridgeProvider p)),
     (''total_fee'', JNum (num (li_TotalFee p))), (''created_at'', JStr (li_CreatedAt p))]"

definition quote_item_json :: "quoteItem \<Rightarrow> json" where
  "quote_item_json q = JObj [(''provider'', JStr (qi_Provider q)), (''input_amount'', JStr (qi_InputAmount q)),
     (''output_amount'', JStr (qi_OutputAmount q)), (''fee_amount'', JStr (qi_FeeAmount q)),
     (''estimated_fill_time_sec'', json_int (qi_EstimatedFillTimeSec q)), (''selected'', JBool (qi_Selected q)),
     (''quoted_at'', JStr (qi_QuotedAt q))]"

definition network_entry_json :: "networkUsageEntry \<Rightarrow> json" where
  "network_entry_json e = JObj [(''source_chain'', JStr (ne_SourceChain e)), (''destination_chain'', JStr (ne_DestinationChain e)),
     (''count'', json_int (int (ne_Count e)))]"

text \<open>A map is encoded with its keys sorted; \<open>keys\<close> is that list.\<close>

definition stats_json :: "(float64 \<Rightarrow> string) \<Rightarrow> string list \<Rightarrow> dashboardStats \<Rightarrow> json" where
  "stats_json num keys s = JObj [(''total_payments'', json_int (int (ds_TotalPayments s))),
     (''completed_payments'', json_int (int (ds_CompletedPayments s))), (''processing_payments'', json_int (int (ds_ProcessingPayments s))),
     (''failed_payments'', json_int (int (ds_FailedPayments s))),
     (''provider_usage'', JObj (map (\<lambda>k. (k, json_int (case ds_ProviderUsage s k of None \<Rightarrow> 0 | Some n \<Rightarrow> int n))) keys)),
     (''average_routing_cost'', JNum (num (ds_AverageRoutingCost s))), (''network_usage'', JArr (map network_entry_json (ds_NetworkUsage s)))]"

definition point_json :: "(float64 \<Rightarrow> string) \<Rightarrow> timeseriesPoint \<Rightarrow> json" where
  "point_json num p = JObj [(''bucket'', JStr (ti_Bucket p)), (''value'', JNum (num (ti_Value p))), (''count'', json_int (int (ti_Count p)))]"

definition route_hop_json :: "(float64 \<Rightarrow> string) \<Rightarrow> routeHop \<Rightarrow> json" where
  "route_hop_json num h = JObj [(''from_chain'', JStr (ro_FromChain h)), (''to_chain'', JStr (ro_ToChain h)),
     (''bridge_name'', JStr (ro_BridgeName h)), (''fee'', JNum (num (ro_Fee h))), (''latency_ms'', JNum (num (ro_LatencyMs h))),
     (''liquidity'', JNum (num (ro_Liquidity h))), (''reliability'', JNum (num (ro_Reliability h)))]"

fun response_json :: "(float64 \<Rightarrow> string) \<Rightarrow> string list \<Rightarrow> response_body \<Rightarrow> json" where
  "response_json num keys (ErrorBody msg) = JObj [(''error'', JStr msg)]"
| "response_json num keys (PaymentBody p) = payment_json num p"
| "response_json num keys (PaymentListBody ps c) = JObj [(''payments'', JArr (map (list_item_json num) ps)), (''next_cursor'', json_opt c)]"
| "response_json num keys (QuotesBody qs) = JObj [(''quotes'', JArr (map quote_item_json qs))]"
| "response_json num keys (StatsBody s) = stats_json num keys s"
| "response_json num keys (TimeseriesBody m ps) = JObj [(''metric'', JStr m), (''points'', JArr (map (point_json num) ps))]"
| "response_json num keys (RouteBody found hops fee) =
    JObj [(''route_found'', JBool found), (''hops'', JArr (map (route_hop_json num) hops)), (''total_fee'', JNum (num fee))]"
| "response_json num keys NoBody = JNull"

text \<open>A client reads back the identifier and the status it is told.\<close>

lemma payment_json_fields:
  "string_field ''id'' (payment_json num p) = Inr (pp_ID p)" "string_field ''status'' (payment_json num p) = Inr (pp_Status p)"
  by (simp_all add: payment_json_def string_field_def field_values_def ToLower_def lower_char_def json_opt_def split: option.split)

section \<open>Routes\<close>

datatype segment = Lit string | Wild

datatype route =
    RoutePostRoutes
  | RoutePostPayments
  | RouteListPayments
  | RouteGetPayment
  | RouteGetPaymentQuotes
  | RouteDashboardStats
  | RouteDashboardTimeseries
  | RouteMetrics

definition mux :: "(string \<times> segment list \<times> route) list" where
  "mux = [
     (''POST'', [Lit ''routes''], RoutePostRoutes),
     (''POST'', [Lit ''payments''], RoutePostPayments),
     (''GET'', [Lit ''payments''], RouteListPayments),
     (''GET'', [Lit ''payments'', Wild], RouteGetPayment),
     (''GET'', [Lit ''payments'', Wild, Lit ''quotes''], RouteGetPaymentQuotes),
     (''GET'', [Lit ''dashboard'', Lit ''stats''], RouteDashboardStats),
     (''GET'', [Lit ''dashboard'', Lit ''timeseries''], RouteDashboardTimeseries),
     (''GET'', [Lit ''metrics''], RouteMetrics)]"

text \<open>
  \<open>net/http\<close>: a wildcard matches one non-empty segment, a pattern with GET also matches HEAD. A path
  that no pattern matches is 404, one that only patterns of other methods match is 405.
\<close>

fun path_matches :: "segment list \<Rightarrow> string list \<Rightarrow> bool" where
  "path_matches [] [] = True"
| "path_matches (Lit s # ps) (x # xs) = (x = s \<and> path_matches ps xs)"
| "path_matches (Wild # ps) (x # xs) = (x \<noteq> '''' \<and> path_matches ps xs)"
| "path_matches _ _ = False"

definition method_matches :: "string \<Rightarrow> string \<Rightarrow> bool" where
  "method_matches pattern m \<longleftrightarrow> m = pattern \<or> pattern = ''GET'' \<and> m = ''HEAD''"

definition dispatch :: "string \<Rightarrow> string list \<Rightarrow> int + route" where
  "dispatch m path =
    (case filter (\<lambda>(meth, pattern, _). method_matches meth m \<and> path_matches pattern path) mux of
       (_, _, r) # _ \<Rightarrow> Inr r
     | [] \<Rightarrow> Inl (if list_ex (\<lambda>(_, pattern, _). path_matches pattern path) mux then 405 else 404))"

record request =
  hq_Method :: string
  hq_Path :: "string list"
  hq_Origin :: string
  hq_IdempotencyKey :: string
  hq_Query :: "string \<Rightarrow> string"
  hq_Body :: "json option"

text \<open>The scrape of \<open>GET /metrics\<close> runs the in-flight collector; its text format is not modelled.\<close>

definition handle :: "Handler \<Rightarrow> request \<Rightarrow> route \<Rightarrow> http_response res pr" where
  "handle h req r =
    (let answer = (\<lambda>p. bindp p (\<lambda>resp. Done (Inr resp))); id = hq_Path req ! 1 in
     case r of
       RoutePostRoutes \<Rightarrow> answer (PostRoutes (hq_Body req))
     | RoutePostPayments \<Rightarrow> PostPayments h (hq_IdempotencyKey req) (hq_Body req)
     | RouteListPayments \<Rightarrow> answer (Handler_ListPayments h (hq_Query req))
     | RouteGetPayment \<Rightarrow> answer (Handler_GetPayment id)
     | RouteGetPaymentQuotes \<Rightarrow> answer (GetPaymentQuotes id)
     | RouteDashboardStats \<Rightarrow> answer (Handler_GetDashboardStats h)
     | RouteDashboardTimeseries \<Rightarrow> answer (GetDashboardTimeseries h (hq_Query req))
     | RouteMetrics \<Rightarrow> bindp Collect (\<lambda>_. Done (Inr (writeJSON 200 NoBody))))"

definition serve :: "Handler \<Rightarrow> string list \<Rightarrow> request \<Rightarrow> ((string \<times> string) list \<times> http_response res) pr" where
  "serve h origins req =
    CORS origins (hq_Origin req) (hq_Method req)
      (case dispatch (hq_Method req) (hq_Path req) of
         Inl st \<Rightarrow> Done (Inr (writeJSON st NoBody))
       | Inr r \<Rightarrow> handle h req r)"

definition spanNameFormatter :: "string \<Rightarrow> string \<Rightarrow> string \<Rightarrow> string" where
  "spanNameFormatter pattern method path = (if pattern \<noteq> '''' then pattern else method @ '' '' @ path)"

text \<open>At most one pattern matches a request, so the order of the registrations does not matter.\<close>

lemma patterns_disjoint:
  assumes "(m1, p1, r1) \<in> set mux" "(m2, p2, r2) \<in> set mux" "method_matches m1 m" "method_matches m2 m"
    "path_matches p1 path" "path_matches p2 path"
  shows "r1 = r2"
  using assms
  by (cases path; cases "tl path"; cases "tl (tl path)") (auto simp: mux_def method_matches_def)

section \<open>Every request is answered\<close>

text \<open>The statuses the server answers with.\<close>

definition documented :: "int set" where
  "documented = {200, 201, 204, 400, 404, 405, 409, 422, 500, 503, 504}"

lemma ends_reads [ends]:
  "ends_within (GetQuotesByPaymentID pid) 1" "ends_within (GetExecutionByPaymentID pid) 1" "ends_within (ListPayments pg f) 1"
  "ends_within (GetDashboardStats pg) 3" "ends_within (GetTimeseries pg m iv ds) 1" "ends_within CountInFlightPayments 1"
  unfolding GetQuotesByPaymentID_def GetExecutionByPaymentID_def ListPayments_def GetDashboardStats_def GetTimeseries_def
    CountInFlightPayments_def
  by (rule ends_split | (rule ends_bind ends_try, rule ends, simp) | (rule ends_mono, rule ends, simp))+

lemma ends_handlers [ends]:
  "ends_within (PostRoutes doc) 1" "ends_within (Handler_GetPayment pid) 3" "ends_within (GetPaymentQuotes pid) 3"
  "ends_within (Handler_ListPayments h q) 1" "ends_within (Handler_GetDashboardStats h) 3"
  "ends_within (GetDashboardTimeseries h q) 1" "ends_within Collect 1"
  unfolding PostRoutes_def Handler_GetPayment_def GetPaymentQuotes_def Handler_ListPayments_def Handler_GetDashboardStats_def
    GetDashboardTimeseries_def Collect_def Let_def
  by (rule ends_split | (rule ends_bind ends_try, rule ends, simp) | (rule ends_mono, rule ends, simp))+

lemma ends_serve:
  assumes "start_server g getenv pg = Inr h"
  shows "ends_within (serve h origins req) 11"
proof -
  have "ends_within (handle h req r) 11" for r
    by (cases r)
       (simp_all add: handle_def Let_def ends_PostPayments [OF assms],
        (rule ends_bind, rule ends, simp, simp)+)
  then have "ends_within (case dispatch (hq_Method req) (hq_Path req) of
         Inl st \<Rightarrow> Done (Inr (writeJSON st NoBody)) | Inr r \<Rightarrow> handle h req r) 11"
    by (simp split: sum.split)
  then show ?thesis
    unfolding serve_def CORS_def by (auto intro: ends_bind)
qed

lemma statuses:
  "yields (\<lambda>r _. hs_Status r \<in> documented) (PostRoutes doc)" "yields (\<lambda>r _. hs_Status r \<in> documented) (Handler_GetPayment pid)"
  "yields (\<lambda>r _. hs_Status r \<in> documented) (GetPaymentQuotes pid)" "yields (\<lambda>r _. hs_Status r \<in> documented) (Handler_ListPayments h q)"
  "yields (\<lambda>r _. hs_Status r \<in> documented) (Handler_GetDashboardStats h)"
  "yields (\<lambda>r _. hs_Status r \<in> documented) (GetDashboardTimeseries h q)"
  unfolding PostRoutes_def Handler_GetPayment_def GetPaymentQuotes_def Handler_ListPayments_def Handler_GetDashboardStats_def
    GetDashboardTimeseries_def Let_def documented_def
  by (auto intro!: yields_tryp yields_then yields_Done simp: writeError_def writeJSON_def route_failure_def check_route_def list_filter_def
      split: sum.split option.split grpc_code.split if_splits)

lemma yields_return: "yields (\<lambda>a _. R a) p \<Longrightarrow> (\<And>a d. R a \<Longrightarrow> Q (f a) d) \<Longrightarrow> yields Q (bindp p (\<lambda>a. Done (f a)))"
  by (erule yields_bindp) (auto intro: yields_Done)

lemma handled:
  assumes "start_server g getenv pg = Inr h"
  shows "yields (\<lambda>r _. \<exists>resp. r = Inr resp \<and> hs_Status resp \<in> documented) (handle h req r)"
proof -
  have "yields (\<lambda>r _. \<exists>resp. r = Inr resp \<and> hs_Status resp \<in> documented) (PostPayments h key doc)" for key doc
    using PostPayments_result [OF assms] unfolding yields_def created_def
    by (fastforce simp: documented_def other_status_def)
  moreover have "yields (\<lambda>r _. \<exists>resp. r = Inr resp \<and> hs_Status resp \<in> documented) (bindp p (\<lambda>resp. Done (Inr resp)))"
    if "yields (\<lambda>r _. hs_Status r \<in> documented) p" for p
    by (rule yields_return [OF that]) blast
  note answered = statuses [THEN this]
  moreover have "yields (\<lambda>r _. \<exists>resp. r = Inr resp \<and> hs_Status resp \<in> documented) (bindp Collect (\<lambda>_. Done (Inr (writeJSON 200 NoBody))))"
    by (rule yields_return [OF yields_any]) (simp add: documented_def)
  ultimately show ?thesis
    by (cases r) (simp_all add: handle_def Let_def answered)
qed

lemma dispatch_status: "dispatch m path = Inl st \<Longrightarrow> st \<in> documented"
  by (auto simp: dispatch_def documented_def split: list.splits if_splits)

text \<open>
  C15. Every request to a server that started is answered: whatever its method, (clean) path, headers and
  body are, and whatever the database, the routing engine and the bridges answer, the middleware,
  the mux and the handler return after at most eleven answers of the outside, with the CORS headers
  and one of the eleven statuses of the set \<open>documented\<close>, those the source writes, never with a panic.
\<close>

theorem server_answers_every_request:
  assumes "start_server g getenv pg = Inr h" "11 \<le> length is"
  shows "\<exists>resp w' is'. run (serve h origins req) is w = (Some (cors_headers origins (hq_Origin req), Inr resp), w', is') \<and>
    length is \<le> 11 + length is' \<and> hs_Status resp \<in> documented"
proof -
  obtain a w' is' where r: "run (serve h origins req) is w = (Some a, w', is')" "length is \<le> 11 + length is'"
    by (rule ends_run [OF ends_serve [OF assms(1)] assms(2)])
  let ?Q = "\<lambda>r _. \<exists>resp. r = Inr resp \<and> hs_Status resp \<in> documented"
  have "yields ?Q (case dispatch (hq_Method req) (hq_Path req) of
         Inl st \<Rightarrow> Done (Inr (writeJSON st NoBody)) | Inr r \<Rightarrow> handle h req r)"
    using handled [OF assms(1), of req] dispatch_status [of "hq_Method req" "hq_Path req"] by (auto split: sum.split)
  then have "yields (\<lambda>a _. \<exists>resp. a = (cors_headers origins (hq_Origin req), Inr resp) \<and> hs_Status resp \<in> documented) (serve h origins req)"
    unfolding serve_def CORS_def by (auto intro!: yields_return [where R = "\<lambda>r. ?Q r undefined"] yields_Done) (simp add: documented_def)
  from yieldsD [OF this r(1)] r show ?thesis by blast
qed

definition demo_request :: request where
  "demo_request = \<lparr>hq_Method = ''POST'', hq_Path = [''payments''], hq_Origin = ''http://localhost:5173'', hq_IdempotencyKey = ''k9'',
     hq_Query = (\<lambda>_. ''''), hq_Body = Some demo_body\<rparr>"

theorem server_answers_every_request_witness:
  "\<exists>resp w' is'. run (serve demo_handler [''http://localhost:5173''] demo_request) (replicate 11 demo_front) demo_seeded =
       (Some (cors_headers [''http://localhost:5173''] ''http://localhost:5173'', Inr resp), w', is') \<and> hs_Status resp \<in> documented"
  using server_answers_every_request [OF demo_server_handler, of "replicate 11 demo_front" "[''http://localhost:5173'']" demo_request demo_seeded]
  by (fastforce simp: demo_request_def)

end
