(* ===== verification/Benchmark.thy ===== *)
theory Benchmark
  imports End_To_End Server_Main
begin

text \<open>
  The load generator \<open>cmd/benchmark\<close>: one payment posted and polled, the workers that do so until the
  time is up, and the report over what they collected. The client is a process of its own, over the
  list of the requests it sent; an answer of its outside is the clocks and the outcome of an HTTP
  exchange. Printing is left out.
\<close>

section \<open>One payment\<close>

record bench_env =
  bx_Now :: int
  bx_UnixNano :: int
  bx_Reply :: http_reply

type_synonym 'a bench = "(bench_env, http_request list, 'a) proc"

record result =
  re_acceptLatency :: int
  re_e2eLatency :: int
  re_success :: bool

text \<open>\<open>time.Now()\<close>, in nanoseconds: the monotonic reading that \<open>Since\<close> and \<open>Before\<close> use.\<close>

definition bench_Now :: "int bench" where
  "bench_Now = Ask (\<lambda>i w. w) (\<lambda>i w. Done (bx_Now i))"

text \<open>A request that could not be built is not sent.\<close>

definition client_Do :: "http_request \<Rightarrow> http_reply bench" where
  "client_Do req =
    Ask (\<lambda>i w. case bx_Reply i of HttpBadRequest _ \<Rightarrow> w | _ \<Rightarrow> w @ [req]) (\<lambda>i w. Done (bx_Reply i))"

text \<open>
  \<open>Decode\<close> into a struct with one string field, its error ignored: a value of another type leaves the
  field as it is, and a body that is not a JSON object leaves it empty.
\<close>

fun decoded_string :: "string \<Rightarrow> json option \<Rightarrow> string" where
  "decoded_string name (Some (JObj kvs)) =
    fold (\<lambda>(k, v) s. if ToLower k = ToLower name then (case v of JStr t \<Rightarrow> t | _ \<Rightarrow> s) else s) kvs ''''"
| "decoded_string name _ = ''''"

definition reply_field :: "string \<Rightarrow> http_reply \<Rightarrow> string" where
  "reply_field name r = (case r of HttpReply _ _ body \<Rightarrow> decoded_string name body | _ \<Rightarrow> '''')"

text \<open>The identifier and the status the server writes are those the load generator reads.\<close>

lemma reads_response:
  "decoded_string ''id'' (Some (payment_json num p)) = pp_ID p" "decoded_string ''status'' (Some (payment_json num p)) = pp_Status p"
  by (simp_all add: payment_json_def ToLower_def lower_char_def json_opt_def split: option.split)

definition bench_body :: json where
  "bench_body = JObj [(''source_chain'', JStr ''ethereum''), (''destination_chain'', JStr ''base''),
     (''asset'', JStr ''usdc''), (''amount'', JStr ''100'')]"

definition bench_post :: "string \<Rightarrow> string \<Rightarrow> http_request" where
  "bench_post baseURL idempotencyKey = \<lparr>hr_Method = ''POST'', hr_URL = baseURL @ ''/payments'',
     hr_Header = [(''Content-Type'', ''application/json''), (''Idempotency-Key'', idempotencyKey)], hr_Body = Some bench_body\<rparr>"

definition bench_get :: "string \<Rightarrow> string \<Rightarrow> http_request" where
  "bench_get baseURL pid = \<lparr>hr_Method = ''GET'', hr_URL = baseURL @ ''/payments/'' @ pid, hr_Header = [], hr_Body = None\<rparr>"

text \<open>The polling loop; a failed exchange reads as no status.\<close>

primrec poll :: "string \<Rightarrow> string \<Rightarrow> int \<Rightarrow> int \<Rightarrow> nat \<Rightarrow> (result \<times> bool) bench" where
  "poll baseURL pid acceptLatency e2eStart 0 = Done (\<lparr>re_acceptLatency = acceptLatency, re_e2eLatency = 0, re_success = False\<rparr>, False)"
| "poll baseURL pid acceptLatency e2eStart (Suc n) =
    bindp (client_Do (bench_get baseURL pid)) (\<lambda>r.
    let status = reply_field ''status'' r in
    if status = ''COMPLETED'' \<or> status = ''FAILED''
    then bindp bench_Now (\<lambda>now.
      let ok = (status = ''COMPLETED'')
      in Done (\<lparr>re_acceptLatency = acceptLatency, re_e2eLatency = now - e2eStart, re_success = ok\<rparr>, ok))
    else poll baseURL pid acceptLatency e2eStart n)"

text \<open>\<open>http.NewRequest\<close> gives no request for an invalid URL, and setting its header panics.\<close>

definition runOnePayment :: "string \<Rightarrow> string \<Rightarrow> (result \<times> bool) res bench" where
  "runOnePayment baseURL idempotencyKey =
    bindp bench_Now (\<lambda>acceptStart.
    bindp (client_Do (bench_post baseURL idempotencyKey)) (\<lambda>r.
    let rejected = bindp bench_Now (\<lambda>now.
          Done (Inr (\<lparr>re_acceptLatency = now - acceptStart, re_e2eLatency = 0, re_success = False\<rparr>, False)));
        accepted = bindp bench_Now (\<lambda>now. bindp bench_Now (\<lambda>e2eStart.
          bindp (poll baseURL (reply_field ''id'' r) (now - acceptStart) e2eStart 100) (\<lambda>a. Done (Inr a))));
        by_status = (\<lambda>st. if st \<noteq> 201 \<and> st \<noteq> 200 then rejected else accepted)
    in case r of
         HttpBadRequest e \<Rightarrow> Done (Inl (Err ''nil pointer dereference''))
       | HttpFail e \<Rightarrow> rejected
       | HttpReadFail st e \<Rightarrow> by_status st
       | HttpReply st text body \<Rightarrow> by_status st))"

section \<open>The workers\<close>

text \<open>
  The loop of one worker, at most \<open>n\<close> turns. Its value is what it counted and sent to the channel, in
  order: the result and whether it was counted as successful. A panic ends the program.
\<close>

primrec bench_worker :: "string \<Rightarrow> int \<Rightarrow> nat \<Rightarrow> nat \<Rightarrow> nat \<Rightarrow> (result \<times> bool) list \<Rightarrow> (result \<times> bool) list res bench" where
  "bench_worker baseURL stop workerID seq 0 sent = Done (Inr sent)"
| "bench_worker baseURL stop workerID seq (Suc n) sent =
    bindp bench_Now (\<lambda>now.
    if \<not> now < stop then Done (Inr sent)
    else bindp (Ask (\<lambda>i w. w) (\<lambda>i w. Done (bx_UnixNano i))) (\<lambda>stamp.
      let key = ''bench-'' @ Int_String (int workerID) @ ''-'' @ Int_String (int (Suc seq)) @ ''-'' @ Int_String stamp in
      tryp (runOnePayment baseURL key) (\<lambda>err. Done (Inl err))
        (\<lambda>a. bench_worker baseURL stop workerID (Suc seq) n (sent @ [a]))))"

section \<open>The report\<close>

text \<open>
  Arithmetic on finite \<open>float64\<close> values, each operation rounded: the product and the quotient, the sum of two
  values that are not negative, and the truncation of one. A quotient by zero is an infinity,
  or a NaN for \<open>0 / 0\<close>. Multiplication and addition are not fused.
\<close>

definition float_mul :: "float64 \<Rightarrow> float64 \<Rightarrow> float64" where
  "float_mul f g = (case (float_fraction f, float_fraction g) of
     ((s, a, b), (t, c, d)) \<Rightarrow> float_of (s \<noteq> t) (a * c) (b * d))"

definition float_div :: "float64 \<Rightarrow> float64 \<Rightarrow> float64" where
  "float_div f g = (case (float_fraction f, float_fraction g) of
     ((s, a, b), (t, c, d)) \<Rightarrow>
       if c = 0 then (if a = 0 then 0x7FF8000000000000 else if s \<noteq> t then 0xFFF0000000000000 else 0x7FF0000000000000)
       else float_of (s \<noteq> t) (a * d) (b * c))"

definition float_add :: "float64 \<Rightarrow> float64 \<Rightarrow> float64" where
  "float_add f g = (case (float_fraction f, float_fraction g) of
     ((_, a, b), (_, c, d)) \<Rightarrow> float_of False (a * d + c * b) (b * d))"

definition float_trunc :: "float64 \<Rightarrow> int" where
  "float_trunc f = (case float_fraction f of (_, a, b) \<Rightarrow> int (a div b))"

definition percentile :: "int list \<Rightarrow> float64 \<Rightarrow> int" where
  "percentile durations p =
    (if durations = [] then 0
     else let sorted = sort durations;
              idx = float_trunc (float_add (float_mul (float_of_int (int (length sorted))) p) (float_of False 9999 10000)) - 1;
              idx = (if idx < 0 then 0 else idx);
              idx = (if idx \<ge> int (length sorted) then int (length sorted) - 1 else idx)
          in sorted ! nat idx)"

record latencyReport =
  lr_P50 :: float64
  lr_P95 :: float64
  lr_P99 :: float64

record hardwareInfo =
  hw_NumCPU :: int
  hw_GOOS :: string
  hw_GOARCH :: string

record benchmarkOutput =
  bo_Timestamp :: int
  bo_DurationSeconds :: float64
  bo_Concurrency :: int
  bo_BaseURL :: string
  bo_Hardware :: hardwareInfo
  bo_TotalRequests :: nat
  bo_Successful :: nat
  bo_Failed :: nat
  bo_ThroughputAccept :: float64
  bo_ThroughputProcessed :: float64
  bo_AcceptLatencyMs :: latencyReport
  bo_E2ELatencyMs :: latencyReport

text \<open>\<open>Duration.Seconds\<close> and \<open>float64(d.Microseconds()) / 1000\<close> of a duration that is not negative.\<close>

definition Duration_Seconds :: "int \<Rightarrow> float64" where
  "Duration_Seconds d = float_add (float_of_int (d div 10 ^ 9)) (float_div (float_of_int (d mod 10 ^ 9)) (float_of_int (10 ^ 9)))"

definition in_ms :: "int \<Rightarrow> float64" where
  "in_ms d = float_div (float_of_int (d div 1000)) (float_of_int 1000)"

definition latency_report :: "int list \<Rightarrow> latencyReport" where
  "latency_report ds = \<lparr>lr_P50 = in_ms (percentile ds (float_of False 50 100)), lr_P95 = in_ms (percentile ds (float_of False 95 100)),
     lr_P99 = in_ms (percentile ds (float_of False 99 100))\<rparr>"

text \<open>The counters of the workers, and the slices of the collector, after the results \<open>rs\<close> in the order of their arrival.\<close>

definition acceptLatencies :: "(result \<times> bool) list \<Rightarrow> int list" where
  "acceptLatencies rs = map (\<lambda>(r, ok). re_acceptLatency r) rs"

definition e2eLatencies :: "(result \<times> bool) list \<Rightarrow> int list" where
  "e2eLatencies rs = map (\<lambda>(r, ok). re_e2eLatency r) (filter (\<lambda>(r, ok). re_success r) rs)"

definition report :: "int \<Rightarrow> hardwareInfo \<Rightarrow> string \<Rightarrow> int \<Rightarrow> int \<Rightarrow> (result \<times> bool) list \<Rightarrow> benchmarkOutput" where
  "report now hardware baseURL concurrency duration rs =
    (let total = length rs; successful = length (filter snd rs); failed = length (filter (\<lambda>x. \<not> snd x) rs);
         elapsed = Duration_Seconds duration in
     \<lparr>bo_Timestamp = now, bo_DurationSeconds = elapsed, bo_Concurrency = concurrency, bo_BaseURL = baseURL, bo_Hardware = hardware,
      bo_TotalRequests = total,
      bo_Successful = successful, bo_Failed = failed, bo_ThroughputAccept = float_div (float_of_int (int total)) elapsed,
      bo_ThroughputProcessed = float_div (float_of_int (int successful)) elapsed,
      bo_AcceptLatencyMs = latency_report (acceptLatencies rs), bo_E2ELatencyMs = latency_report (e2eLatencies rs)\<rparr>)"

text \<open>
  The result file: \<open>json.MarshalIndent\<close> of the report by its tags, which refuses a \<open>float64\<close> that is infinite or
  not a number, and \<open>os.WriteFile\<close>; \<open>num\<close> and \<open>stamp\<close> print a number and a time. The result is the exit code.
\<close>

definition float_finite :: "float64 \<Rightarrow> bool" where
  "float_finite f \<longleftrightarrow> take_bit 11 (drop_bit 52 f) \<noteq> 0x7FF"

definition latency_json :: "(float64 \<Rightarrow> string) \<Rightarrow> latencyReport \<Rightarrow> json" where
  "latency_json num l = JObj [(''p50'', JNum (num (lr_P50 l))), (''p95'', JNum (num (lr_P95 l))), (''p99'', JNum (num (lr_P99 l)))]"

definition hardware_json :: "hardwareInfo \<Rightarrow> json" where
  "hardware_json h = JObj [(''num_cpu'', json_int (hw_NumCPU h)), (''goos'', JStr (hw_GOOS h)), (''goarch'', JStr (hw_GOARCH h))]"

definition output_json :: "(float64 \<Rightarrow> string) \<Rightarrow> (int \<Rightarrow> string) \<Rightarrow> benchmarkOutput \<Rightarrow> json res" where
  "output_json num stamp b =
    (if list_all float_finite ([bo_DurationSeconds b, bo_ThroughputAccept b, bo_ThroughputProcessed b] @
        concat (map (\<lambda>l. [lr_P50 l, lr_P95 l, lr_P99 l]) [bo_AcceptLatencyMs b, bo_E2ELatencyMs b]))
     then Inr (JObj [(''timestamp'', JStr (stamp (bo_Timestamp b))), (''duration_seconds'', JNum (num (bo_DurationSeconds b))),
       (''concurrency'', json_int (bo_Concurrency b)), (''base_url'', JStr (bo_BaseURL b)), (''hardware'', hardware_json (bo_Hardware b)),
       (''total_requests'', json_int (int (bo_TotalRequests b))), (''successful'', json_int (int (bo_Successful b))),
       (''failed'', json_int (int (bo_Failed b))), (''throughput_accept_per_sec'', JNum (num (bo_ThroughputAccept b))),
       (''throughput_processed_per_sec'', JNum (num (bo_ThroughputProcessed b))),
       (''accept_latency_ms'', latency_json num (bo_AcceptLatencyMs b)), (''e2e_latency_ms'', latency_json num (bo_E2ELatencyMs b))])
     else Inl (Err ''json: unsupported value''))"

definition write_result ::
    "(float64 \<Rightarrow> string) \<Rightarrow> (int \<Rightarrow> string) \<Rightarrow> (string \<Rightarrow> json \<Rightarrow> unit res) \<Rightarrow> string \<Rightarrow> benchmarkOutput \<Rightarrow> nat" where
  "write_result num stamp WriteFile outPath b =
    (if outPath = '''' then 0
     else case output_json num stamp b of
       Inl err \<Rightarrow> 1
     | Inr data \<Rightarrow> (case WriteFile outPath data of Inl err \<Rightarrow> 1 | Inr _ \<Rightarrow> 0))"

section \<open>What the report shows\<close>

lemma percentile_mem:
  assumes "ds \<noteq> []"
  shows "percentile ds p \<in> set ds"
proof -
  have "percentile ds p \<in> set (sort ds)"
    using assms by (simp only: percentile_def Let_def if_False, intro nth_mem) (cases ds, auto)
  then show ?thesis by simp
qed

text \<open>Sorting first makes the order of arrival irrelevant.\<close>

lemma percentile_order:
  assumes "mset ds = mset ds'"
  shows "percentile ds p = percentile ds' p"
proof -
  have "sort ds = sort ds'" using assms by (intro properties_for_sort) simp_all
  moreover have "percentile xs p = percentile (sort xs) p" for xs
  proof -
    have "sort xs = [] \<longleftrightarrow> xs = []" by (metis length_0_conv length_sort)
    then show ?thesis by (simp add: percentile_def sorted_sort_id)
  qed
  ultimately show ?thesis by (metis (no_types))
qed

lemma report_order:
  assumes "mset rs = mset rs'"
  shows "report now hw u c d rs = report now hw u c d rs'"
proof -
  have "mset (acceptLatencies rs) = mset (acceptLatencies rs')" "mset (e2eLatencies rs) = mset (e2eLatencies rs')"
    using assms by (simp_all add: acceptLatencies_def e2eLatencies_def)
  then have "latency_report (acceptLatencies rs) = latency_report (acceptLatencies rs')"
    "latency_report (e2eLatencies rs) = latency_report (e2eLatencies rs')"
    unfolding latency_report_def by (simp_all only: percentile_order [of "acceptLatencies rs" "acceptLatencies rs'"]
        percentile_order [of "e2eLatencies rs" "e2eLatencies rs'"])
  moreover have "length (filter P rs) = length (filter P rs')" for P
    using assms by (metis mset_filter size_mset)
  ultimately show ?thesis
    using mset_eq_length [OF assms] by (simp add: report_def Let_def)
qed

section \<open>What one payment counts as\<close>

lemma run_bench_Now: "run (bindp bench_Now k) is w = (case is of [] \<Rightarrow> (None, w, []) | i # js \<Rightarrow> run (k (bx_Now i)) js w)"
  by (simp add: bench_Now_def)

lemma run_client_Do:
  "run (bindp (client_Do req) k) is w = (case is of [] \<Rightarrow> (None, w, [])
     | i # js \<Rightarrow> run (k (bx_Reply i)) js (case bx_Reply i of HttpBadRequest _ \<Rightarrow> w | _ \<Rightarrow> w @ [req]))"
  by (simp add: client_Do_def)

lemmas run_bench = run_bench_Now run_client_Do run_bindp [where p = "poll u pid a s n" for u pid a s n]

text \<open>A payment counts as successful exactly when its result says so.\<close>

lemma poll_counted: "run (poll u pid a s n) is w = (Some (r, ok), w', is') \<Longrightarrow> ok = re_success r"
  by (induction n arbitrary: "is" w) (auto simp: run_bench Let_def split: list.splits if_splits)

lemma runOnePayment_ok: "run (runOnePayment u key) is w = (Some (Inr (r, ok)), w', is') \<Longrightarrow> ok = re_success r"
  unfolding runOnePayment_def
  by (auto simp: run_bench Let_def dest!: poll_counted split: list.splits http_reply.splits if_splits option.splits prod.splits)

lemma bench_worker_ok:
  "run (bench_worker u stop wid seq n sent) is w = (Some (Inr rs), w', is') \<Longrightarrow> \<forall>(r, ok) \<in> set sent. ok = re_success r \<Longrightarrow>
    \<forall>(r, ok) \<in> set rs. ok = re_success r"
proof (induction n arbitrary: seq sent "is" w)
  case (Suc n)
  from Suc.prems(1) consider (stop) "rs = sent"
    | (turn) js w1 js1 key a where "run (runOnePayment u key) js w = (Some (Inr a), w1, js1)"
        "run (bench_worker u stop wid (Suc seq) n (sent @ [a])) js1 w1 = (Some (Inr rs), w', is')"
    by (auto simp: run_bench run_tryp Let_def split: list.splits if_splits option.splits prod.splits sum.splits)
  then show ?case
  proof cases
    case turn
    show ?thesis by (rule Suc.IH [OF turn(2)]) (use Suc.prems(2) runOnePayment_ok turn(1) in auto)
  qed (use Suc.prems(2) in simp)
qed auto

text \<open>
  The report of the load generator counts every payment once and does not depend on the order in
  which the workers deliver: for the results of any number of workers, arriving in any order, the
  total is the number of payments and the sum of the successful and the failed ones, there is one
  accept latency per payment and one end-to-end latency per successful one, and each reported
  percentile is a latency that was measured.
\<close>

lemma benchmark_report_sound:
  assumes "\<forall>rs \<in> set per_worker. \<exists>wid n is w w' is'. run (bench_worker u stop wid 0 n []) is w = (Some (Inr rs), w', is')"
    "mset arrived = mset (concat per_worker)"
  shows "report now hw u c d arrived = report now hw u c d (concat per_worker) \<and>
    bo_TotalRequests (report now hw u c d arrived) = sum_list (map length per_worker) \<and>
    bo_TotalRequests (report now hw u c d arrived) = bo_Successful (report now hw u c d arrived) + bo_Failed (report now hw u c d arrived) \<and>
    length (acceptLatencies arrived) = bo_TotalRequests (report now hw u c d arrived) \<and>
    length (e2eLatencies arrived) = bo_Successful (report now hw u c d arrived) \<and>
    (\<forall>ds \<in> {acceptLatencies arrived, e2eLatencies arrived}. if ds = [] then percentile ds p = 0 else percentile ds p \<in> set ds)"
proof -
  have "length arrived = sum_list (map length per_worker)" using mset_eq_length [OF assms(2)] by (simp add: length_concat)
  moreover have "percentile [] p = 0" by (simp add: percentile_def)
  moreover have "bo_TotalRequests (report now hw u c d arrived) = length arrived" "length (acceptLatencies arrived) = length arrived"
    "bo_Successful (report now hw u c d arrived) + bo_Failed (report now hw u c d arrived) = length arrived"
    using sum_length_filter_compl [of snd arrived] by (simp_all add: report_def Let_def acceptLatencies_def)
  moreover have "\<forall>(r, ok) \<in> set (concat per_worker). ok = re_success r" using assms(1) bench_worker_ok by fastforce
  then have "\<forall>(r, ok) \<in> set arrived. ok = re_success r" using mset_eq_setD [OF assms(2)] by simp
  then have "filter (\<lambda>(r, ok). re_success r) arrived = filter snd arrived" by (auto intro!: filter_cong)
  then have "length (e2eLatencies arrived) = bo_Successful (report now hw u c d arrived)"
    by (simp add: e2eLatencies_def report_def Let_def)
  ultimately show ?thesis
    using report_order [OF assms(2)] percentile_mem [of _ p] by auto
qed

text \<open>An exchange that finds no server.\<close>

definition demo_clock :: "int \<Rightarrow> bench_env" where
  "demo_clock t = \<lparr>bx_Now = t, bx_UnixNano = t, bx_Reply = HttpFail (Err ''connection refused'')\<rparr>"

definition demo_refused :: "int \<Rightarrow> result \<times> bool" where
  "demo_refused t = (\<lparr>re_acceptLatency = t, re_e2eLatency = 0, re_success = False\<rparr>, False)"

section \<open>What the load generator sends\<close>

lemma poll_sent: "run (poll u pid a s n) is w = (r, w', is') \<Longrightarrow> \<exists>k \<le> n. w' = w @ replicate k (bench_get u pid)"
proof (induction n arbitrary: "is" w)
  case (Suc n)
  have more: "\<exists>k \<le> Suc n. w' = w @ replicate k (bench_get u pid)"
    if "w1 = w \<or> w1 = w @ [bench_get u pid]" "run (poll u pid a s n) js w1 = (r, w', is')" for w1 js
    using Suc.IH [OF that(2)] that(1) by (auto intro: exI [of _ "Suc _"] exI le_SucI)
  from Suc.prems consider "w' = w" | "w' = w @ [bench_get u pid]"
    | w1 js where "w1 = w \<or> w1 = w @ [bench_get u pid]" "run (poll u pid a s n) js w1 = (r, w', is')"
    by (auto simp: run_bench Let_def split: list.splits if_splits http_reply.splits)
  then show ?case
    by cases (auto intro: more exI [of _ 0] exI [of _ "Suc 0"])
qed simp

lemma runOnePayment_sent:
  assumes "run (runOnePayment u key) is [] = (r, sent, is')"
  obtains "sent = []" | k pid where "k \<le> 100" "sent = bench_post u key # replicate k (bench_get u pid)"
proof -
  from assms consider "sent = []" | "sent = [bench_post u key]"
    | pid a s js r' where "run (poll u pid a s 100) js [bench_post u key] = (r', sent, is')"
    unfolding runOnePayment_def
    by (auto simp: run_bench Let_def split: list.splits http_reply.splits if_splits option.splits prod.splits)
  then show ?thesis
    by cases (use that(1) that(2) [of 0] in simp, use that(1) that(2) [of 0] in simp, use that(2) poll_sent in fastforce)
qed

lemma bench_request_simulated: "check_create header (Some bench_body) = Inr v \<Longrightarrow> vc_mode v = ExecutionModeSimulated"
  by (auto simp: check_create_def bench_body_def dec_createPaymentRequest_def create_request_zero_def fld_def Let_def
      split: if_splits option.splits prod.splits bool.splits sum.splits)

text \<open>
  C21. The load generator never spends testnet funds. For one payment it sends at most 101 requests,
  only the first of them a POST; when a server answers that with 201, then at any later time, whatever the
  workers do, the payment it created is a simulated one and there is no execution for it.
\<close>

theorem benchmark_never_spends:
  assumes "run (runOnePayment baseURL key) xs [] = (r, sent, xs')" "q \<in> set sent" "hr_Method q = ''POST''"
    "executor_ok e" "reach e (w, ts)" "start_server g getenv pg = Inr h"
    "run (PostPayments h key (hr_Body q)) is w = (Some (Inr resp), w', is')" "hs_Status resp = 201"
    "(sys_step (entry e) lock_loss)\<^sup>*\<^sup>* (w', ts) (w'', ts'')"
  shows "length sent \<le> 101 \<and> (\<forall>q' \<in> set (tl sent). hr_Method q' = ''GET'') \<and>
    (\<exists>row \<in> set (payments w''). hs_Location resp = Some (''/payments/'' @ pr_id row) \<and>
       pr_execution_mode row = ExecutionModeSimulated \<and> (\<forall>x \<in> set (executions w''). x_PaymentID x \<noteq> pr_id row))"
proof -
  obtain k pid where sent: "k \<le> 100" "sent = bench_post baseURL key # replicate k (bench_get baseURL pid)"
    using runOnePayment_sent [OF assms(1)] assms(2) by (metis empty_iff empty_set)
  with assms(2,3) have q: "q = bench_post baseURL key" by (auto simp: bench_get_def)
  obtain v amt row where row: "check_create key (hr_Body q) = Inr v" "row \<in> set (payments w'')"
    "hs_Location resp = Some (''/payments/'' @ pr_id row)" "pr_execution_mode row = vc_mode v"
    "\<forall>x \<in> set (executions w''). x_PaymentID x = pr_id row \<longrightarrow> vc_mode v = ExecutionModeTestnet"
    by (rule requested_row [OF assms(4-9)])
  from bench_request_simulated row(1) q have "vc_mode v = ExecutionModeSimulated" by (simp add: bench_post_def)
  with row sent show ?thesis by (auto simp: bench_get_def)
qed

text \<open>A request that finds its server, and the server's run of it.\<close>

definition bench_valid :: valid_create where
  "bench_valid = \<lparr>vc_key = ''k9'', vc_source = CHAIN_ETHEREUM, vc_dest = CHAIN_BASE, vc_asset = ASSET_USDC, vc_assetKey = ''usdc'',
     vc_amount = ''100'', vc_mode = ExecutionModeSimulated, vc_amountForRouting = fst (ParseFloat ''100'')\<rparr>"

lemma ParseFloat_100: "snd (ParseFloat ''100'')"
proof -
  have "parse_mantissa ''100'' = Some (100, 0)" by (simp add: parse_mantissa_def nat_of_digits_def digit_val_def is_digit_def)
  moreover have "exponent_at ''100'' = None" by (simp add: exponent_at_def)
  moreover have "float_bits 100 (Suc 0) < 2047 * 2 ^ 52"
  proof -
    have "bitlen 100 = 7" using bitlen_le_iff_power [of 100 7] bitlen_ge_iff_power [of 7 100] by simp
    moreover have "bitlen 1 = 1" using bitlen_le_iff_power [of 1 1] bitlen_ge_iff_power [of 1 1] by simp
    ultimately have "magnitude_exponent 100 (Suc 0) = 6" by (simp add: magnitude_exponent_def Let_def)
    moreover have "scaled 100 (Suc 0) (- 46) = 100 * 2 ^ 46" by (simp add: scaled_def round_even_def)
    ultimately show ?thesis by (simp add: float_bits_def Let_def)
  qed
  ultimately show ?thesis by (simp add: ParseFloat_def parse_exponent_def Let_def)
qed

lemma bench_check: "check_create ''k9'' (Some bench_body) = Inr bench_valid"
proof -
  have "lower_key ''base'' = ''base''" "lower_key ''usdc'' = ''usdc''" by (code_simp, code_simp)
  with ParseFloat_100 show ?thesis
    by (cases "ParseFloat ''100''")
       (simp add: check_create_def TrimSpace_k9 bench_body_def dec_createPaymentRequest_def create_request_zero_def fld_def ToLower_create_keys
        ToLower_relay_keys lower_key_names chainByName_def assetByName_def amountPattern_def digits_between_def is_digit_def isZeroAmount_def
        bench_valid_def Let_def del: lower_key.simps)
qed

lemma bench_amount: "DecimalToBaseUnits ''100'' 18 = Inr (10 ^ 20)" "numeric_in 18 ''100'' = Some (10 ^ 20)"
  "numeric_equal 0 ''100'' = Some False"
  by (simp_all add: DecimalToBaseUnits_def numeric_in_def numeric_equal_def numeric_magnitude_def int_part_def frac_part_def SetString10_def
      Repeat_def parse_digits_def Let_def is_digit_def digit_val_def nat_of_digits_def replicate_numeral_step)

lemma bench_answered:
  "\<exists>resp w'. run (PostPayments demo_handler ''k9'' (Some bench_body)) (replicate 4 demo_front) demo_seeded = (Some (Inr resp), w', []) \<and>
     hs_Status resp = 201"
proof -
  have db: "w_db demo_seeded = demo_db [] [] [] 7 [] 0" using demo_seeded_eval by (metis world.select_convs(1))
  have look: "run (LookupByIdempotencyKey (lookup_candidate bench_valid)) (demo_front # is) demo_seeded = (Some (Inr None), demo_seeded, is)" for "is"
    by (simp add: LookupByIdempotencyKey_def findByIdempotencyKey_def run_tryp wrapp_def wrap_err_def run_bindp run_query_ok demo_front_sel
        lookup_candidate_def bench_valid_def bench_amount db demo_db_def sql_select_def Let_def)
  have "\<exists>resp w'. run (create_routed bench_valid [] \<lparr>fs_RouteFound = True, fs_Hops = [demo_hop], fs_TotalFee = 0\<rparr>)
    (demo_front # [demo_front]) w = (Some (Inr resp), w', []) \<and> hs_Status resp = 201" if "w_db w = demo_db [] [] [] 7 [] 0" for w
    using that
    by (simp add: create_routed_def demo_hop_def hop_of_def enumerate_eq_zip Let_def bench_valid_def lookup_candidate_def run_bindp run_Inc
        Observe_def ask_env_def create_payment_def run_tryp CreateOrGetPayment_def findByIdempotencyKey_def wrapp_def wrap_err_def sql_query_def
        run_sql sql_reply_def sql_effect_def demo_front_sel shuffle_def bench_amount demo_db_def create_tx_def new_payment_row_def
        numeric_fits_def normalizeExecutionMode_def int4_fits_def sql_select_def)
  then have "\<exists>resp w'. run (route_and_create bench_valid [] []) (demo_front # demo_front # [demo_front]) demo_seeded = (Some (Inr resp), w', []) \<and> hs_Status resp = 201"
    unfolding route_and_create_def Let_def
    by (simp add: run_bindp run_Inc Observe_def call_out_def demo_front_sel db del: ex_simps)
  moreover have "vc_mode bench_valid = ExecutionModeSimulated" by (simp add: bench_valid_def)
  ultimately show ?thesis
    by (simp add: PostPayments_def bench_check run_tryp look replicate_numeral_step)
qed

theorem benchmark_never_spends_witness:
  "\<exists>resp w'. run (PostPayments demo_handler ''k9'' (Some bench_body)) (replicate 4 demo_front) demo_seeded = (Some (Inr resp), w', []) \<and>
     (\<exists>row \<in> set (payments w'). pr_execution_mode row = ExecutionModeSimulated \<and> (\<forall>x \<in> set (executions w'). x_PaymentID x \<noteq> pr_id row))"
proof -
  obtain resp w' where run: "run (PostPayments demo_handler ''k9'' (Some bench_body)) (replicate 4 demo_front) demo_seeded = (Some (Inr resp), w', [])"
    "hs_Status resp = 201" using bench_answered by blast
  have "run (runOnePayment ''http://h'' ''k9'') [demo_clock 0, demo_clock 1, demo_clock 2] [] =
      (Some (Inr (demo_refused 2)), [bench_post ''http://h'' ''k9''], [])"
    by (simp add: runOnePayment_def run_bench Let_def demo_clock_def demo_refused_def)
  from benchmark_never_spends [OF this, of "bench_post ''http://h'' ''k9''", OF _ _ demo_executor_ok demo_seeded_reach demo_server_handler,
      of "replicate 4 demo_front" resp w' "[]", OF _ _ _ _ rtranclp.rtrancl_refl] run
  show ?thesis by (fastforce simp: bench_post_def)
qed

end
