(* ===== verification/Isolation.thy ===== *)
theory Isolation
  imports Safety Effects
begin

text \<open>
  Payments do not interfere. Handling one payment, whatever the answers and wherever it stops, leaves the row
  of every other payment as it was, and the hops, the quotes and the outbox of all of them.
\<close>

definition others :: "string \<Rightarrow> world \<Rightarrow> payment_row list" where
  "others pid w = filter (\<lambda>r. uuid_in pid \<noteq> Some (pr_id r)) (payments w)"

definition apart :: "string \<Rightarrow> world \<Rightarrow> world \<Rightarrow> bool" where
  "apart pid w w' \<longleftrightarrow> others pid w' = others pid w \<and> db_hops (w_db w') = db_hops (w_db w) \<and>
     db_quotes (w_db w') = db_quotes (w_db w) \<and> db_outbox (w_db w') = db_outbox (w_db w)"

lemma apart_refl [simp]: "apart pid w w"
  by (simp add: apart_def)

lemma apart_trans: "apart pid w w' \<Longrightarrow> apart pid w' w'' \<Longrightarrow> apart pid w w''"
  by (simp add: apart_def)

lemma apart_met [simp]: "apart pid w (w\<lparr>w_met := m\<rparr>)" "apart pid w (w\<lparr>w_trace := t\<rparr>)"
  by (simp_all add: apart_def others_def)

abbreviation solo :: "string \<Rightarrow> 'a pr \<Rightarrow> bool" where
  "solo pid p \<equiv> effects (\<lambda>_. True) (apart pid) p (\<lambda>_. True)"

text \<open>A statement, by what it does to the tables when it commits.\<close>

lemma solo_sql:
  assumes "\<And>i d v d'. q i d = Inr (v, d') \<Longrightarrow> filter (\<lambda>r. uuid_in pid \<noteq> Some (pr_id r)) (db_payments d') =
      filter (\<lambda>r. uuid_in pid \<noteq> Some (pr_id r)) (db_payments d) \<and> db_hops d' = db_hops d \<and> db_quotes d' = db_quotes d \<and>
      db_outbox d' = db_outbox d"
  shows "solo pid (sql q)"
proof -
  have "apart pid w (w\<lparr>w_db := sql_effect q i (w_db w)\<rparr>)" for i w
    using assms [of i "w_db w"] by (auto simp: apart_def others_def sql_effect_def split: sum.splits prod.splits db_fault.splits)
  then show ?thesis by (simp add: sql_def)
qed

lemma solo_transition:
  assumes "\<And>now r. pr_id (upd now r) = pr_id r"
  shows "solo pid (sql (transition pid from upd))"
proof (rule solo_sql)
  fix i d v d'
  assume "transition pid from upd i d = Inr (v, d')"
  then obtain u where "uuid_in pid = Some u" "d' = d\<lparr>db_payments := sql_update (\<lambda>r. pr_id r = u \<and> pr_status r = from) (upd (e_now i)) (db_payments d)\<rparr>"
    by (auto simp: transition_def uuid_arg_Inr Let_def split: option.splits)
  moreover have "filter (\<lambda>r. pr_id r \<noteq> u) (sql_update (\<lambda>r. pr_id r = u \<and> pr_status r = from) (upd (e_now i)) t) = filter (\<lambda>r. pr_id r \<noteq> u) t" for u t
    using assms by (induction t) (auto simp: sql_update_def)
  ultimately show "filter (\<lambda>r. uuid_in pid \<noteq> Some (pr_id r)) (db_payments d') =
      filter (\<lambda>r. uuid_in pid \<noteq> Some (pr_id r)) (db_payments d) \<and> db_hops d' = db_hops d \<and> db_quotes d' = db_quotes d \<and> db_outbox d' = db_outbox d"
    by (simp add: eq_commute [of u])
qed


text \<open>The calls that touch no payment.\<close>

lemma solo_sql_query: "solo pid (sql_query q)"
  unfolding sql_query_def by (rule solo_sql) (auto simp: map_sum_def split: sum.splits)

lemma solo_calls:
  "solo pid (call_out reply ev)" "solo pid Now" "solo pid (ask_env f)" "solo pid (Done a)"
  "solo pid (Inc m l)" "solo pid (Observe m l)"
  by (simp_all add: call_out_def Now_def ask_env_def Inc_def Observe_def)

lemma solo_wrapp: "solo pid p \<Longrightarrow> solo pid (wrapp s p)"
  unfolding wrapp_def by (rule effects_then) simp_all

lemma solo_executions: "solo pid (sql (update_execution xid upd))" "solo pid (sql (create_execution_tx p))"
  by (rule solo_sql; auto simp: update_execution_def uuid_arg_Inr create_execution_tx_def Let_def split: option.splits if_splits)+

lemmas solo_rules = solo_sql_query solo_calls solo_wrapp solo_executions effects_then effects_try effects_voidp effects_forp effects_foldp effects_cases

lemma solo_reads: "solo pid (GetPayment pid')" "solo pid (GetQuoteByPaymentID pid')"
  unfolding GetPayment_def hopsForPayment_def GetQuoteByPaymentID_def by (rule solo_rules)+

text \<open>The transitions of the payment itself, and the updates of execution rows.\<close>

lemma solo_status:
  "solo pid (ClaimPayment pid)" "solo pid (CompletePayment pid s)" "solo pid (MarkSubmitted pid)"
  "solo pid (CompleteSubmittedPayment pid s)" "solo pid (MarkProcessingFailed pid reason)"
  unfolding ClaimPayment_def CompletePayment_def MarkSubmitted_def CompleteSubmittedPayment_def MarkProcessingFailed_def
  by (rule solo_rules | rule solo_transition, simp)+

lemma solo_execution_rows:
  "solo pid (PersistSignedExecution xid raw hash ref)" "solo pid (MarkExecutionBroadcast xid)"
  "solo pid (UpdateExecutionExternalStatus xid xs rs t)"
  unfolding PersistSignedExecution_def MarkExecutionBroadcast_def UpdateExecutionExternalStatus_def by (rule solo_rules)+

text \<open>The execution a call creates is that of its payment.\<close>

lemma effects_TryCreateExecution:
  "effects (\<lambda>_. True) (apart pid) (TryCreateExecution p) (\<lambda>r. \<forall>x. r = Inr (Some x) \<longrightarrow> x_PaymentID x = cp_PaymentID p)"
  unfolding TryCreateExecution_def tryp_def
  by (rule effects_then [OF solo_executions(2)]) (auto split: sum.split option.split)

lemma solo_broadcast:
  "solo pid (broadcastWithRecovery e x)" "x_PaymentID x = pid \<Longrightarrow> solo pid (mark_broadcast_submitted wrap x)"
  unfolding broadcastWithRecovery_def mark_broadcast_submitted_def Let_def
  by (rule solo_rules | simp only: solo_status solo_execution_rows)+

lemma solo_run_signed: "x_PaymentID x = pid \<Longrightarrow> solo pid (run_signed e x envelope q label)"
  unfolding run_signed_def signAndBroadcastFresh_def Let_def
  by (rule solo_broadcast solo_execution_rows solo_rules | simp)+

lemma solo_fail_payment: "solo pid (fail_payment pid label class reason)"
  unfolding fail_payment_def by (rule solo_status solo_rules)+

lemma solo_with_fresh_quote: "(\<And>amt q. solo pid (k amt q)) \<Longrightarrow> solo pid (with_fresh_quote pid' quoteRow pv k)"
  unfolding with_fresh_quote_def get_quote_def by (rule solo_reads solo_rules | assumption)+

lemma solo_created:
  assumes "\<forall>x. Inr created = Inr (Some x) \<longrightarrow> x_PaymentID x = pid"
  shows "solo pid (case created of None \<Rightarrow> Done (Inr ()) | Some x \<Rightarrow> bindp (Inc m l) (\<lambda>_. run_signed e x envelope q label))"
  using assms by (cases created) (auto intro: effects_then solo_calls solo_run_signed)

lemma solo_execute_fresh: "solo pid (execute_fresh e pid quoteRow amt q)"
  unfolding execute_fresh_def Let_def
  by (rule solo_fail_payment effects_try_known [OF effects_TryCreateExecution] solo_created solo_rules | simp)+

lemma solo_ExecuteTestnetPayment: "solo pid (ExecuteTestnetPayment e pid)"
  unfolding ExecuteTestnetPayment_def
  by (rule solo_fail_payment solo_with_fresh_quote solo_execute_fresh solo_reads solo_rules)+

lemma solo_DriveExecutionForward: "x_PaymentID x = pid \<Longrightarrow> solo pid (DriveExecutionForward e x)"
  unfolding DriveExecutionForward_def drive_signed_def drive_unsigned_def drive_fresh_def Let_def
  by (rule solo_fail_payment solo_with_fresh_quote solo_run_signed solo_broadcast solo_reads solo_rules | simp only:)+

lemma solo_count_finished: "solo pid (count_finished mode s class)"
  unfolding count_finished_def by (rule solo_rules)+

lemma solo_markTerminal: "x_PaymentID x = pid \<Longrightarrow> solo pid (markTerminal x result s)"
  unfolding markTerminal_def Let_def
  by (rule solo_execution_rows solo_rules | simp only: solo_status)+

text \<open>The operations of the worker on one payment, each an entry point of its own sweep or loop.\<close>

lemma solo_worker:
  "ev_PaymentID evt = pid \<Longrightarrow> solo pid (consume_message po (Some evt))"
  "solo pid (recover_one pid n)"
  "x_PaymentID x = pid \<Longrightarrow> solo pid (checkAndUpdateOutcome rc x)"
  unfolding consume_message_def HandleRoutedPayment_def recover_one_def checkAndUpdateOutcome_def check_status_def Let_def option.case
  by (rule solo_ExecuteTestnetPayment solo_count_finished solo_markTerminal solo_rules | simp only: solo_status solo_ExecuteTestnetPayment)+

section \<open>No interference between payments\<close>

text \<open>\<open>handles pid p\<close>: the process \<open>p\<close> is one of the worker's operations on the payment \<open>pid\<close>.\<close>

inductive handles :: "string \<Rightarrow> unit pr \<Rightarrow> bool" where
  message: "ev_PaymentID evt = pid \<Longrightarrow> handles pid (voidp (consume_message po (Some evt)))"
| recovery: "handles pid (voidp (recover_one pid n))"
| execution: "handles pid (voidp (ExecuteTestnetPayment e pid))"
| drive: "x_PaymentID x = pid \<Longrightarrow> handles pid (voidp (DriveExecutionForward e x))"
| outcome: "x_PaymentID x = pid \<Longrightarrow> handles pid (voidp (checkAndUpdateOutcome rc x))"

lemma solo_handles: "handles pid p \<Longrightarrow> solo pid p"
  by (cases rule: handles.cases, assumption)
     (auto intro!: effects_voidp solo_worker solo_ExecuteTestnetPayment solo_DriveExecutionForward)

definition untouched :: "string \<Rightarrow> world \<Rightarrow> world \<Rightarrow> bool" where
  "untouched k w w' \<longleftrightarrow> filter (\<lambda>r. pr_id r = k) (payments w') = filter (\<lambda>r. pr_id r = k) (payments w) \<and>
     db_hops (w_db w') = db_hops (w_db w) \<and> db_quotes (w_db w') = db_quotes (w_db w) \<and> db_outbox (w_db w') = db_outbox (w_db w)"

lemma apart_untouched:
  assumes "apart pid w w'" "uuid_in pid \<noteq> Some k"
  shows "untouched k w w'"
proof -
  have "filter (\<lambda>r. uuid_in pid \<noteq> Some (pr_id r) \<and> pr_id r = k) t = filter (\<lambda>r. pr_id r = k) t" for t
    using assms(2) by (induction t) auto
  then have eq: "filter (\<lambda>r. pr_id r = k) (others pid v) = filter (\<lambda>r. pr_id r = k) (payments v)" for v
    by (simp add: others_def)
  show ?thesis
    unfolding untouched_def eq [symmetric] using assms(1) by (simp add: apart_def)
qed

text \<open>
  C14. Payments do not interfere: while any number of the worker's goroutines handle other payments, interleaved in any
  order, with any failure and any crash (messages, recovery, execution, resumption and the outcome of a broadcast),
  the row of the payment \<open>k\<close> stays exactly as it is, and so do all hops, quotes and outbox rows.
\<close>

theorem payments_isolated:
  assumes "(sys_step (\<lambda>p. \<exists>pid. uuid_in pid \<noteq> Some k \<and> handles pid p) lock_loss)\<^sup>*\<^sup>* (w, []) (w', ts)"
  shows "filter (\<lambda>r. pr_id r = k) (payments w') = filter (\<lambda>r. pr_id r = k) (payments w) \<and>
    db_hops (w_db w') = db_hops (w_db w) \<and> db_quotes (w_db w') = db_quotes (w_db w) \<and> db_outbox (w_db w') = db_outbox (w_db w)"
proof -
  have "effects (\<lambda>_. True) (untouched k) p (\<lambda>_. True)" if "\<exists>pid. uuid_in pid \<noteq> Some k \<and> handles pid p" for p
    using that effects_mono [OF solo_handles] apart_untouched by metis
  moreover have "untouched k v v'" if "lock_loss v v'" for v v' using that by (auto simp: lock_loss_def untouched_def)
  ultimately show ?thesis
    using effects_steps [of _ "untouched k" lock_loss, OF _ _ _ _ assms] by (simp add: untouched_def)
qed

theorem payments_isolated_witness:
  "filter (\<lambda>r. pr_id r = demo_id 0) (payments (run_world (voidp (consume_message demo_processor (Some (demo_event (demo_id 16))))) [demo_env 0, demo_env 0] demo_created)) =
     filter (\<lambda>r. pr_id r = demo_id 0) (payments demo_created)"
proof -
  let ?E = "\<lambda>p. \<exists>pid. uuid_in pid \<noteq> Some (demo_id 0) \<and> handles pid p"
  let ?p = "voidp (consume_message demo_processor (Some (demo_event (demo_id 16))))"
  have "?E ?p" by (intro exI [of _ "demo_id 16"] conjI handles.message) (simp_all add: demo_event_def)
  then have "sys_step ?E lock_loss (demo_created, []) (demo_created, [?p])" using sys_step.spawn [of ?E ?p lock_loss demo_created "[]"] by simp
  moreover obtain q where "(sys_step ?E lock_loss)\<^sup>*\<^sup>* (demo_created, [] @ [?p]) (run_world ?p [demo_env 0, demo_env 0] demo_created, [] @ [q])"
    by (rule exE [OF run_steps [of ?E lock_loss demo_created "[]" ?p "[demo_env 0, demo_env 0]"]])
  ultimately have "(sys_step ?E lock_loss)\<^sup>*\<^sup>* (demo_created, []) (run_world ?p [demo_env 0, demo_env 0] demo_created, [q])" by simp
  from payments_isolated [OF this] show ?thesis by simp
qed

end
