(* ===== verification/Resumption.thy ===== *)
theory Resumption
  imports Isolation Testnet_Behaviour Termination Behaviour
begin

text \<open>
  Recovery from a crash between signing and submitting. The reconciler's sweep \<open>driveStaleNotYetBroadcast\<close> looks
  each stale execution up again and drives it forward; a row that carries signed bytes is finished with
  exactly those bytes, whatever the other candidates of the same sweep run into.
\<close>

section \<open>What driving one execution leaves alone\<close>

text \<open>The execution rows of other identifiers.\<close>

definition spares :: "string \<Rightarrow> world \<Rightarrow> world \<Rightarrow> bool" where
  "spares k w w' \<longleftrightarrow> filter (\<lambda>x. x_ID x \<noteq> k) (executions w') = filter (\<lambda>x. x_ID x \<noteq> k) (executions w)"

lemma spares_simps [simp]: "spares k w w" "spares k w (w\<lparr>w_met := m\<rparr>)" "spares k w (w\<lparr>w_trace := t\<rparr>)"
  by (simp_all add: spares_def)

lemma spares_trans: "spares k w w' \<Longrightarrow> spares k w' w'' \<Longrightarrow> spares k w w''"
  by (simp add: spares_def)

abbreviation lone :: "string \<Rightarrow> 'a pr \<Rightarrow> bool" where
  "lone k p \<equiv> effects (\<lambda>_. True) (spares k) p (\<lambda>_. True)"

lemma lone_sql:
  assumes "\<And>i d v d'. q i d = Inr (v, d') \<Longrightarrow> filter (\<lambda>x. x_ID x \<noteq> k) (db_executions d') = filter (\<lambda>x. x_ID x \<noteq> k) (db_executions d)"
  shows "lone k (sql q)"
proof -
  have "spares k w (w\<lparr>w_db := sql_effect q i (w_db w)\<rparr>)" for i w
    using assms [of i "w_db w"] by (auto simp: spares_def sql_effect_def split: sum.splits prod.splits db_fault.splits)
  then show ?thesis by (simp add: sql_def)
qed

lemma lone_calls:
  "lone k (sql_query q)" "lone k (sql (transition pid from upd))"
  "lone k (call_out reply ev)" "lone k Now" "lone k (ask_env f)" "lone k (Done a)" "lone k (Inc m l)" "lone k (Observe m l)"
proof -
  show "lone k (sql_query q)" "lone k (sql (transition pid from upd))"
    unfolding sql_query_def by (rule lone_sql; auto simp: map_sum_def transition_def uuid_arg_Inr Let_def split: sum.splits)+
qed (simp_all add: call_out_def Now_def ask_env_def Inc_def Observe_def)

lemma lone_wrapp: "lone k p \<Longrightarrow> lone k (wrapp s p)"
  unfolding wrapp_def by (rule effects_then) simp_all

lemma lone_update:
  assumes "uuid_in k = Some k" "\<And>now x. x_ID (upd now x) = x_ID x"
  shows "lone k (sql (update_execution k upd))"
proof (rule lone_sql)
  fix i d v d'
  assume "update_execution k upd i d = Inr (v, d')"
  then have "db_executions d' = sql_update (\<lambda>x. x_ID x = k) (upd (e_now i)) (db_executions d)"
    using assms(1) by (auto simp: update_execution_def uuid_arg_Inr)
  moreover have "filter (\<lambda>x. x_ID x \<noteq> k) (sql_update (\<lambda>x. x_ID x = k) (upd (e_now i)) t) = filter (\<lambda>x. x_ID x \<noteq> k) t" for t
    using assms(2) by (induction t) (auto simp: sql_update_def)
  ultimately show "filter (\<lambda>x. x_ID x \<noteq> k) (db_executions d') = filter (\<lambda>x. x_ID x \<noteq> k) (db_executions d)" by simp
qed

lemmas lone_rules = lone_calls lone_wrapp effects_then effects_try effects_voidp effects_cases

lemma lone_store:
  "lone k (GetPayment pid)" "lone k (GetQuoteByPaymentID pid)" "lone k (MarkSubmitted pid)" "lone k (MarkProcessingFailed pid reason)"
  unfolding GetPayment_def hopsForPayment_def GetQuoteByPaymentID_def MarkSubmitted_def MarkProcessingFailed_def
  by (rule lone_rules)+

lemma lone_rows:
  assumes "uuid_in k = Some k"
  shows "lone k (PersistSignedExecution k raw hash ref)" "lone k (MarkExecutionBroadcast k)"
  unfolding PersistSignedExecution_def MarkExecutionBroadcast_def by (rule lone_wrapp, rule lone_update [OF assms], simp)+

lemma lone_DriveExecutionForward:
  assumes "uuid_in (x_ID x) = Some (x_ID x)"
  shows "lone (x_ID x) (DriveExecutionForward e x)"
  unfolding DriveExecutionForward_def drive_signed_def drive_unsigned_def with_fresh_quote_def get_quote_def drive_fresh_def
    run_signed_def signAndBroadcastFresh_def broadcastWithRecovery_def mark_broadcast_submitted_def fail_payment_def Let_def
  by (rule lone_store lone_rows [OF assms] lone_rules | (simp add: lone_rows [OF assms])[1])+

section \<open>Finishing a signed execution\<close>

text \<open>The database answers, and the node knows the transaction or takes it.\<close>

definition in_service :: "env \<Rightarrow> bool" where
  "in_service i \<longleftrightarrow> ok_env i \<and> (e_lookup i = Inl NotFound \<or> \<not> isl (e_lookup i)) \<and> e_send i = Inr ()"

text \<open>The transaction with the persisted bytes of the execution reached the chain.\<close>

definition delivered :: "Executor \<Rightarrow> Execution \<Rightarrow> world \<Rightarrow> bool" where
  "delivered e x w \<longleftrightarrow> (\<exists>raw stx. x_RawSignedTx x = Some raw \<and> g_UnmarshalBinary (ex_Geth e) raw = Inr stx \<and>
     (EvSend stx (Inr ()) \<in> set (w_trace w) \<or> (\<exists>b. EvLookup (g_Hash (ex_Geth e) stx) (Inr b) \<in> set (w_trace w))))"

definition resumed :: "Executor \<Rightarrow> Execution \<Rightarrow> world \<Rightarrow> bool" where
  "resumed e x w \<longleftrightarrow> delivered e x w \<and>
     (\<exists>y \<in> set (executions w). x_ID y = x_ID x \<and> x_Nonce y = x_Nonce x \<and> x_RawSignedTx y = x_RawSignedTx x \<and> x_BroadcastAt y \<noteq> None) \<and>
     (\<forall>r \<in> set (payments w). pr_id r = x_PaymentID x \<longrightarrow> pr_status r \<noteq> PROCESSING)"

lemma run_mark_broadcast_submitted:
  assumes "ok_env i" "ok_env j" "uuid_in (x_ID x) = Some (x_ID x)" "uuid_in (x_PaymentID x) = Some (x_PaymentID x)"
  shows "\<exists>w'. run (mark_broadcast_submitted f x) (i # j # js) w = (Some (Inr ()), w', js) \<and> w_trace w' = w_trace w \<and>
    executions w' = sql_update (\<lambda>y. x_ID y = x_ID x) (\<lambda>y. y\<lparr>x_BroadcastAt := Some (e_now i), x_UpdatedAt := e_now i\<rparr>) (executions w) \<and>
    payments w' = sql_update (\<lambda>r. pr_id r = x_PaymentID x \<and> pr_status r = PROCESSING)
      (\<lambda>r. r\<lparr>pr_status := SUBMITTED, pr_updated_at := e_now j\<rparr>) (payments w)"
  by (simp add: mark_broadcast_submitted_def run_tryp MarkExecutionBroadcast_def run_update_execution [OF assms(1,3)]
      MarkSubmitted_def run_transition_ok [OF assms(2,4)])

lemma run_broadcast_in_service:
  assumes "geth_ok (ex_Geth e)" "x_RawSignedTx x = Some raw" "g_UnmarshalBinary (ex_Geth e) raw = Inr stx"
    "x_SignedTxHash x = Some (g_HashHex (ex_Geth e) (g_Hash (ex_Geth e) stx))" "in_service i" "in_service j"
  shows "\<exists>b evs ks. run (broadcastWithRecovery e x) (i # j # js) w = (Some (Inr b), w\<lparr>w_trace := evs @ w_trace w\<rparr>, ks @ js) \<and>
    ks \<in> {[], [j]} \<and> delivered e x (w\<lparr>w_trace := evs @ w_trace w\<rparr>)"
proof -
  have hash: "g_HexToHash (ex_Geth e) (g_HashHex (ex_Geth e) h) = h" for h using assms(1) by (simp add: geth_ok_def)
  show ?thesis
  proof (cases "e_lookup i")
    case (Inl err)
    with assms(5,6) show ?thesis
      by (intro exI [of _ True] exI [of _ "[EvSend stx (Inr ()), EvLookup (g_Hash (ex_Geth e) stx) (Inl NotFound)]"] exI [of _ "[]"])
         (auto simp: broadcastWithRecovery_def assms(2-4) hash run_bindp run_tryp call_out_def in_service_def delivered_def)
  next
    case (Inr b)
    then show ?thesis
      by (intro exI [of _ False] exI [of _ "[EvLookup (g_Hash (ex_Geth e) stx) (Inr b)]"] exI [of _ "[j]"])
         (auto simp: broadcastWithRecovery_def assms(2-4) hash run_bindp run_tryp call_out_def in_service_def delivered_def)
  qed
qed

lemma run_drive_signed:
  assumes ok: "executor_ok e" and inv: "sys_inv e w" and x: "x \<in> set (executions w)" "x_SignedTxHash x \<noteq> None"
    and env: "list_all in_service is" "4 \<le> length is"
  shows "\<exists>w' js. run (DriveExecutionForward e x) is w = (Some (Inr ()), w', js) \<and> resumed e x w'"
proof -
  have known: "exec_known e w x" by (rule exec_known_row [OF inv x(1)])
  have exec: "exec_ok e w x" using inv x(1) by (simp add: sys_inv_def)
  then obtain raw stx where raw: "x_RawSignedTx x = Some raw" "g_UnmarshalBinary (ex_Geth e) raw = Inr stx"
    "x_SignedTxHash x = Some (g_HashHex (ex_Geth e) (g_Hash (ex_Geth e) stx))"
    using x(2) by (fastforce simp: exec_ok_def)
  obtain i j k l js where "is": "is = i # j # k # l # js"
    using env(2) by (auto simp: Suc_le_length_iff numeral_eq_Suc)
  obtain b evs ks where cast: "run (broadcastWithRecovery e x) is w = (Some (Inr b), w\<lparr>w_trace := evs @ w_trace w\<rparr>, ks @ k # l # js)"
      "ks \<in> {[], [j]}" "delivered e x (w\<lparr>w_trace := evs @ w_trace w\<rparr>)"
    using run_broadcast_in_service [OF _ raw, of i j "k # l # js" w] ok env(1) unfolding "is" executor_ok_def by auto
  obtain a c cs where ac: "ks @ k # l # js = a # c # cs" "ok_env a" "ok_env c"
    using cast(2) env(1) "is" by (auto simp: in_service_def)
  let ?label = "SanitizeProviderLabel (x_BridgeProvider x)"
  have "\<exists>m. \<forall>ks. run (if b then bindp (Inc ''Broadcasts'' [?label]) (\<lambda>_. Observe ''ExecutionDuration'' [?label]) else Done ()) ks
      (w\<lparr>w_trace := evs @ w_trace w\<rparr>) = (Some (), w\<lparr>w_trace := evs @ w_trace w, w_met := m\<rparr>, ks)"
    by (cases b; cases w) (simp_all add: run_bindp Inc_def Observe_def)
  then obtain m where met: "\<And>ks. run (if b then bindp (Inc ''Broadcasts'' [?label]) (\<lambda>_. Observe ''ExecutionDuration'' [?label]) else Done ()) ks
      (w\<lparr>w_trace := evs @ w_trace w\<rparr>) = (Some (), w\<lparr>w_trace := evs @ w_trace w, w_met := m\<rparr>, ks)" by blast
  define w1 where "w1 = w\<lparr>w_trace := evs @ w_trace w, w_met := m\<rparr>"
  obtain w' where w': "run (mark_broadcast_submitted (\<lambda>err. err) x) (a # c # cs) w1 = (Some (Inr ()), w', cs)" "w_trace w' = w_trace w1"
      "executions w' = sql_update (\<lambda>y. x_ID y = x_ID x) (\<lambda>y. y\<lparr>x_BroadcastAt := Some (e_now a), x_UpdatedAt := e_now a\<rparr>) (executions w1)"
      "payments w' = sql_update (\<lambda>r. pr_id r = x_PaymentID x \<and> pr_status r = PROCESSING)
         (\<lambda>r. r\<lparr>pr_status := SUBMITTED, pr_updated_at := e_now c\<rparr>) (payments w1)"
    using run_mark_broadcast_submitted [OF ac(2,3), of x "\<lambda>err. err" cs w1] known unfolding exec_known_def by blast
  have "x\<lparr>x_BroadcastAt := Some (e_now a), x_UpdatedAt := e_now a\<rparr> \<in> set (executions w')"
    unfolding w'(3) by (rule in_sql_update_key) (simp_all add: w1_def x(1))
  moreover have "delivered e x w'" using cast(3) w'(2) by (simp add: delivered_def w1_def)
  moreover have "\<forall>r \<in> set (payments w'). pr_id r = x_PaymentID x \<longrightarrow> pr_status r \<noteq> PROCESSING" unfolding w'(4) by (auto simp: sql_update_def)
  ultimately have "resumed e x w'"
    unfolding resumed_def by (intro conjI bexI [of _ "x\<lparr>x_BroadcastAt := Some (e_now a), x_UpdatedAt := e_now a\<rparr>"]) simp_all
  moreover have "run (DriveExecutionForward e x) is w = (Some (Inr ()), w', cs)"
    using x(2) w'(1)
    by (simp add: DriveExecutionForward_def drive_signed_def Let_def run_tryp cast(1) ac(1) run_bindp [of "If _ _ _"] met flip: w1_def)
  ultimately show ?thesis by blast
qed

section \<open>The sweep\<close>

text \<open>The body of the loop of \<open>driveStaleNotYetBroadcast\<close>.\<close>

abbreviation drive_candidate :: "Executor \<Rightarrow> Execution \<Rightarrow> unit pr" where
  "drive_candidate e c \<equiv>
     (if x_BroadcastAt c \<noteq> None then Done ()
      else tryp (GetExecutionByPaymentID (x_PaymentID c)) (\<lambda>err. Done ())
        (\<lambda>found. case found of
           None \<Rightarrow> Done ()
         | Some fresh \<Rightarrow>
             if x_BroadcastAt fresh \<noteq> None then Done ()
             else voidp (DriveExecutionForward e fresh)))"

lemma ends_run_signed [ends]: "ends_within (run_signed e x envelope q label) 7"
  unfolding run_signed_def
  by (rule ends_split | (rule ends_bind ends_try, rule ends, simp) | (rule ends_mono, rule ends, simp))+

lemma ends_drive_fresh [ends]: "ends_within (drive_fresh e x q v fq) 7"
  unfolding drive_fresh_def Let_def
  by (rule ends_split | (rule ends_bind ends_try, rule ends, simp) | (rule ends_mono, rule ends, simp))+

lemma ends_drive_signed [ends]: "ends_within (drive_signed e x) 4"
  unfolding drive_signed_def Let_def
  by (rule ends_split | (rule ends_bind ends_try, rule ends, simp) | (rule ends_mono, rule ends, simp)
      | (rule ends_bind [where m = 0], (rule ends_split ends_bind [where m = 0] ends | simp)+))+

lemma ends_DriveExecutionForward [ends]: "ends_within (DriveExecutionForward e x) 12"
  unfolding DriveExecutionForward_def drive_unsigned_def with_fresh_quote_def get_quote_def
  by (rule ends_split | (rule ends_bind ends_try, rule ends, simp) | (rule ends_mono, rule ends, simp))+

lemma ends_drive_candidate: "ends_within (drive_candidate e c) 13"
  unfolding GetExecutionByPaymentID_def
  by (rule ends_split ends_voidp | (rule ends_bind ends_try, rule ends, simp) | (rule ends_mono, rule ends, simp))+

lemma run_leaves: "run p is w = (r, w', is') \<Longrightarrow> set is' \<subseteq> set is"
proof (induction p arbitrary: "is" w rule: proc_induct)
  case (Ask u c)
  then show ?case by (cases "is") fastforce+
qed auto

lemma execution_keys: "sys_inv e w \<Longrightarrow> distinct (map x_ID (executions w))" "sys_inv e w \<Longrightarrow> distinct (map x_PaymentID (executions w))"
  by (simp_all add: sys_inv_def keys_ok_def)

lemma run_GetExecutionByPaymentID:
  assumes "sys_inv e w" "x \<in> set (executions w)" "ok_env i"
  shows "run (GetExecutionByPaymentID (x_PaymentID x)) (i # is) w = (Some (Inr (Some x)), w, is)"
  using sql_row_key [OF execution_keys(2) [OF assms(1)] assms(2)] exec_known_row [OF assms(1,2)] assms(3)
  by (simp add: GetExecutionByPaymentID_def wrapp_def run_bindp run_query_ok uuid_arg_def exec_known_def wrap_err_def)

text \<open>Driving one row keeps the invariant and touches only its execution and its payment.\<close>

lemma drive_frame:
  assumes "executor_ok e" "sys_inv e w" "x \<in> set (executions w)" "run (voidp (DriveExecutionForward e x)) is w = (r, w', js)"
  shows "sys_inv e w'" "spares (x_ID x) w w'" "apart (x_PaymentID x) w w'" "evolves w w'"
proof -
  have known: "exec_known e w x" by (rule exec_known_row [OF assms(2,3)])
  have "keeps e (voidp (DriveExecutionForward e x)) (\<lambda>_ _. True) w"
    by (rule life.safe_voidp [OF assms(2) safe_DriveExecutionForward [OF assms(1,2) known]])
  from life.safe_run [OF this assms(2,4)] show "sys_inv e w'" "evolves w w'" by simp_all
  have w': "w' = run_world (voidp (DriveExecutionForward e x)) is w" using assms(4) by (simp add: run_world_def)
  have "lone (x_ID x) (voidp (DriveExecutionForward e x))"
    by (rule effects_voidp [OF lone_DriveExecutionForward]) (use known in \<open>simp add: exec_known_def\<close>)
  from effects_run [OF this TrueI TrueI] spares_trans show "spares (x_ID x) w w'" unfolding w' by simp
  from effects_run [OF effects_voidp [OF solo_DriveExecutionForward [OF refl]] TrueI TrueI] apart_trans
  show "apart (x_PaymentID x) w w'" unfolding w' by simp
qed

lemma spares_other: "spares k w w' \<Longrightarrow> x_ID x \<noteq> k \<Longrightarrow> x \<in> set (executions w') \<longleftrightarrow> x \<in> set (executions w)"
  unfolding spares_def by (drule arg_cong [where f = set]) auto

lemma apart_other: "apart pid w w' \<Longrightarrow> uuid_in pid \<noteq> Some (pr_id r) \<Longrightarrow> r \<in> set (payments w') \<longleftrightarrow> r \<in> set (payments w)"
  unfolding apart_def others_def by (elim conjE, drule arg_cong [where f = set]) auto

lemma resumed_other:
  assumes "resumed e x w" "spares (x_ID c) w w'" "apart (x_PaymentID c) w w'" "evolves w w'" "x_ID x \<noteq> x_ID c"
    "uuid_in (x_PaymentID c) = Some (x_PaymentID c)" "x_PaymentID x \<noteq> x_PaymentID c"
  shows "resumed e x w'"
proof -
  have "delivered e x w'" using assms(1,4) evolves_trace unfolding resumed_def delivered_def by meson
  moreover have "r \<in> set (payments w)" if "r \<in> set (payments w')" "pr_id r = x_PaymentID x" for r
    using apart_other [OF assms(3), of r] that assms(6,7) by simp
  ultimately show ?thesis
    using assms(1,5) spares_other [OF assms(2)] unfolding resumed_def by (metis (no_types, lifting))
qed

lemma run_candidate:
  assumes ok: "executor_ok e" and inv: "sys_inv e w" and y: "y \<in> set (executions w)" "exec_le c y"
    and env: "list_all in_service is" "13 \<le> length is"
  shows "\<exists>w' js. run (drive_candidate e c) is w = (Some (), w', js) \<and> list_all in_service js \<and> length is \<le> 13 + length js \<and>
    sys_inv e w' \<and> evolves w w' \<and> spares (x_ID c) w w' \<and> apart (x_PaymentID c) w w' \<and>
    (c \<in> set (executions w) \<and> x_SignedTxHash c \<noteq> None \<and> x_BroadcastAt c = None \<longrightarrow> resumed e c w')"
proof -
  obtain u w' js where run: "run (drive_candidate e c) is w = (Some u, w', js)" "length is \<le> 13 + length js"
    by (rule ends_run [OF ends_drive_candidate env(2)])
  have serving: "list_all in_service js" using run_leaves [OF run(1)] env(1) by (auto simp: list_all_iff)
  obtain i ks where "is": "is = i # ks" "ok_env i" "list_all in_service ks" "4 \<le> length ks"
    using env by (cases "is") (auto simp: in_service_def)
  have key: "x_ID c = x_ID y" "x_PaymentID c = x_PaymentID y" using y(2) by (simp_all add: exec_le_def)
  have get: "run (GetExecutionByPaymentID (x_PaymentID c)) is w = (Some (Inr (Some y)), w, ks)"
    using run_GetExecutionByPaymentID [OF inv y(1) "is"(2)] by (simp add: "is"(1) key(2))
  show ?thesis
  proof (cases "x_BroadcastAt c = None \<and> x_BroadcastAt y = None")
    case True
    with run(1) have drive: "run (voidp (DriveExecutionForward e y)) ks w = (Some u, w', js)" by (simp add: run_tryp get)
    note frame = drive_frame [OF ok inv y(1) drive]
    have "resumed e c w'" if "c \<in> set (executions w)" "x_SignedTxHash c \<noteq> None"
    proof -
      have "c = y" using distinct_map_eqD [OF execution_keys(1) [OF inv]] that(1) y(1) key(1) by blast
      with run_drive_signed [OF ok inv that "is"(3,4)] drive show ?thesis by (auto simp: voidp_def run_bindp)
    qed
    then show ?thesis using run serving frame key by auto
  next
    case False
    then have "w' = w" using run(1) by (auto simp: run_tryp get split: if_splits)
    moreover have "x_BroadcastAt c \<noteq> None" if "c \<in> set (executions w)"
      using False distinct_map_eqD [OF execution_keys(1) [OF inv] that y(1) key(1)] by auto
    ultimately show ?thesis using run serving inv by auto
  qed
qed

lemma run_candidates:
  assumes ok: "executor_ok e" and "sys_inv e w" "list_all in_service is" "13 * length cs \<le> length is"
    "distinct (map x_ID cs)" "distinct (map x_PaymentID cs)" "\<forall>c \<in> set cs. \<exists>y \<in> set (executions w). exec_le c y"
  shows "\<exists>w' js. run (forp cs (drive_candidate e)) is w = (Some (), w', js) \<and>
    (\<forall>x. resumed e x w \<and> x_ID x \<notin> x_ID ` set cs \<and> x_PaymentID x \<notin> x_PaymentID ` set cs \<longrightarrow> resumed e x w') \<and>
    (\<forall>x \<in> set cs. x \<in> set (executions w) \<and> x_SignedTxHash x \<noteq> None \<and> x_BroadcastAt x = None \<longrightarrow> resumed e x w')"
  using assms(2-)
proof (induction cs arbitrary: "is" w)
  case Nil
  then show ?case by simp
next
  case (Cons c cs)
  from Cons.prems(6) obtain y where y: "y \<in> set (executions w)" "exec_le c y" by auto
  have "13 \<le> length is" using Cons.prems(3) by simp
  from run_candidate [OF ok Cons.prems(1) y Cons.prems(2) this] obtain w1 js where
    w1: "run (drive_candidate e c) is w = (Some (), w1, js)" "list_all in_service js" "length is \<le> 13 + length js"
      "sys_inv e w1" "evolves w w1" "spares (x_ID c) w w1" "apart (x_PaymentID c) w w1"
      "c \<in> set (executions w) \<and> x_SignedTxHash c \<noteq> None \<and> x_BroadcastAt c = None \<longrightarrow> resumed e c w1" by blast
  have "\<forall>c \<in> set cs. \<exists>y \<in> set (executions w1). exec_le c y"
    using Cons.prems(6) evolves_execution [OF w1(5)] exec_le_trans by (metis list.set_intros(2))
  then obtain w' ks where w': "run (forp cs (drive_candidate e)) js w1 = (Some (), w', ks)"
      "\<forall>x. resumed e x w1 \<and> x_ID x \<notin> x_ID ` set cs \<and> x_PaymentID x \<notin> x_PaymentID ` set cs \<longrightarrow> resumed e x w'"
      "\<forall>x \<in> set cs. x \<in> set (executions w1) \<and> x_SignedTxHash x \<noteq> None \<and> x_BroadcastAt x = None \<longrightarrow> resumed e x w'"
    using Cons.IH [OF w1(4,2)] w1(3) Cons.prems(3-5) by auto
  have uuid: "uuid_in (x_PaymentID c) = Some (x_PaymentID c)"
    using exec_known_row [OF Cons.prems(1) y(1)] y(2) by (simp add: exec_known_def exec_le_def)
  have "resumed e x w1" if "resumed e x w" "x_ID x \<noteq> x_ID c" "x_PaymentID x \<noteq> x_PaymentID c" for x
    by (rule resumed_other [OF that(1) w1(6,7,5) that(2) uuid that(3)])
  moreover have "x \<in> set (executions w1)" if "x \<in> set (executions w)" "x \<in> set cs" for x
    using spares_other [OF w1(6), of x] that Cons.prems(4) by (auto simp: image_iff)
  ultimately show ?case using w' w1(1,8) Cons.prems(4,5) by (auto simp: run_bindp)
qed

text \<open>
  C13. No signed transaction is lost in a crash: from any reachable state, one turn of the reconciler's sweep over the
  executions that were not broadcast, with the database and the node in service and enough answers for every
  candidate, ends, and every stale execution that carries signed bytes is finished by it: the transaction
  with exactly the persisted bytes was sent or found on the chain, the row has its old nonce and bytes and
  is marked broadcast, and its payment is no longer PROCESSING. Nothing is assumed about the other
  candidates of the sweep: they may lack a quote or fail each of their checks.
\<close>

theorem signed_executions_resumed:
  assumes "executor_ok (rc_Executor rc)" "reach (rc_Executor rc) (w, ts)"
    "in_service i" "list_all in_service is" "13 * length (executions w) \<le> length is"
    "x \<in> set (executions w)" "x_SignedTxHash x \<noteq> None" "x_BroadcastAt x = None" "x_UpdatedAt x < e_now i - rc_Staleness rc"
  shows "\<exists>w' js. run (driveStaleNotYetBroadcast rc) (i # is) w = (Some (), w', js) \<and> resumed (rc_Executor rc) x w'"
proof -
  let ?e = "rc_Executor rc"
  have inv: "sys_inv ?e w" using reach_inv [OF assms(1,2)] by simp
  define sel where "sel = sql_select (is_candidate (e_now i) (rc_Staleness rc)) (executions w)"
  define cs where "cs = shuffle (e_order i) sel"
  have mset: "mset cs = mset sel" by (simp add: cs_def)
  then have set: "set cs = set sel" by (metis set_mset_mset)
  have len: "length cs = length sel" using mset by (metis size_mset)
  have "mset (map x_ID cs) = mset (map x_ID sel)" "mset (map x_PaymentID cs) = mset (map x_PaymentID sel)" using mset by simp_all
  moreover have "distinct (map x_ID sel)" "distinct (map x_PaymentID sel)"
    using execution_keys [OF inv] by (simp_all add: sel_def sql_select_def distinct_map_filter)
  ultimately have "distinct (map x_ID cs)" "distinct (map x_PaymentID cs)" using mset_eq_imp_distinct_iff by blast+
  moreover have "length sel \<le> length (executions w)" by (simp add: sel_def sql_select_def)
  then have "13 * length cs \<le> length is" using assms(5) len by linarith
  moreover have "\<forall>c \<in> set cs. \<exists>y \<in> set (executions w). exec_le c y" by (auto simp: set sel_def sql_select_def intro!: exec_le_refl)
  ultimately obtain w' js where w': "run (forp cs (drive_candidate ?e)) is w = (Some (), w', js)"
      "\<forall>x \<in> set cs. x \<in> set (executions w) \<and> x_SignedTxHash x \<noteq> None \<and> x_BroadcastAt x = None \<longrightarrow> resumed ?e x w'"
    using run_candidates [OF assms(1) inv assms(4), of cs] by blast
  moreover have "x \<in> set cs" using assms(6-9) by (simp add: set sel_def sql_select_def is_candidate_def)
  ultimately have "resumed ?e x w'" using assms(6-8) by blast
  moreover have "run (ReconciliationCandidates (rc_Staleness rc)) (i # is) w = (Some (Inr cs), w, is)"
    using assms(3) by (simp add: ReconciliationCandidates_def wrapp_def run_bindp run_query_ok wrap_err_def in_service_def cs_def sel_def)
  ultimately show ?thesis using w'(1) by (simp add: driveStaleNotYetBroadcast_def run_tryp)
qed

text \<open>The worker crashes between persisting the signed bytes and sending them: ten answers of the fourteen.\<close>

definition demo_interrupted :: world where
  "demo_interrupted = run_world (voidp (consume_message demo_processor (Some (demo_event (demo_id 0))))) (replicate 10 (demo_env 0)) demo_created"

lemma demo_interrupted_reach: "reach (rc_Executor demo_reconciler) (demo_interrupted, [])"
  using reachable_run [OF demo_created_reach demo_consume_entry] by (simp add: demo_interrupted_def demo_reconciler_def)

lemma demo_interrupted_facts:
  "executions demo_interrupted = [(demo_exec ExtPending None None)\<lparr>x_BroadcastAt := None\<rparr>]"
proof -
  obtain m where eq: "demo_created = \<lparr>w_db = demo_db [demo_row 0 ''k1'' ExecutionModeTestnet ROUTED,
       demo_row 16 ''k2'' ExecutionModeSimulated ROUTED] [demo_quote_row] [] 7 [demo_outbox 0 None, demo_outbox 16 None] 0,
       w_trace = [], w_met = m\<rparr>"
    using demo_created_eval by blast
  show ?thesis unfolding demo_interrupted_def eq
    by (simp add: run_ops execute_ops demo_config demo_rows demo_exec_def)
qed

theorem signed_executions_resumed_witness:
  "\<exists>w' js. run (driveStaleNotYetBroadcast demo_reconciler) (replicate 14 demo_late) demo_interrupted = (Some (), w', js) \<and>
     delivered demo_executor (demo_exec ExtPending None None) w' \<and> (\<forall>r \<in> set (payments w'). pr_id r = demo_id 0 \<longrightarrow> pr_status r \<noteq> PROCESSING)"
proof -
  let ?x = "(demo_exec ExtPending None None)\<lparr>x_BroadcastAt := None\<rparr>"
  have late: "in_service demo_late" by (simp add: in_service_def demo_late_def demo_config)
  have ok: "executor_ok (rc_Executor demo_reconciler)" using demo_executor_ok by (simp add: demo_reconciler_def)
  have "\<exists>w' js. run (driveStaleNotYetBroadcast demo_reconciler) (demo_late # replicate 13 demo_late) demo_interrupted = (Some (), w', js) \<and>
    resumed (rc_Executor demo_reconciler) ?x w'"
    by (rule signed_executions_resumed [OF ok demo_interrupted_reach late])
       (simp_all add: late list_all_iff demo_interrupted_facts, simp_all add: demo_exec_def demo_late_def demo_reconciler_def)
  then show ?thesis by (auto simp: resumed_def delivered_def demo_exec_def replicate_numeral_step demo_reconciler_def)
qed

end
