(* ===== verification/Double_Signing.thy ===== *)
theory Double_Signing
  imports Resumption
begin

text \<open>
  What the resumption of an unsigned execution does, and what it leaves open. \<open>DriveExecutionForward\<close> decides by the
  struct it was given, and \<open>PersistSignedExecution\<close> has no guard on \<open>signed_tx_hash\<close>: two actors that
  read the row before either has signed it both sign and broadcast, with the same nonce.
\<close>

text \<open>The tail of a fresh signature, whatever the status of the payment is.\<close>

lemma run_signed_trace:
  assumes geth: "geth_ok (ex_Geth e)" and x: "uuid_in (x_ID x) = Some (x_ID x)" "uuid_in (x_PaymentID x) = Some (x_PaymentID x)"
    and sign: "SignTx (ex_Geth e) (ex_Wallet e) (unsigned_tx x envelope gl gp) (te_ChainID envelope) = Inr stx"
      "g_MarshalBinary (ex_Geth e) stx = Inr raw"
    and env: "list_all (answers_well v pv quoteRow amt q gp gl) [i2, i3, i4, i5, i6, i7, i8]"
  shows "\<exists>w'. run (run_signed e x envelope q label) (i2 # i3 # i4 # i5 # i6 # i7 # i8 # js) w = (Some (Inr ()), w', js) \<and>
    w_trace w' = EvSend stx (Inr ()) # EvLookup (g_Hash (ex_Geth e) stx) (Inl NotFound) # w_trace w"
proof -
  have g: "g_UnmarshalBinary (ex_Geth e) raw = Inr stx" "g_HexToHash (ex_Geth e) (g_HashHex (ex_Geth e) h) = h" for h
    using geth sign(2) by (auto simp: geth_ok_def)
  have ok: "ok_env i4" "ok_env i7" "ok_env i8" using env by (simp_all add: answers_well_def)
  let ?x = "x\<lparr>x_SignedTxHash := Some (g_HashHex (ex_Geth e) (g_Hash (ex_Geth e) stx)), x_RawSignedTx := Some raw\<rparr>"
  have "\<forall>f w. \<exists>w'. run (mark_broadcast_submitted f ?x) (i7 # i8 # js) w = (Some (Inr ()), w', js) \<and> w_trace w' = w_trace w"
    using run_mark_broadcast_submitted [OF ok(2,3), of ?x _ js] x by auto
  then obtain W where W: "\<And>f w. run (mark_broadcast_submitted f ?x) (i7 # i8 # js) w = (Some (Inr ()), W f w, js)" "\<And>f w. w_trace (W f w) = w_trace w"
    by metis
  show ?thesis
    using env
    by (simp add: run_signed_def signAndBroadcastFresh_def ask_env_def run_tryp run_bindp sign g Let_def PersistSignedExecution_def
        run_update_execution [OF ok(1) x(1)] broadcastWithRecovery_def call_out_def run_Inc answers_well_def Observe_def W)
qed

text \<open>
  Resuming an unsigned execution: the reads, the fresh quote, the signature and the broadcast, by the struct \<open>x\<close> the
  caller holds.
\<close>

lemma run_drive_unsigned:
  assumes inv: "sys_inv e w" and geth: "geth_ok (ex_Geth e)"
    and x: "exec_known e w x" "x_SignedTxHash x = None" and r: "r \<in> set (payments w)" "pr_id r = x_PaymentID x"
    and qr: "sql_select (\<lambda>q. qr_payment_id q = x_PaymentID x \<and> qr_selected q) (db_quotes (w_db w)) = [qr]"
      "ex_QuoteProviders e (qr_provider qr) = Some pv"
    and q: "quote_accepted e (x_ID x) (scan_quote qr) (pr_amount r) q envelope"
    and sign: "SignTx (ex_Geth e) (ex_Wallet e) (unsigned_tx x envelope gl gp) (te_ChainID envelope) = Inr stx"
      "g_MarshalBinary (ex_Geth e) stx = Inr raw"
    and env: "length is = 12" "list_all (answers_well v pv (scan_quote qr) (pr_amount r) q gp gl) is"
  shows "\<exists>w'. run (DriveExecutionForward e x) (is @ js) w = (Some (Inr ()), w', js) \<and>
    w_trace w' = EvSend stx (Inr ()) # EvLookup (g_Hash (ex_Geth e) stx) (Inl NotFound) #
      EvQuote (pv_Name pv) (quote_request (scan_quote qr) (pr_amount r)) (Inr q) # w_trace w"
proof -
  obtain a1 a2 a3 a4 a5 i2 i3 i4 i5 i6 i7 i8 where "is": "is = [a1, a2, a3, a4, a5, i2, i3, i4, i5, i6, i7, i8]"
    using env(1) by (auto simp: eval_nat_numeral length_Suc_conv)
  have uuid: "uuid_in (x_ID x) = Some (x_ID x)" "uuid_in (x_PaymentID x) = Some (x_PaymentID x)" using x(1) by (simp_all add: exec_known_def)
  have row: "sql_row (sql_select (\<lambda>q. pr_id q = x_PaymentID x) (payments w)) = Some r"
    using sql_row_key [OF payment_keys [OF inv] r(1)] r(2) by simp
  have amount: "DecimalToBaseUnits (numeric_text 18 (pr_amount r)) 18 = Inr (pr_amount r)"
    using DecimalToBaseUnits_numeric_text [of "pr_amount r" 18] inv_row [OF inv r(1)] by (simp add: row_ok_def)
  have prov: "ex_QuoteProviders e (q_Provider (scan_quote qr)) = Some pv" using qr(2) by (simp add: scan_quote_def)
  let ?w1 = "w\<lparr>w_trace := EvQuote (pv_Name pv) (quote_request (scan_quote qr) (pr_amount r)) (Inr q) # w_trace w\<rparr>"
  have tail: "\<exists>w'. run (run_signed e x envelope q l) (i2 # i3 # i4 # i5 # i6 # i7 # i8 # js) ?w1 = (Some (Inr ()), w', js) \<and>
    w_trace w' = EvSend stx (Inr ()) # EvLookup (g_Hash (ex_Geth e) stx) (Inl NotFound) # w_trace ?w1" for l
    by (rule run_signed_trace [where v = v and pv = pv and quoteRow = "scan_quote qr" and amt = "pr_amount r", OF geth uuid sign]) (use env(2) in \<open>simp add: "is"\<close>)
  have "\<exists>w'. run (drive_fresh e x (scan_quote qr) (pr_amount r) q) (i2 # i3 # i4 # i5 # i6 # i7 # i8 # js) ?w1 = (Some (Inr ()), w', js) \<and>
    w_trace w' = EvSend stx (Inr ()) # EvLookup (g_Hash (ex_Geth e) stx) (Inl NotFound) # w_trace ?w1"
    using tail q by (auto simp: drive_fresh_def Let_def quote_accepted_def)
  then show ?thesis
    using env(2) qr(1) row amount uuid(2) x(2)
    by (simp add: "is" DriveExecutionForward_def drive_unsigned_def GetQuoteByPaymentID_def run_tryp wrapp_def run_bindp run_query_ok
        answers_well_def uuid_arg_def wrap_err_def Now_def with_fresh_quote_def GetPayment_def hopsForPayment_def get_quote_def call_out_def
        scan_payment_def prov not_less r(2))
qed

text \<open>
  Two actors that hold the same unsigned row, and that the node answers with two gas prices, both return
  without an error and leave two different transactions with one nonce behind them: at most one of them can
  be mined, and the row keeps the bytes and the hash of the second, which may be the other one.
\<close>

lemma unsigned_row_signed_twice:
  assumes "executor_ok e" "reach e (w, ts)" "x \<in> set (executions w)" "x_SignedTxHash x = None" "r \<in> set (payments w)" "pr_id r = x_PaymentID x"
    "sql_select (\<lambda>q. qr_payment_id q = x_PaymentID x \<and> qr_selected q) (db_quotes (w_db w)) = [qr]" "ex_QuoteProviders e (qr_provider qr) = Some pv"
    "quote_accepted e (x_ID x) (scan_quote qr) (pr_amount r) q envelope" "gp \<noteq> gp'"
    "SignTx (ex_Geth e) (ex_Wallet e) (unsigned_tx x envelope gl gp) (te_ChainID envelope) = Inr stx" "g_MarshalBinary (ex_Geth e) stx = Inr raw"
    "SignTx (ex_Geth e) (ex_Wallet e) (unsigned_tx x envelope gl gp') (te_ChainID envelope) = Inr stx'" "g_MarshalBinary (ex_Geth e) stx' = Inr raw'"
    "length is = 12" "list_all (answers_well w pv (scan_quote qr) (pr_amount r) q gp gl) is"
    "length is' = 12" "list_all (answers_well w pv (scan_quote qr) (pr_amount r) q gp' gl) is'"
  shows "\<exists>w1 w2. run (DriveExecutionForward e x) is w = (Some (Inr ()), w1, []) \<and> run (DriveExecutionForward e x) is' w1 = (Some (Inr ()), w2, []) \<and>
    {EvSend stx (Inr ()), EvSend stx' (Inr ())} \<subseteq> set (w_trace w2) \<and> stx \<noteq> stx' \<and> lt_Nonce (st_Tx stx) = lt_Nonce (st_Tx stx')"
proof -
  have inv: "sys_inv e w" using reach_inv [OF assms(1,2)] by simp
  have geth: "geth_ok (ex_Geth e)" using assms(1) by (simp add: executor_ok_def)
  have known: "exec_known e w x" by (rule exec_known_row [OF inv assms(3)])
  obtain w1 where w1: "run (DriveExecutionForward e x) is w = (Some (Inr ()), w1, [])" "EvSend stx (Inr ()) \<in> set (w_trace w1)"
    using run_drive_unsigned [OF inv geth known assms(4-9,11,12,15,16), of "[]"] by auto
  from life.safe_run [OF safe_DriveExecutionForward [OF assms(1) inv known] inv w1(1)] have inv1: "sys_inv e w1" "evolves w w1" by auto
  have world: "w1 = run_world (DriveExecutionForward e x) is w" using w1(1) by (simp add: run_world_def)
  from effects_run [OF solo_DriveExecutionForward [OF refl] TrueI TrueI] apart_trans
  have "apart (x_PaymentID x) w w1" unfolding world by simp
  then have quotes: "db_quotes (w_db w1) = db_quotes (w_db w)" by (simp add: apart_def)
  from evolves_payment [OF inv1(2) assms(5)] obtain r1 where r1: "r1 \<in> set (payments w1)" "pr_id r1 = x_PaymentID x" "pr_amount r1 = pr_amount r"
    using assms(6) by (auto simp: pay_le_def)
  obtain w2 where w2: "run (DriveExecutionForward e x) is' w1 = (Some (Inr ()), w2, [])" "EvSend stx' (Inr ()) \<in> set (w_trace w2)"
      "EvSend stx (Inr ()) \<in> set (w_trace w2)"
    using run_drive_unsigned [OF inv1(1) geth exec_known_stable [OF inv1(2) known] assms(4) r1(1,2), of qr pv q envelope gl gp' stx' raw' is' w "[]"]
      assms(7-9,13,14,17,18) quotes r1(3) w1(2) by auto
  have tx: "st_Tx stx = unsigned_tx x envelope gl gp" "st_Tx stx' = unsigned_tx x envelope gl gp'"
    using geth assms(11,13) by (auto simp: geth_ok_def SignTx_def wrap_err_def split: sum.splits)
  then have "stx \<noteq> stx'" "lt_Nonce (st_Tx stx) = lt_Nonce (st_Tx stx')" using assms(10) by (auto simp: unsigned_tx_def)
  with w1 w2 show ?thesis by auto
qed

end
