(* ===== verification/Startup.thy ===== *)
theory Startup
  imports Server_Main Worker_Main
begin

text \<open>
  How the two programs come up and go down: logging (\<open>logging.go\<close>), tracing (\<open>tracing.go\<close>), the client of the
  routing service (\<open>grpcclient\<close>), the start of \<open>main\<close> of \<open>cmd/server\<close> and the lifetimes of both processes. The
  OpenTelemetry and gRPC libraries are parameters: what their constructors and calls answer.
\<close>

section \<open>Logging\<close>

text \<open>
  The JSON handler of \<open>log/slog\<close>: attributes and groups in the order they were bound; a group
  nests all that was bound after it and is left out when it is empty.
\<close>

type_synonym attr = "string \<times> json"

datatype bound = GroupOf string | AttrsOf "attr list"

datatype log_level = LevelDebug | LevelInfo | LevelWarn | LevelError

fun level_value :: "log_level \<Rightarrow> int" where
  "level_value LevelDebug = - 4"
| "level_value LevelInfo = 0"
| "level_value LevelWarn = 4"
| "level_value LevelError = 8"

fun level_text :: "log_level \<Rightarrow> string" where
  "level_text LevelDebug = ''DEBUG''"
| "level_text LevelInfo = ''INFO''"
| "level_text LevelWarn = ''WARN''"
| "level_text LevelError = ''ERROR''"

record JSONHandler =
  jh_Level :: log_level
  jh_Bound :: "bound list"

record log_record =
  lr_Time :: string
  lr_Level :: log_level
  lr_Message :: string
  lr_Attrs :: "attr list"

fun render :: "bound list \<Rightarrow> attr list \<Rightarrow> attr list" where
  "render [] xs = xs"
| "render (AttrsOf ys # bs) xs = ys @ render bs xs"
| "render (GroupOf name # bs) xs = (let inner = render bs xs in if inner = [] then [] else [(name, JObj inner)])"

definition JSONHandler_Handle :: "JSONHandler \<Rightarrow> log_record \<Rightarrow> json" where
  "JSONHandler_Handle h r = JObj ([(''time'', JStr (lr_Time r)), (''level'', JStr (level_text (lr_Level r))),
     (''msg'', JStr (lr_Message r))] @ render (jh_Bound h) (lr_Attrs r))"

definition JSONHandler_bind :: "JSONHandler \<Rightarrow> bound \<Rightarrow> JSONHandler" where
  "JSONHandler_bind h b = h\<lparr>jh_Bound := jh_Bound h @ [b]\<rparr>"

text \<open>The span of the context, as OpenTelemetry gives it.\<close>

record SpanContext =
  sc_IsValid :: bool
  sc_TraceID :: string
  sc_SpanID :: string

record traceContextHandler =
  th_Handler :: JSONHandler

definition traceContextHandler_Handle :: "traceContextHandler \<Rightarrow> SpanContext \<Rightarrow> log_record \<Rightarrow> json" where
  "traceContextHandler_Handle h sc r =
    JSONHandler_Handle (th_Handler h)
      (if sc_IsValid sc
       then r\<lparr>lr_Attrs := lr_Attrs r @ [(''trace_id'', JStr (sc_TraceID sc)), (''span_id'', JStr (sc_SpanID sc))]\<rparr>
       else r)"

definition traceContextHandler_WithAttrs :: "traceContextHandler \<Rightarrow> attr list \<Rightarrow> traceContextHandler" where
  "traceContextHandler_WithAttrs h attrs = \<lparr>th_Handler = JSONHandler_bind (th_Handler h) (AttrsOf attrs)\<rparr>"

definition traceContextHandler_WithGroup :: "traceContextHandler \<Rightarrow> string \<Rightarrow> traceContextHandler" where
  "traceContextHandler_WithGroup h name = \<lparr>th_Handler = JSONHandler_bind (th_Handler h) (GroupOf name)\<rparr>"

definition newLoggerWithWriter :: "string \<Rightarrow> traceContextHandler" where
  "newLoggerWithWriter service =
    traceContextHandler_WithAttrs \<lparr>th_Handler = \<lparr>jh_Level = LevelInfo, jh_Bound = []\<rparr>\<rparr> [(''service'', JStr service)]"

definition NewLogger :: "string \<Rightarrow> traceContextHandler" where
  "NewLogger service = newLoggerWithWriter service"

definition DefaultLogger :: traceContextHandler where
  "DefaultLogger = NewLogger ''chainroute''"

text \<open>A call of the logger writes a line, or nothing below the level of the handler.\<close>

definition log_line :: "traceContextHandler \<Rightarrow> SpanContext \<Rightarrow> log_record \<Rightarrow> json option" where
  "log_line h sc r =
    (if level_value (jh_Level (th_Handler h)) \<le> level_value (lr_Level r) then Some (traceContextHandler_Handle h sc r) else None)"

lemma log_line_fields:
  assumes "lr_Level r \<noteq> LevelDebug"
  shows "log_line (NewLogger service) sc r = Some (JObj ([(''time'', JStr (lr_Time r)), (''level'', JStr (level_text (lr_Level r))),
      (''msg'', JStr (lr_Message r)), (''service'', JStr service)] @ lr_Attrs r @
      (if sc_IsValid sc then [(''trace_id'', JStr (sc_TraceID sc)), (''span_id'', JStr (sc_SpanID sc))] else [])))"
  using assms
  by (cases "lr_Level r") (simp_all add: log_line_def NewLogger_def newLoggerWithWriter_def traceContextHandler_WithAttrs_def
      JSONHandler_bind_def traceContextHandler_Handle_def JSONHandler_Handle_def)

section \<open>Tracing\<close>

text \<open>
  The address the spans are exported to. A value with a scheme and one without give the same address.
\<close>

definition stripEndpointScheme :: "string \<Rightarrow> string" where
  "stripEndpointScheme endpoint = TrimPrefix (TrimPrefix endpoint ''https://'') ''http://''"

definition tracing_endpoint :: "getenv \<Rightarrow> string" where
  "tracing_endpoint getenv = stripEndpointScheme (envOrDefault getenv ''OTEL_EXPORTER_OTLP_ENDPOINT'' ''localhost:4317'')"

lemma stripEndpointScheme_host:
  assumes "take 4 host \<noteq> ''http''"
  shows "stripEndpointScheme host = host" "stripEndpointScheme (''http://'' @ host) = host" "stripEndpointScheme (''https://'' @ host) = host"
proof -
  have no: "take (length p) host \<noteq> p" if "take 4 p = ''http''" "4 \<le> length p" for p
    using assms that by (metis min.absorb1 take_take)
  from no [of "''http://''"] no [of "''https://''"]
  show "stripEndpointScheme host = host" "stripEndpointScheme (''http://'' @ host) = host" "stripEndpointScheme (''https://'' @ host) = host"
    by (simp_all add: stripEndpointScheme_def TrimPrefix_def)
qed

text \<open>
  \<open>otlptrace.New\<close> by the endpoint, and \<open>Shutdown\<close> of a provider that exports through it. The global
  provider and propagator of the process are the state; before \<open>InitTracing\<close> the provider is a no-op.
\<close>

record 'x otel =
  ot_New :: "string \<Rightarrow> 'x res"
  ot_Shutdown :: "'x \<Rightarrow> unit res"

datatype 'x TracerProvider = NoopTracerProvider | SdkTracerProvider 'x string

record 'x tracing =
  tr_Provider :: "'x TracerProvider"
  tr_TraceContext :: bool

definition no_tracing :: "'x tracing" where
  "no_tracing = \<lparr>tr_Provider = NoopTracerProvider, tr_TraceContext = False\<rparr>"

text \<open>The shutdown function, by what it returns (\<open>None\<close> is a nil function), and the error.\<close>

definition InitTracing :: "'x otel \<Rightarrow> getenv \<Rightarrow> string \<Rightarrow> 'x tracing \<Rightarrow> (unit res option \<times> err option) \<times> 'x tracing" where
  "InitTracing ot getenv serviceName t =
    (case ot_New ot (tracing_endpoint getenv) of
       Inl err \<Rightarrow> ((Some (Inr ()), None), t\<lparr>tr_Provider := NoopTracerProvider\<rparr>)
     | Inr exporter \<Rightarrow> ((Some (ot_Shutdown ot exporter), None),
         t\<lparr>tr_Provider := SdkTracerProvider exporter serviceName, tr_TraceContext := True\<rparr>))"

text \<open>What \<open>main\<close> keeps of it: a shutdown function that is never nil.\<close>

definition start_tracing :: "'x otel \<Rightarrow> getenv \<Rightarrow> string \<Rightarrow> unit res \<times> 'x tracing" where
  "start_tracing ot getenv service =
    (case InitTracing ot getenv service no_tracing of
       ((shutdownTracing, err), t) \<Rightarrow> (case shutdownTracing of None \<Rightarrow> Inr () | Some s \<Rightarrow> s, t))"

definition Tracer :: "string \<Rightarrow> string" where
  "Tracer component = ''chainroute/'' @ component"

lemma InitTracing_fails_open:
  "snd (fst (InitTracing ot getenv service t)) = None" "fst (fst (InitTracing ot getenv service t)) \<noteq> None"
  by (simp_all add: InitTracing_def split: sum.split)

section \<open>The client of the routing service\<close>

text \<open>\<open>grpc.NewClient\<close> is a parameter, and the call of the generated client, with the deadline of its context.\<close>

definition WithTimeout :: "time \<Rightarrow> time option \<Rightarrow> int \<Rightarrow> time option" where
  "WithTimeout now deadline d = Some (case deadline of None \<Rightarrow> now + micros d | Some t \<Rightarrow> min t (now + micros d))"

definition requestTimeout :: int where
  "requestTimeout = 2 * Second"

record 'c Client =
  cl_Conn :: 'c

definition grpc_Dial :: "(string \<Rightarrow> 'c res) \<Rightarrow> string \<Rightarrow> 'c Client res" where
  "grpc_Dial new_client address = (case new_client address of Inl err \<Rightarrow> Inl err | Inr conn \<Rightarrow> Inr \<lparr>cl_Conn = conn\<rparr>)"

definition Client_FindRoute ::
    "('c \<Rightarrow> time option \<Rightarrow> FindRouteRequest \<Rightarrow> route_reply) \<Rightarrow> 'c Client \<Rightarrow> time \<Rightarrow> time option \<Rightarrow> FindRouteRequest \<Rightarrow> route_reply" where
  "Client_FindRoute call c now deadline req = call (cl_Conn c) (WithTimeout now deadline requestTimeout) req"

text \<open>A call waits at most two seconds, and never longer than its caller.\<close>

lemma WithTimeout_bounds:
  "\<exists>t. WithTimeout now deadline d = Some t \<and> t \<le> now + micros d \<and> (\<forall>t'. deadline = Some t' \<longrightarrow> t \<le> t')"
  by (auto simp: WithTimeout_def split: option.split)

section \<open>Starting the server\<close>

record 'c server =
  sv_Addr :: string
  sv_Handler :: Handler
  sv_Origins :: "string list"
  sv_Client :: "'c Client"
  sv_Pool :: db_pool

text \<open>
  \<open>main\<close> of \<open>cmd/server\<close> up to the listening socket: what it will serve or the error it exits with, and the tracing
  of the process with the result of shutting it down. The flags are \<open>httpAddr\<close> and \<open>grpcAddr\<close>.
\<close>

definition server_main ::
    "Geth \<Rightarrow> 'x otel \<Rightarrow> (string \<Rightarrow> 'c res) \<Rightarrow> db_driver \<Rightarrow> Pg \<Rightarrow> getenv \<Rightarrow> string \<Rightarrow> string \<Rightarrow> 'c server res \<times> unit res \<times> 'x tracing" where
  "server_main g ot new_client drv pg getenv httpAddr grpcAddr =
    (let (shutdownTracing, t) = start_tracing ot getenv ''go-api'' in
     (bindr (start_server g getenv pg) (\<lambda>h.
      bindr (map_sum (Wrap ''failed to dial routing service'') id (grpc_Dial new_client grpcAddr)) (\<lambda>client.
      bindr (open_database drv (getenv ''DATABASE_URL'')) (\<lambda>pool.
      Inr \<lparr>sv_Addr = httpAddr, sv_Handler = h, sv_Origins = corsOrigins getenv, sv_Client = client, sv_Pool = pool\<rparr>))),
      shutdownTracing, t))"

text \<open>When the settings are accepted, and what the handler and its registry are made of then.\<close>

lemma env_accepted:
  "(\<exists>n. envBigInt getenv key def = Inr n) \<longleftrightarrow> getenv key = '''' \<or> SetString10 (getenv key) \<noteq> None"
  "(\<exists>n. envDuration getenv key def unit = Inr n) \<longleftrightarrow> getenv key = '''' \<or> ParseInt64 (getenv key) \<noteq> None"
  by (auto simp: envBigInt_def envDuration_def Let_def split: option.splits)

lemma envBigInt_value: "envBigInt getenv key def = Inr n \<Longrightarrow> n = (if getenv key = '''' then def else the (SetString10 (getenv key)))"
  by (auto simp: envBigInt_def Let_def split: if_splits option.splits)

lemma server_registry_accepted:
  "(\<exists>reg. server_registry g getenv = Inr reg) \<longleftrightarrow>
     getenv ''BLOCKCHAIN_ENV'' \<noteq> ''testnet'' \<or> (\<exists>ttl. envDuration getenv ''ROUTING_QUOTE_TTL_SECONDS'' (120 * Second) Second = Inr ttl)"
  by (auto simp: server_registry_def bindr_def Let_def split: sum.splits)

lemma start_server_accepted:
  "(\<exists>h. start_server g getenv pg = Inr h) \<longleftrightarrow> getenv ''DATABASE_URL'' \<noteq> '''' \<and>
     (\<exists>m. envBigInt getenv ''MAX_TESTNET_AMOUNT_WEI'' 10000000000000000 = Inr m) \<and> (\<exists>reg. server_registry g getenv = Inr reg)"
  by (auto simp: start_server_def bindr_def split: sum.splits)

lemma server_registry_providers:
  assumes "server_registry g getenv = Inr reg"
  shows "if getenv ''BLOCKCHAIN_ENV'' = ''testnet''
    then \<exists>r. reg = Some r \<and> (\<forall>key. map pv_Name (ProvidersFor r key) =
      (if key = \<lparr>rk_SourceChainID = 11155111, rk_DestinationChainID = 84532, rk_Asset = ''WETH''\<rparr> then [''across'', ''relay''] else []))
    else reg = None"
  using assms
  by (auto simp: server_registry_def bindr_def Let_def ProvidersFor_Register across_provider_def relay_provider_def split: if_splits sum.splits)
     (auto simp: ProvidersFor_def NewRegistry_def)

lemma server_main_Inr:
  "fst (server_main g ot new_client drv pg getenv httpAddr grpcAddr) = Inr sv \<longleftrightarrow>
    (\<exists>h c. start_server g getenv pg = Inr h \<and> new_client grpcAddr = Inr c \<and>
      dr_Open drv (getenv ''DATABASE_URL'') = Inr () \<and> dr_Ping drv (getenv ''DATABASE_URL'') = Inr () \<and>
      sv = \<lparr>sv_Addr = httpAddr, sv_Handler = h, sv_Origins = corsOrigins getenv, sv_Client = \<lparr>cl_Conn = c\<rparr>,
            sv_Pool = \<lparr>pool_URL = getenv ''DATABASE_URL'', pool_MaxOpenConns = 10\<rparr>\<rparr>)"
  by (auto simp: server_main_def bindr_def grpc_Dial_def open_database_def Let_def split: sum.splits prod.splits)

text \<open>
  C19. When the server starts, and with what. It starts exactly when \<open>DATABASE_URL\<close> is set, the ceiling is unset or a
  base-10 integer, in testnet mode the quote lifetime is unset or an \<open>int64\<close>, the routing client can be made and the
  database opens and answers; otherwise it exits with an error. A server that starts listens on the given address, has
  the configured mode, ceiling and origins, ten database connections at most, and quotes from Across and Relay, in this order, for the one
  configured route in testnet mode, and from nobody on any other route or in any other mode. Tracing is no part of this: whatever the
  collector's library answers, the outcome is the same; when its exporter cannot be made, the process runs
  with the no-op provider and shutting tracing down succeeds.
\<close>

theorem server_start_condition:
  "((\<exists>sv. fst (server_main g ot new_client drv pg getenv httpAddr grpcAddr) = Inr sv) \<longleftrightarrow>
      getenv ''DATABASE_URL'' \<noteq> '''' \<and>
      (getenv ''MAX_TESTNET_AMOUNT_WEI'' = '''' \<or> SetString10 (getenv ''MAX_TESTNET_AMOUNT_WEI'') \<noteq> None) \<and>
      (getenv ''BLOCKCHAIN_ENV'' \<noteq> ''testnet'' \<or> getenv ''ROUTING_QUOTE_TTL_SECONDS'' = '''' \<or> ParseInt64 (getenv ''ROUTING_QUOTE_TTL_SECONDS'') \<noteq> None) \<and>
      (\<exists>c. new_client grpcAddr = Inr c) \<and> dr_Open drv (getenv ''DATABASE_URL'') = Inr () \<and> dr_Ping drv (getenv ''DATABASE_URL'') = Inr ()) \<and>
    (\<forall>sv. fst (server_main g ot new_client drv pg getenv httpAddr grpcAddr) = Inr sv \<longrightarrow>
      sv_Addr sv = httpAddr \<and> start_server g getenv pg = Inr (sv_Handler sv) \<and> hd_Pg (sv_Handler sv) = pg \<and>
      hd_BlockchainEnv (sv_Handler sv) = getenv ''BLOCKCHAIN_ENV'' \<and>
      hd_MaxTestnetAmountWei (sv_Handler sv) = Some (if getenv ''MAX_TESTNET_AMOUNT_WEI'' = '''' then 10 ^ 16
        else the (SetString10 (getenv ''MAX_TESTNET_AMOUNT_WEI''))) \<and>
      (if getenv ''BLOCKCHAIN_ENV'' = ''testnet''
       then \<exists>r. hd_QuoteRegistry (sv_Handler sv) = Some r \<and> (\<forall>key. map pv_Name (ProvidersFor r key) =
         (if key = \<lparr>rk_SourceChainID = 11155111, rk_DestinationChainID = 84532, rk_Asset = ''WETH''\<rparr> then [''across'', ''relay''] else []))
       else hd_QuoteRegistry (sv_Handler sv) = None) \<and>
      new_client grpcAddr = Inr (cl_Conn (sv_Client sv)) \<and> pool_URL (sv_Pool sv) = getenv ''DATABASE_URL'' \<and>
      pool_MaxOpenConns (sv_Pool sv) = 10 \<and> sv_Origins sv = corsOrigins getenv) \<and>
    fst (server_main g ot new_client drv pg getenv httpAddr grpcAddr) = fst (server_main g ot' new_client drv pg getenv httpAddr grpcAddr) \<and>
    (case ot_New ot (tracing_endpoint getenv) of
       Inl err \<Rightarrow> snd (server_main g ot new_client drv pg getenv httpAddr grpcAddr) = (Inr (), no_tracing)
     | Inr x \<Rightarrow> tr_Provider (snd (snd (server_main g ot new_client drv pg getenv httpAddr grpcAddr))) = SdkTracerProvider x ''go-api'')"
  (is "(?starts \<longleftrightarrow> ?valid) \<and> (\<forall>sv. ?run = Inr sv \<longrightarrow> ?parts sv) \<and> ?same \<and> ?tracing")
proof (intro conjI)
  have "?starts \<longleftrightarrow> (\<exists>h. start_server g getenv pg = Inr h) \<and> (\<exists>c. new_client grpcAddr = Inr c) \<and>
      dr_Open drv (getenv ''DATABASE_URL'') = Inr () \<and> dr_Ping drv (getenv ''DATABASE_URL'') = Inr ()"
    unfolding server_main_Inr by blast
  then show "?starts \<longleftrightarrow> ?valid"
    unfolding start_server_accepted server_registry_accepted env_accepted by blast
next
  have "?parts sv" if "?run = Inr sv" for sv
  proof -
    from that obtain h c where h: "start_server g getenv pg = Inr h" "new_client grpcAddr = Inr c" and
        sv: "sv = \<lparr>sv_Addr = httpAddr, sv_Handler = h, sv_Origins = corsOrigins getenv, sv_Client = \<lparr>cl_Conn = c\<rparr>,
            sv_Pool = \<lparr>pool_URL = getenv ''DATABASE_URL'', pool_MaxOpenConns = 10\<rparr>\<rparr>"
      unfolding server_main_Inr by blast
    from h(1) obtain m reg where m: "envBigInt getenv ''MAX_TESTNET_AMOUNT_WEI'' 10000000000000000 = Inr m" "server_registry g getenv = Inr reg"
        "h = \<lparr>hd_BlockchainEnv = getenv ''BLOCKCHAIN_ENV'', hd_MaxTestnetAmountWei = Some m, hd_QuoteRegistry = reg, hd_Pg = pg\<rparr>"
      by (auto simp: start_server_def bindr_def split: if_splits sum.splits)
    show ?thesis using h sv m(3) envBigInt_value [OF m(1)] server_registry_providers [OF m(2)] by simp
  qed
  then show "\<forall>sv. ?run = Inr sv \<longrightarrow> ?parts sv" by blast
  show ?same ?tracing
    by (simp_all add: server_main_def start_tracing_def InitTracing_def no_tracing_def Let_def split: sum.splits prod.splits)
qed

definition demo_otel :: "unit otel" where
  "demo_otel = \<lparr>ot_New = (\<lambda>_. Inl (Err ''no collector'')), ot_Shutdown = (\<lambda>_. Inr ())\<rparr>"

text \<open>A testnet server without a collector: it starts, with a ceiling of \<open>10^18\<close> wei.\<close>

theorem server_start_condition_witness:
  "\<exists>sv r. server_main demo_geth demo_otel (\<lambda>_. Inr ()) demo_driver demo_pg demo_server_getenv '':8080'' ''router:50051'' = (Inr sv, Inr (), no_tracing) \<and>
     sv_Addr sv = '':8080'' \<and> hd_MaxTestnetAmountWei (sv_Handler sv) = Some (10 ^ 18) \<and> hd_QuoteRegistry (sv_Handler sv) = Some r \<and>
     map pv_Name (ProvidersFor r demo_route_key) = [''across'', ''relay''] \<and> pool_URL (sv_Pool sv) = ''set''"
proof -
  let ?run = "server_main demo_geth demo_otel (\<lambda>_. Inr ()) demo_driver demo_pg demo_server_getenv '':8080'' ''router:50051''"
  note start = server_start_condition [of demo_geth demo_otel "\<lambda>_. Inr ()" demo_driver demo_pg demo_server_getenv "'':8080''" "''router:50051''" demo_otel]
  have env: "demo_server_getenv ''DATABASE_URL'' = ''set''" "demo_server_getenv ''BLOCKCHAIN_ENV'' = ''testnet''"
      "demo_server_getenv ''ROUTING_QUOTE_TTL_SECONDS'' = ''''"
    by (simp_all add: demo_server_getenv_def demo_getenv_def)
  have "SetString10 (demo_server_getenv ''MAX_TESTNET_AMOUNT_WEI'') \<noteq> None"
    by (simp add: demo_server_getenv_def demo_getenv_def SetString10_def parse_digits_def is_digit_def)
  then have "\<exists>sv. fst ?run = Inr sv" using start env by (simp add: demo_driver_def)
  then obtain sv where sv: "fst ?run = Inr sv" by blast
  then have h: "sv_Handler sv = demo_handler" using start demo_server_handler by auto
  have "snd ?run = (Inr (), no_tracing)" using start by (simp add: demo_otel_def)
  with sv have run: "?run = (Inr sv, Inr (), no_tracing)" by (cases ?run) simp
  show ?thesis
    using start sv env h by (intro exI [of _ sv] exI [of _ demo_registry] conjI run) (auto simp: demo_handler_def demo_route_key_def)
qed

section \<open>Lifetimes\<close>

text \<open>
  The events after the start: the listener's return (\<open>ListenAndServe\<close> always returns an error), a signal,
  the return of \<open>Shutdown\<close>, and, in the worker, the return of a goroutine. \<open>Exited\<close> carries the exit code.
\<close>

datatype phase = Serving | Draining | Waiting | Exited nat

datatype life_event = ListenReturned err | SignalReceived | ShutdownReturned "unit res" | GoroutineReturned

definition ErrServerClosed :: err where
  "ErrServerClosed = Err ''http: Server closed''"

fun server_life :: "phase \<Rightarrow> life_event \<Rightarrow> phase" where
  "server_life (Exited n) _ = Exited n"
| "server_life ph (ListenReturned err) = (if err \<noteq> ErrServerClosed then Exited 1 else ph)"
| "server_life Serving SignalReceived = Draining"
| "server_life Draining (ShutdownReturned r) = Exited 0"
| "server_life ph _ = ph"

text \<open>
  The worker: the phase and the count of the wait group, which the metrics listener is part of. The
  listener's error is only logged. \<open>main\<close> returns when the shutdown is over and the count is zero.
\<close>

definition wait_group :: "phase \<times> nat \<Rightarrow> phase \<times> nat" where
  "wait_group s = (case s of (ph, n) \<Rightarrow> if ph = Waiting \<and> n = 0 then (Exited 0, 0) else (ph, n))"

fun worker_life :: "phase \<times> nat \<Rightarrow> life_event \<Rightarrow> phase \<times> nat" where
  "worker_life (Exited c, n) _ = (Exited c, n)"
| "worker_life (ph, n) (ListenReturned err) = wait_group (ph, n - 1)"
| "worker_life (ph, n) GoroutineReturned = wait_group (ph, n - 1)"
| "worker_life (Serving, n) SignalReceived = (Draining, n)"
| "worker_life (Draining, n) (ShutdownReturned r) = wait_group (Waiting, n)"
| "worker_life s _ = s"

definition returns :: "life_event \<Rightarrow> bool" where
  "returns ev = (case ev of ListenReturned _ \<Rightarrow> True | GoroutineReturned \<Rightarrow> True | _ \<Rightarrow> False)"

lemma server_life_exited: "foldl server_life (Exited n) evs = Exited n"
  by (induction evs) simp_all

text \<open>The exit code of the server: 1 exactly when the listener failed before the shutdown was over.\<close>

lemma server_exit_code:
  assumes "foldl server_life Serving evs = Exited c"
  shows "c = 0 \<and> SignalReceived \<in> set evs \<and> (\<exists>r. ShutdownReturned r \<in> set evs) \<or>
    c = 1 \<and> (\<exists>err. ListenReturned err \<in> set evs \<and> err \<noteq> ErrServerClosed)"
  using assms
proof (induction evs rule: rev_induct)
  case (snoc ev evs)
  have drain: "SignalReceived \<in> set evs" if "foldl server_life Serving evs = Draining" for evs
    using that
  proof (induction evs rule: rev_induct)
    case (snoc e es)
    then show ?case by (cases "foldl server_life Serving es"; cases e) (auto split: if_splits)
  qed simp
  from snoc show ?case
    by (cases "foldl server_life Serving evs"; cases ev) (auto split: if_splits dest: drain)
qed simp

text \<open>What a worker went through when it is in a phase, with \<open>n\<close> members of the wait group at the start.\<close>

lemma worker_life_history:
  assumes "foldl worker_life (Serving, n) evs = (ph, m)"
  shows "n \<le> m + length (filter returns evs) \<and> (\<forall>c. ph = Exited c \<longrightarrow> c = 0 \<and> m = 0) \<and>
    (ph \<noteq> Serving \<longrightarrow> SignalReceived \<in> set evs) \<and> (ph = Waiting \<or> ph = Exited 0 \<longrightarrow> (\<exists>r. ShutdownReturned r \<in> set evs))"
  using assms
proof (induction evs arbitrary: ph m rule: rev_induct)
  case (snoc ev evs)
  obtain ph' m' where s: "foldl worker_life (Serving, n) evs = (ph', m')" by fastforce
  from snoc.IH [OF s] snoc.prems show ?case
    by (cases ph'; cases ev) (auto simp: s wait_group_def returns_def split: if_splits)
qed simp

end
