(* ===== verification/Spec2Isabelle.thy ===== *)
theory Spec2Isabelle
  imports Behaviour Store_Behaviour Outbox_Behaviour Executor_Behaviour Bridge_Behaviour Listing_Behaviour Api_Behaviour
    Testnet_Behaviour Ledger Termination End_To_End Metrics Worker_Main Server_Main Benchmark
    Isolation Resumption Double_Signing Startup
begin

text \<open>
  \<^bold>\<open>ChainRoute: the Go services.\<close>

  ChainRoute accepts payment requests over HTTP, asks a routing service for a bridge, stores the
  payment in PostgreSQL together with an outbox event, publishes the event to Kafka, and lets workers
  execute it: simulated payments end with an outcome that their identifier determines, testnet
  payments become a signed Ethereum transaction to a bridge, which a reconciler follows until the
  bridge reports its end. This development models the Go code under \<open>go-api\<close> and proves what its
  comments and its design promise, for any number of concurrent processes, under crashes, database
  faults, lost replies and arbitrary answers of the remote services.

  \<^bold>\<open>How the code is modelled.\<close>
  \<^item> A function without effects is a HOL function. \<open>(T, error)\<close> is the sum type \<open>err + 'a\<close>, with \<open>Inl\<close> the
    error; a wrapped error keeps its cause (\<open>Prelude\<close>). The formatted arguments of error texts are left out.
  \<^item> A function with effects is a process (\<open>Process\<close>): a tree of atomic actions on the shared world, each
    a database statement or transaction, a call to a remote service or a metric. Every action takes
    one answer of the environment (record \<open>env\<close> in \<open>World\<close>): the time, the database fault (none, an error
    before the statement, an error after a commit whose reply is lost), fresh identifiers, the order
    of unordered result sets, and the answers of the HTTP APIs, the routing service, the chain and the
    broker. \<open>run\<close> executes one process alone; \<open>sys_step\<close> interleaves any number of them action by
    action, lets a process stop at any point, and starts new ones.
  \<^item> The world is the database (payments, hops, quotes, executions, wallet nonces, outbox with the row
    locks of open transactions), the trace of calls to the outside, and the metric counters.
  \<^item> Amounts are integers of base units where the code uses \<open>big.Int\<close> or \<open>NUMERIC\<close>; nonces, gas, addresses
    and hashes are words; floats are their bit patterns. SQL is written out on lists of rows: \<open>sql_select\<close>,
    \<open>sql_update\<close>, unique and check constraints as error branches.

  \<^bold>\<open>The theories, by the part of the code they model.\<close>
  \<^item> \<open>Prelude\<close>, \<open>Process\<close>: errors, list operations in the style of SQL, processes, interleaving, and the
    locale of rely-guarantee triples (\<open>safe\<close>) with its rules.
  \<^item> \<open>Go_Lib\<close>, \<open>Go_Json\<close>, \<open>Go_Url\<close>, \<open>Go_Time\<close>, \<open>Go_Float\<close>: the parts of the standard library the code uses
    (strings, big integers, JSON decoding, query strings, RFC 3339, decimal to float).
  \<^item> \<open>Payment_Model\<close>: \<open>internal/payment/payment.go\<close>, \<open>internal/events\<close>. \<open>Cursor\<close>: \<open>payment/cursor.go\<close>. \<open>Money\<close>:
    \<open>internal/money\<close>. \<open>Sim_Execution\<close>: \<open>internal/execution\<close>. \<open>Pg_Types\<close>: the text forms of UUID and NUMERIC.
  \<^item> \<open>Bridge_Quote\<close>: \<open>internal/bridge/quote\<close>, with the contract of a bridge as the locale \<open>bridge_provider\<close>.
    \<open>Across\<close>, \<open>Relay\<close>: \<open>internal/bridge/across\<close> and \<open>relay\<close>, the two interpretations of it. \<open>Evm\<close>: \<open>internal/evm\<close>
    over go-ethereum, which is a parameter (record \<open>Geth\<close>). \<open>Routing\<close>: the messages of the routing service.
  \<^item> \<open>World\<close>: environment and shared state. \<open>Store\<close>: \<open>internal/postgres/store.go\<close>. \<open>Execution_Store\<close>:
    \<open>execution_store.go\<close>, \<open>quote_store.go\<close>. \<open>Listing\<close>: the list and dashboard queries of \<open>store.go\<close>.
    \<open>Observability\<close>: the label filter and the in-flight gauge.
  \<^item> \<open>Executor\<close>: \<open>internal/worker/executor.go\<close>. \<open>Worker\<close>: \<open>processor.go\<close>, \<open>publisher.go\<close>, \<open>recovery.go\<close>,
    \<open>reconciler.go\<close>, and the body of the consume loop and the nonce seeding of \<open>cmd/worker/main.go\<close>. \<open>Loops\<close>: the \<open>Run\<close>
    methods and the consume loop itself, with \<open>internal/kafka/consumer.go\<close>. \<open>Handler\<close>: \<open>internal/handler\<close>.
  \<^item> \<open>Wiring\<close>: the configuration and construction code of \<open>cmd/worker/main.go\<close> and \<open>cmd/server/main.go\<close>. \<open>Worker_Main\<close>: the
    Kafka settings and the goroutines of \<open>cmd/worker\<close>, with \<open>internal/kafka/producer.go\<close>. \<open>Server_Main\<close>: the JSON documents of the
    responses, the routes, and one request through middleware, mux and handler of \<open>cmd/server\<close>.
    \<open>Startup\<close>: \<open>internal/observability/logging.go\<close> and \<open>tracing.go\<close>, \<open>internal/grpcclient\<close>, the connections of
    \<open>cmd/server\<close>, and the lifetimes of both processes from listening to their exit codes.
  \<^item> \<open>Metrics\<close>: the declarations of \<open>internal/observability/metrics.go\<close>. \<open>Benchmark\<close>: the load generator \<open>cmd/benchmark\<close>.

  \<^bold>\<open>What is shown.\<close>
  \<^item> \<open>Lifecycle\<close> states the contract of the shared state: \<open>sys_inv\<close>, the invariant of the tables and the trace,
    and \<open>evolves\<close>, what every action keeps. \<open>Guarantees\<close> and \<open>Api_Guarantees\<close> prove it for every process of
    the code, once, with the rules of the locale; \<open>System\<close> concludes that it holds in every reachable
    state of the interleaved system.
  \<^item> \<open>Safety\<close>: every transaction sent carries the amount, chain, contract and nonce of a recorded execution
    of its payment; a nonce never serves two payments; nonces have no gaps; statuses only move forward;
    a testnet payment is completed only on the bridge's word; one event and at most one execution per
    payment; an event is marked published only after the broker took it.
  \<^item> \<open>Behaviour\<close>, \<open>Store_Behaviour\<close>, \<open>Outbox_Behaviour\<close>, \<open>Executor_Behaviour\<close>: what single operations do in any
    reachable state: exclusive claims, idempotent and atomic creation, nonce allocation, recovery,
    draining the outbox, failing checks, broadcast, settlement. \<open>Testnet_Behaviour\<close>: a testnet message whose checks pass
    takes the payment to SUBMITTED with one transaction, and no run spends a row, a nonce or a transaction before every
    check of the payment has passed. \<open>Scenario\<close> is a concrete run of the whole
    system on which their hypotheses are exercised.
  \<^item> \<open>Bridge_Behaviour\<close>: the executor that a worker builds has exactly the two real bridges, its configured limits and a seeded
    nonce counter, and meets the hypothesis \<open>executor_ok\<close> of the safety theorems; and what the two bridge integrations do with
    the answers of the APIs, field by field of the JSON documents (\<open>string_field\<close>, \<open>int_field\<close>).
  \<^item> \<open>Listing_Behaviour\<close>, \<open>Api_Behaviour\<close>: following the list cursors, the dashboard counters, and what
    \<open>POST /payments\<close> promises to its client.
  \<^item> \<open>Ledger\<close>: the abstract specification of the service, a ledger of accounts with its own step relation, and the
    locale \<open>refines_spec\<close>, whose interpretation gives that every run of the interleaved system is a run of
    the ledger. \<open>End_To_End\<close> follows one request from its 201 to the chain and the bridge.
  \<^item> \<open>Termination\<close>: \<open>ends_within\<close>, a bound on the answers a process waits for, for every operation; with it, that
    a message is dealt with and (\<open>Server_Main\<close>) that every request is answered, never with a panic.
  \<^item> \<open>Effects\<close>: a judgement on single actions, and what it gives for runs and interleavings. \<open>Isolation\<close>: with it, that
    handling some payments never touches the row of another. \<open>Resumption\<close>: the reconciler's sweep finishes every
    execution that a crash left signed, whatever the rest of its candidates run into; thirteen
    answers per execution are enough. \<open>Double_Signing\<close>: what resuming an unsigned execution does, and the case it leaves
    open, two actors that hold the same unsigned row.
  \<^item> \<open>Startup\<close>: for which environment variables and answers of the routing client and the database the server starts, what
    it is configured with then, that tracing fails open, and how the processes end.
  \<^item> \<open>Metrics\<close>: every metric update is of a registered metric, with one value per label from a fixed list.
    \<open>Worker_Main\<close>: which goroutines a worker that starts runs and with what configuration; they are processes of the interleaved system and end at
    shutdown, and what the consume loop does with a message that failed. \<open>Benchmark\<close>: the load generator
    never causes a transfer, and its report is independent of the order of arrival.

  \<^bold>\<open>Hypotheses.\<close> \<open>geth_ok\<close> (the signed transaction carries what was asked for, decoding inverts encoding)
  and \<open>pg_ok\<close> (the database reads the timestamps the server prints) are documented behaviour of code
  outside the repository; so is \<open>kafka_ok\<close>, that a fetched message was published before (kafka-go is the
  record \<open>Kafka\<close>). \<open>executor_ok\<close> is \<open>geth_ok\<close> together with the contract of the quote providers; it is
  proved for the executor of every worker that starts. No UUID collision is assumed away: a generated
  identifier that exists is a primary-key error.

  \<^bold>\<open>Fuel.\<close> The loops of the code are structural recursions or terminate by a measure. The endless loops of
  the workers are given a number of turns; the theorems hold for every number, and every finite part of an endless run is
  one of these. A run takes a list of answers; a run with too few answers is a process that
  stopped in the middle, and the statements that an operation returns say how many answers are enough:
  eleven for a request, fourteen for a message. The polling loop of the load generator makes at most 100 turns, as in the code. The walk over the pages of the list takes a number of pages that
  exceeds the number of payments, which is enough.

  \<^bold>\<open>Not modelled.\<close> The log calls and spans inside the operations, which change no state and no result (the log handler itself is in
  \<open>Startup\<close>); the values of histograms and help texts; the OpenTelemetry, gRPC, Kafka, PostgreSQL and go-ethereum
  libraries, which are parameters; timeouts inside an operation (a call that times out is an error
  answer) and the lengths of the waits between the turns of the loops; the flags and the printing of the load generator; the C++ routing engine,
  which is a separate service (its answers are arbitrary here); the user interface and the deployment
  files. The quote requests of one payment run in index order instead of in parallel; their answers
  are independent.
\<close>

end
